(* ===== verification/GoBase.thy ===== *)
theory GoBase
  imports Main "HOL-Library.Word" "HOL-Library.Signed_Division"
begin

section \<open>The Go machine: integers, panics, errors and slices\<close>

text \<open>
  What every component of the model needs of the language: the 64-bit signed integers
  \<open>int\<close> and \<open>int64\<close> (both are \<open>64 word\<close> here, read with \<open>sint\<close>), run-time panics as
  the left side of a sum, \<open>error\<close> results as the left side of another, slice
  expressions with their bounds check, the \<open>copy\<close> builtin and integer division with its
  zero check.  The lemmas at the end of each section are the shared automation:
  \<open>go_arith\<close> collects the no-overflow rules for \<open>sint\<close>, \<open>go_bind\<close> the rules for
  sequencing.
\<close>

named_theorems go_arith "no-overflow rules for sums and differences of int64 values"
named_theorems go_bind "rules for sequencing computations that may panic or fail"

type_synonym int64 = "64 word"
type_synonym byte = "8 word"

subsection \<open>Panics and errors\<close>

text \<open>
  A panic of the Go runtime, or one raised by a library the code calls
  (\<open>LibPanic\<close>): unrecovered, it ends the process.
\<close>

datatype go_panic =
    IndexOutOfRange
  | SliceBounds
  | NilDereference
  | DivideByZero
  | MakeSliceRange
  | TypeAssertion
  | NegativeWaitGroup
  | CloseOfClosed
  | LibPanic string

text \<open>A value of the interface \<open>error\<close> that is not \<open>nil\<close>, by its message.\<close>

datatype go_error = GoError string

type_synonym 'a go = "go_panic + 'a"
type_synonym 'a result = "go_error + 'a"

definition bindS :: "'e + 'a \<Rightarrow> ('a \<Rightarrow> 'e + 'b) \<Rightarrow> 'e + 'b" where
  "bindS m f = (case m of Inl e \<Rightarrow> Inl e | Inr x \<Rightarrow> f x)"

lemma bindS_Inl [simp, go_bind]: "bindS (Inl e) f = Inl e"
  and bindS_Inr [simp, go_bind]: "bindS (Inr x) f = f x"
  by (simp_all add: bindS_def)

lemma bindS_Inr_iff [go_bind]:
  "bindS m f = Inr y \<longleftrightarrow> (\<exists>x. m = Inr x \<and> f x = Inr y)"
  by (cases m) auto

lemma bindS_Inl_iff [go_bind]:
  "bindS m f = Inl e \<longleftrightarrow> m = Inl e \<or> (\<exists>x. m = Inr x \<and> f x = Inl e)"
  by (cases m) auto

lemma bindS_result_Inr:
  "bindS m (\<lambda>r. case r of Inl e \<Rightarrow> Inr (Inl (g e)) | Inr x \<Rightarrow> f x) = Inr (Inr y) \<longleftrightarrow>
     (\<exists>x. m = Inr (Inr x) \<and> f x = Inr (Inr y))"
  by (cases m) (auto split: sum.splits)

lemma bindS_cong [fundef_cong]:
  assumes "m = m'" and "\<And>x. m' = Inr x \<Longrightarrow> f x = f' x"
  shows "bindS m f = bindS m' f'"
  using assms by (cases m') auto

text \<open>Running a fallible body over a list, left to right: the first panic or error wins.\<close>

fun foldS :: "('a \<Rightarrow> 's \<Rightarrow> 'e + 's) \<Rightarrow> 'a list \<Rightarrow> 's \<Rightarrow> 'e + 's" where
  "foldS f [] s = Inr s"
| "foldS f (x # xs) s = bindS (f x s) (foldS f xs)"

text \<open>A fold moves its state along a preorder when every step that succeeds does.\<close>

lemma foldS_along:
  assumes "foldS f xs s = Inr s'" and "P s" and "\<And>s. R s s" and "\<And>a b c. R a b \<Longrightarrow> R b c \<Longrightarrow> R a c"
    and "\<And>x s s'. x \<in> set xs \<Longrightarrow> P s \<Longrightarrow> f x s = Inr s' \<Longrightarrow> R s s' \<and> P s'"
  shows "R s s' \<and> P s'"
  using assms(1,2,5)
proof (induction xs arbitrary: s)
  case Nil
  then show ?case using assms(3) by simp
next
  case (Cons x xs)
  obtain s1 where s1: "f x s = Inr s1" "foldS f xs s1 = Inr s'"
    using Cons.prems(1) by (cases "f x s") auto
  have "R s s1 \<and> P s1" using Cons.prems(2,3) s1(1) by (metis list.set_intros(1))
  moreover from this have "R s1 s' \<and> P s'"
    using Cons.IH [OF s1(2)] Cons.prems(3) by (metis list.set_intros(2))
  ultimately show ?case using assms(4) by blast
qed

lemma foldS_append: "foldS f (xs @ ys) s = bindS (foldS f xs s) (foldS f ys)"
  by (induction xs arbitrary: s) (auto simp: bindS_def split: sum.splits)

lemma foldS_total: "(\<And>x s. x \<in> set xs \<Longrightarrow> f x s = Inr (g x s)) \<Longrightarrow> foldS f xs s = Inr (fold g xs s)"
  by (induction xs arbitrary: s) auto

subsection \<open>Signed 64-bit arithmetic\<close>

definition maxInt64 :: int where "maxInt64 = 2 ^ 63 - 1"
definition minInt64 :: int where "minInt64 = - (2 ^ 63)"

lemma sint64_bounds: "minInt64 \<le> sint (x :: int64)" "sint (x :: int64) \<le> maxInt64"
  using sint_greater_eq [of x] sint_less [of x]
  by (simp_all add: minInt64_def maxInt64_def)

lemma sint64_ge: "- 9223372036854775808 \<le> sint (x :: int64)"
  and sint64_le: "sint (x :: int64) \<le> 9223372036854775807"
  using sint64_bounds [of x] by (simp_all add: minInt64_def maxInt64_def)

lemma sint64_eq_iff: "sint (x :: int64) = sint y \<longleftrightarrow> x = y"
  by (auto intro: signed_word_eqI)

lemma sint64_of_int [go_arith]:
  "minInt64 \<le> i \<Longrightarrow> i \<le> maxInt64 \<Longrightarrow> sint (word_of_int i :: int64) = i"
  by (simp add: minInt64_def maxInt64_def signed_take_bit_int_eq_self sint_sbintrunc')

lemma sint64_of_nat [go_arith]:
  "int n \<le> maxInt64 \<Longrightarrow> sint (word_of_nat n :: int64) = int n"
  using sint64_of_int [of "int n"] by (simp add: minInt64_def)

lemma sint64_add [go_arith]:
  "minInt64 \<le> sint x + sint y \<Longrightarrow> sint x + sint y \<le> maxInt64
    \<Longrightarrow> sint (x + y :: int64) = sint x + sint y"
  by (simp add: minInt64_def maxInt64_def sint_word_ariths signed_take_bit_int_eq_self)

lemma sint64_diff [go_arith]:
  "minInt64 \<le> sint x - sint y \<Longrightarrow> sint x - sint y \<le> maxInt64
    \<Longrightarrow> sint (x - y :: int64) = sint x - sint y"
  by (simp add: minInt64_def maxInt64_def sint_word_ariths signed_take_bit_int_eq_self)

lemma sint64_mult [go_arith]:
  "minInt64 \<le> sint x * sint y \<Longrightarrow> sint x * sint y \<le> maxInt64
    \<Longrightarrow> sint (x * y :: int64) = sint x * sint y"
  by (simp add: minInt64_def maxInt64_def sint_word_ariths signed_take_bit_int_eq_self)

text \<open>A sum beyond the largest value wraps to a negative one.\<close>

lemma sint64_add_overflow:
  assumes "maxInt64 < sint x + sint y"
  shows "sint (x + y :: int64) = sint x + sint y - 2 ^ 64"
proof -
  have e: "(word_of_int (sint x + sint y - 2 ^ 64) :: int64) = x + y"
    by simp
  have "sint (word_of_int (sint x + sint y - 2 ^ 64) :: int64) = sint x + sint y - 2 ^ 64"
    using assms sint64_bounds(2) [of x] sint64_bounds(2) [of y]
    by (intro sint64_of_int) (simp_all add: minInt64_def maxInt64_def)
  then show ?thesis unfolding e .
qed

lemma sint64_0 [simp]: "sint (0 :: int64) = 0"
  and sint64_1 [simp]: "sint (1 :: int64) = 1"
  by simp_all

text \<open>The successor never wraps below a larger value.\<close>

lemma sint64_Suc_less:
  fixes x y :: int64
  assumes "x <s y"
  shows "sint (x + 1) = sint x + 1" and "sint (x + 1) \<le> sint y"
proof -
  have lt: "sint x < sint y" using assms by (simp add: word_sless_alt)
  have "sint x + sint (1 :: int64) \<le> maxInt64" "minInt64 \<le> sint x + sint (1 :: int64)"
    using lt sint64_bounds(2) [of y] sint64_bounds(1) [of x] by simp_all
  then show "sint (x + 1) = sint x + 1" by (simp only: sint64_add sint64_1)
  then show "sint (x + 1) \<le> sint y" using lt by simp
qed

text \<open>
  Integer division: truncates towards zero, panics on a zero divisor; the quotient of the
  least value by \<open>-1\<close> wraps, as the language defines.
\<close>

definition go_div :: "int64 \<Rightarrow> int64 \<Rightarrow> int64 go" where
  "go_div a b = (if b = 0 then Inl DivideByZero else Inr (word_of_int (sint a sdiv sint b)))"

lemma go_div_pos:
  fixes a b :: int64
  assumes "0 \<le> sint a" and "0 < sint b"
  shows "go_div a b = Inr (word_of_int (sint a div sint b))"
    and "sint (word_of_int (sint a div sint b) :: int64) = sint a div sint b"
proof -
  have nz: "b \<noteq> 0" using assms(2) by auto
  have "sint a sdiv sint b = sint a div sint b"
    using assms by (simp add: signed_divide_int_def sgn_if)
  then show "go_div a b = Inr (word_of_int (sint a div sint b))"
    using nz by (simp add: go_div_def)
  have "0 \<le> sint a div sint b"
    using assms by (simp add: pos_imp_zdiv_nonneg_iff)
  moreover have "sint a div sint b \<le> sint a"
    using assms zdiv_mono2 [of "sint a" 1 "sint b"] by simp
  ultimately show "sint (word_of_int (sint a div sint b) :: int64) = sint a div sint b"
    using sint64_bounds [of a] by (intro sint64_of_int) (auto simp: minInt64_def)
qed

subsection \<open>Slices\<close>

text \<open>
  \<open>xs[lo:hi]\<close> on a slice whose capacity is its length (every buffer of the program
  comes from \<open>make([]byte, n)\<close>), and \<open>copy(dst[off:], src)\<close>.
\<close>

definition go_slice :: "'a list \<Rightarrow> int \<Rightarrow> int \<Rightarrow> 'a list go" where
  "go_slice xs lo hi =
     (if 0 \<le> lo \<and> lo \<le> hi \<and> hi \<le> int (length xs)
      then Inr (take (nat hi - nat lo) (drop (nat lo) xs))
      else Inl SliceBounds)"

definition go_copy :: "'a list \<Rightarrow> 'a list \<Rightarrow> 'a list" where
  "go_copy dst src = take (length dst) src @ drop (length src) dst"

definition go_copy_from :: "'a list \<Rightarrow> nat \<Rightarrow> 'a list \<Rightarrow> 'a list go" where
  "go_copy_from dst off src =
     (if off \<le> length dst then Inr (take off dst @ go_copy (drop off dst) src)
      else Inl SliceBounds)"

text \<open>\<open>xs[i]\<close>.\<close>

definition go_index :: "'a list \<Rightarrow> nat \<Rightarrow> 'a go" where
  "go_index xs i = (if i < length xs then Inr (xs ! i) else Inl IndexOutOfRange)"

lemma length_go_copy [simp]: "length (go_copy dst src) = length dst"
  by (simp add: go_copy_def)

lemma go_copy_fits: "length src \<le> length dst \<Longrightarrow> go_copy dst src = src @ drop (length src) dst"
  by (simp add: go_copy_def)

lemma length_go_copy_from: "go_copy_from dst off src = Inr d \<Longrightarrow> length d = length dst"
  by (auto simp: go_copy_from_def split: if_splits)

lemma go_slice_prefix:
  "n \<le> length xs \<Longrightarrow> go_slice xs 0 (int n) = Inr (take n xs)"
  by (simp add: go_slice_def)

lemma go_slice_Inl_iff:
  "go_slice xs lo hi = Inl p \<longleftrightarrow>
     p = SliceBounds \<and> \<not> (0 \<le> lo \<and> lo \<le> hi \<and> hi \<le> int (length xs))"
  by (auto simp: go_slice_def)

lemma length_go_slice: "go_slice xs lo hi = Inr ys \<Longrightarrow> length ys = nat hi - nat lo"
  by (auto simp: go_slice_def split: if_splits)

end
