(* ===== verification/GoStrings.thy ===== *)
theory GoStrings
  imports GoBase "HOL-Library.Sublist"
begin

section \<open>The functions of \<open>strings\<close> and \<open>strconv\<close> the program calls\<close>

text \<open>
  Strings are lists of bytes (\<open>string\<close>), as in Go.  The functions below are the ones the
  sources use, on ASCII text: white space and letter case beyond ASCII are not folded.
  Separators are non-empty in every call of the program.
\<close>

subsection \<open>Searching, splitting, replacing\<close>

text \<open>The text before and after the first occurrence of \<open>sep\<close>.\<close>

fun cut_at :: "string \<Rightarrow> string \<Rightarrow> (string \<times> string) option" where
  "cut_at sep [] = (if sep = [] then Some ([], []) else None)"
| "cut_at sep (c # cs) =
     (if prefix sep (c # cs) then Some ([], drop (length sep) (c # cs))
      else map_option (\<lambda>(a, b). (c # a, b)) (cut_at sep cs))"

lemma cut_at_Some: "cut_at sep s = Some (a, b) \<Longrightarrow> s = a @ sep @ b"
  by (induction sep s arbitrary: a b rule: cut_at.induct)
    (auto simp: prefix_def split: if_splits)

lemma cut_at_None_iff: "cut_at sep s = None \<longleftrightarrow> \<not> sublist sep s"
proof (induction sep s rule: cut_at.induct)
  case (1 sep)
  then show ?case by auto
next
  case (2 sep c cs)
  then show ?case by (auto simp: sublist_Cons_right)
qed

text \<open>\<open>strings.Split\<close>.\<close>

function go_split :: "string \<Rightarrow> string \<Rightarrow> string list" where
  "go_split sep s =
     (if sep = [] then map (\<lambda>c. [c]) s
      else case cut_at sep s of None \<Rightarrow> [s] | Some (a, b) \<Rightarrow> a # go_split sep b)"
  by pat_completeness auto
termination
  by (relation "measure (\<lambda>(sep, s). length s)") (auto dest!: cut_at_Some)

declare go_split.simps [simp del]

lemma go_split_nonempty: "sep \<noteq> [] \<Longrightarrow> go_split sep s \<noteq> []"
  by (subst go_split.simps) (auto split: option.splits)

text \<open>\<open>strings.Join\<close>, the inverse of \<open>strings.Split\<close>.\<close>

fun go_join :: "string \<Rightarrow> string list \<Rightarrow> string" where
  "go_join sep [] = []"
| "go_join sep [x] = x"
| "go_join sep (x # y # xs) = x @ sep @ go_join sep (y # xs)"

lemma go_join_Cons: "xs \<noteq> [] \<Longrightarrow> go_join sep (x # xs) = x @ sep @ go_join sep xs"
  by (cases xs) auto

lemma go_join_split: "sep \<noteq> [] \<Longrightarrow> go_join sep (go_split sep s) = s"
proof (induction sep s rule: go_split.induct)
  case (1 sep s)
  show ?case
  proof (cases "cut_at sep s")
    case None
    with "1.prems" show ?thesis by (simp add: go_split.simps)
  next
    case (Some ab)
    obtain a b where ab: "ab = (a, b)" by (cases ab)
    with Some "1" have "go_join sep (go_split sep b) = b" by simp
    moreover have "go_split sep s = a # go_split sep b"
      using "1.prems" Some ab by (simp add: go_split.simps [of sep s])
    moreover have "s = a @ sep @ b" using Some ab cut_at_Some by blast
    ultimately show ?thesis
      using "1.prems" by (simp add: go_join_Cons go_split_nonempty)
  qed
qed

lemma go_split_one: "sep \<noteq> [] \<Longrightarrow> \<not> sublist sep s \<Longrightarrow> go_split sep s = [s]"
  by (subst go_split.simps) (simp add: cut_at_None_iff [symmetric])

lemma go_split_pieces:
  "sep \<noteq> [] \<Longrightarrow> x \<in> set (go_split sep s) \<Longrightarrow> sublist x s"
proof (induction sep s rule: go_split.induct)
  case (1 sep s)
  show ?case
  proof (cases "cut_at sep s")
    case None
    with "1.prems" show ?thesis by (simp add: go_split.simps [of sep s])
  next
    case (Some ab)
    obtain a b where ab: "ab = (a, b)" by (cases ab)
    then have s: "s = a @ sep @ b" using Some cut_at_Some by blast
    have "x = a \<or> x \<in> set (go_split sep b)"
      using "1.prems" Some ab by (simp add: go_split.simps [of sep s])
    then show ?thesis
    proof
      assume "x = a"
      then show ?thesis using s by simp
    next
      assume "x \<in> set (go_split sep b)"
      then have "sublist x b" using "1" Some ab by simp
      moreover have "sublist b s" using s sublist_append_leftI [of b "a @ sep"] by simp
      ultimately show ?thesis by (rule sublist_order.order_trans)
    qed
  qed
qed

text \<open>A one-character separator.\<close>

lemma cut_at_char: "c \<notin> set a \<Longrightarrow> cut_at [c] (a @ c # b) = Some (a, b)"
  by (induction a) auto

lemma cut_at_char_None: "c \<notin> set s \<Longrightarrow> cut_at [c] s = None"
  by (induction s) auto

lemma go_split_char: "c \<notin> set a \<Longrightarrow> go_split [c] (a @ c # b) = a # go_split [c] b"
  by (subst go_split.simps) (simp add: cut_at_char)

lemma go_split_char_none: "c \<notin> set s \<Longrightarrow> go_split [c] s = [s]"
  by (subst go_split.simps) (simp add: cut_at_char_None)

lemma go_split_char_two: "c \<in> set s \<Longrightarrow> \<exists>x y zs. go_split [c] s = x # y # zs"
  using go_split_nonempty [of "[c]"]
  by (metis go_split_char split_list_first list.distinct(1) list.exhaust)

lemma go_split_join_char:
  "xs \<noteq> [] \<Longrightarrow> \<forall>x \<in> set xs. c \<notin> set x \<Longrightarrow> go_split [c] (go_join [c] xs) = xs"
  by (induction xs rule: list_nonempty_induct)
    (simp_all add: go_split_char_none go_split_char go_join_Cons)

text \<open>\<open>strings.ReplaceAll\<close> (and \<open>strings.Replace\<close> with a negative count).\<close>

definition go_replace_all :: "string \<Rightarrow> string \<Rightarrow> string \<Rightarrow> string" where
  "go_replace_all s old new = go_join new (go_split old s)"

text \<open>\<open>strings.HasPrefix\<close>, \<open>strings.Contains\<close>, \<open>strings.Count\<close> of a one-byte string.\<close>

definition has_prefix :: "string \<Rightarrow> string \<Rightarrow> bool" where
  "has_prefix s p \<longleftrightarrow> take (length p) s = p"

lemma has_prefix_iff: "has_prefix s p \<longleftrightarrow> prefix p s"
  by (metis append_take_drop_id has_prefix_def append_eq_conv_conj prefix_def)

definition go_contains :: "string \<Rightarrow> string \<Rightarrow> bool" where
  "go_contains s sub \<longleftrightarrow> cut_at sub s \<noteq> None"

definition count_char :: "char \<Rightarrow> string \<Rightarrow> nat" where
  "count_char c s = length (filter (\<lambda>d. d = c) s)"

subsection \<open>Trimming and letter case\<close>

text \<open>The white space of \<open>unicode.IsSpace\<close> in ASCII.\<close>

definition is_space :: "char \<Rightarrow> bool" where
  "is_space c \<longleftrightarrow> c \<in> {CHR 0x09, CHR 0x0A, CHR 0x0B, CHR 0x0C, CHR 0x0D, CHR 0x20}"

definition trim_left :: "(char \<Rightarrow> bool) \<Rightarrow> string \<Rightarrow> string" where
  "trim_left P s = dropWhile P s"

definition trim_both :: "(char \<Rightarrow> bool) \<Rightarrow> string \<Rightarrow> string" where
  "trim_both P s = rev (dropWhile P (rev (dropWhile P s)))"

definition trim_space :: "string \<Rightarrow> string" where
  "trim_space = trim_both is_space"

definition lower_char :: "char \<Rightarrow> char" where
  "lower_char c = (let n = (of_char c :: nat)
                   in if 65 \<le> n \<and> n \<le> 90 then char_of (n + 32) else c)"

definition to_lower :: "string \<Rightarrow> string" where
  "to_lower s = map lower_char s"

definition equal_fold :: "string \<Rightarrow> string \<Rightarrow> bool" where
  "equal_fold s t \<longleftrightarrow> to_lower s = to_lower t"

lemma equal_fold_refl [simp]: "equal_fold s s"
  by (simp add: equal_fold_def)

lemma equal_fold_length: "equal_fold s t \<Longrightarrow> length s = length t"
  unfolding equal_fold_def to_lower_def by (metis length_map)

lemma trim_both_idem: "trim_both P (trim_both P s) = trim_both P s"
proof -
  let ?a = "dropWhile P s"
  let ?t = "rev (dropWhile P (rev ?a))"
  have "dropWhile P ?t = ?t"
  proof (cases "?t")
    case Nil
    then show ?thesis by (simp only: Nil dropWhile.simps)
  next
    case (Cons c cs)
    have "?a = ?t @ rev (takeWhile P (rev ?a))"
      by (metis rev_append rev_rev_ident takeWhile_dropWhile_id)
    then obtain zs where a: "?a = c # zs" using Cons by (metis append_Cons)
    then have "\<not> P c" using hd_dropWhile [of P s] by (metis list.distinct(1) list.sel(1))
    with Cons show ?thesis by simp
  qed
  then show ?thesis by (simp add: trim_both_def dropWhile_idem)
qed

subsection \<open>Numbers and booleans\<close>

definition digit_val :: "char \<Rightarrow> nat option" where
  "digit_val c = (let n = (of_char c :: nat) in if 48 \<le> n \<and> n \<le> 57 then Some (n - 48) else None)"

definition hex_val :: "char \<Rightarrow> nat option" where
  "hex_val c =
     (let n = (of_char c :: nat)
      in if 48 \<le> n \<and> n \<le> 57 then Some (n - 48)
         else if 97 \<le> n \<and> n \<le> 102 then Some (n - 87)
         else if 65 \<le> n \<and> n \<le> 70 then Some (n - 55) else None)"

fun digits_val :: "nat \<Rightarrow> string \<Rightarrow> nat option" where
  "digits_val acc [] = Some acc"
| "digits_val acc (c # cs) =
     (case digit_val c of None \<Rightarrow> None | Some d \<Rightarrow> digits_val (acc * 10 + d) cs)"

text \<open>\<open>strconv.Atoi\<close>: an optional sign, one or more decimal digits, in the range of \<open>int\<close>.\<close>

definition atoi_range :: "int \<Rightarrow> string \<Rightarrow> int64 result" where
  "atoi_range i s =
     (if minInt64 \<le> i \<and> i \<le> maxInt64 then Inr (word_of_int i)
      else Inl (GoError (''strconv.Atoi: value out of range: '' @ s)))"

definition go_atoi :: "string \<Rightarrow> int64 result" where
  "go_atoi s =
     (let neg = (s \<noteq> [] \<and> hd s = CHR ''-'');
          ds = (if s \<noteq> [] \<and> (hd s = CHR ''-'' \<or> hd s = CHR ''+'') then tl s else s)
      in if ds = [] then Inl (GoError (''strconv.Atoi: invalid syntax: '' @ s))
         else case digits_val 0 ds of
           None \<Rightarrow> Inl (GoError (''strconv.Atoi: invalid syntax: '' @ s))
         | Some n \<Rightarrow> atoi_range (if neg then - int n else int n) s)"

text \<open>\<open>strconv.Itoa\<close>.\<close>

fun nat_digits :: "nat \<Rightarrow> string" where
  "nat_digits n =
     (if n < 10 then [char_of (48 + n)]
      else nat_digits (n div 10) @ [char_of (48 + n mod 10)])"

declare nat_digits.simps [simp del]

definition go_itoa :: "int64 \<Rightarrow> string" where
  "go_itoa i = (if sint i < 0 then CHR ''-'' # nat_digits (nat (- sint i))
                else nat_digits (nat (sint i)))"

text \<open>\<open>strconv.ParseBool\<close>: the value and whether it failed; a failure returns \<open>false\<close>.\<close>

definition parse_bool :: "string \<Rightarrow> bool result" where
  "parse_bool s =
     (if s \<in> {''1'', ''t'', ''T'', ''true'', ''TRUE'', ''True''} then Inr True
      else if s \<in> {''0'', ''f'', ''F'', ''false'', ''FALSE'', ''False''} then Inr False
      else Inl (GoError (''strconv.ParseBool: invalid syntax: '' @ s)))"

lemma digit_val_char [simp]: "d < 10 \<Longrightarrow> digit_val (char_of (48 + d)) = Some d"
  by (simp add: digit_val_def)

lemma digits_val_append:
  "digits_val acc (s @ t) = (case digits_val acc s of None \<Rightarrow> None | Some a \<Rightarrow> digits_val a t)"
  by (induction acc s rule: digits_val.induct) (auto split: option.splits)

lemma digits_val_nat_digits: "digits_val 0 (nat_digits n) = Some n"
proof (induction n rule: nat_digits.induct)
  case (1 n)
  then show ?case
    by (cases "n < 10") (simp_all add: nat_digits.simps [of n] digits_val_append)
qed

lemma nat_digits_hd:
  "nat_digits n \<noteq> [] \<and> (\<exists>d < (10::nat). hd (nat_digits n) = char_of (48 + d))"
proof (induction n rule: nat_digits.induct)
  case (1 n)
  then show ?case
    by (cases "n < 10") (auto simp: nat_digits.simps [of n])
qed

lemma nat_digits_no_sign:
  "nat_digits n \<noteq> []" "hd (nat_digits n) \<noteq> CHR ''-''" "hd (nat_digits n) \<noteq> CHR ''+''"
proof -
  obtain d :: nat where d: "d < 10" "hd (nat_digits n) = char_of (48 + d)"
    using nat_digits_hd by blast
  have "digit_val (hd (nat_digits n)) = Some d" using d by simp
  then show "hd (nat_digits n) \<noteq> CHR ''-''" "hd (nat_digits n) \<noteq> CHR ''+''"
    by (auto simp: digit_val_def)
  show "nat_digits n \<noteq> []" using nat_digits_hd by blast
qed

text \<open>Printing an integer and parsing it gives it back, over the whole range.\<close>

lemma go_atoi_itoa: "go_atoi (go_itoa i) = Inr i"
proof (cases "sint i < 0")
  case True
  then have "go_atoi (go_itoa i) = atoi_range (sint i) (go_itoa i)"
    by (simp add: go_itoa_def go_atoi_def nat_digits_no_sign digits_val_nat_digits)
  then show ?thesis by (simp add: atoi_range_def sint64_bounds)
next
  case False
  then have "go_atoi (go_itoa i) = atoi_range (sint i) (go_itoa i)"
    by (simp add: go_itoa_def go_atoi_def nat_digits_no_sign digits_val_nat_digits)
  then show ?thesis by (simp add: atoi_range_def sint64_bounds)
qed

end
