(* ===== verification/GoMaps.thy ===== *)
theory GoMaps
  imports GoBase "HOL-Library.AList"
begin

section \<open>Go maps as association lists\<close>

text \<open>
  A Go map that the code iterates over or whose size it counts is an association list with
  distinct keys, changed by \<open>AList.update\<close> and \<open>AList.delete\<close>.  The lemmas say how its
  length, its lookup function and a sum over its values move with each operation.
\<close>

named_theorems go_maps "lookup, keys, length and sums of association-list maps"

abbreviation keys :: "('k \<times> 'v) list \<Rightarrow> 'k list" where
  "keys al \<equiv> map fst al"

lemma map_of_alist_update [go_maps]: "map_of (AList.update k v al) = (map_of al)(k \<mapsto> v)"
  by (rule update_conv')

lemma map_of_alist_delete [go_maps]: "map_of (AList.delete k al) = (map_of al)(k := None)"
  by (rule delete_conv')

lemma map_of_None_keys: "map_of al k = None \<longleftrightarrow> k \<notin> set (keys al)"
  by (simp add: map_of_eq_None_iff image_iff)

lemma length_alist_update [go_maps]:
  "length (AList.update k v al) = (if map_of al k = None then Suc (length al) else length al)"
proof -
  have "length (keys (AList.update k v al)) =
      (if map_of al k = None then Suc (length al) else length al)"
    by (simp only: update_keys map_of_None_keys) simp
  then show ?thesis by simp
qed

lemma distinct_keys_update [go_maps]:
  "distinct (keys al) \<Longrightarrow> distinct (keys (AList.update k v al))"
  by (rule distinct_update)

lemma distinct_keys_delete [go_maps]:
  "distinct (keys al) \<Longrightarrow> distinct (keys (AList.delete k al))"
  by (rule distinct_delete)

lemma alist_delete_filter: "AList.delete k al = filter (\<lambda>e. fst e \<noteq> k) al"
  by (simp add: AList.delete_eq case_prod_unfold eq_commute)

lemma length_alist_delete [go_maps]:
  assumes "distinct (keys al)"
  shows "length (AList.delete k al) = (if map_of al k = None then length al else length al - 1)"
  using assms
proof (induction al)
  case Nil
  then show ?case by simp
next
  case (Cons e al)
  show ?case
  proof (cases "fst e = k")
    case True
    then have "k \<notin> set (keys al)" using Cons.prems by simp
    then have "filter (\<lambda>e. fst e \<noteq> k) al = al" by (auto simp: filter_id_conv)
    then show ?thesis using True by (cases e) (simp add: alist_delete_filter)
  next
    case False
    then have "AList.delete k (e # al) = e # AList.delete k al" by (simp add: alist_delete_filter)
    moreover have "map_of al k \<noteq> None \<Longrightarrow> 0 < length al" by (cases al) auto
    ultimately show ?thesis using Cons False by (cases e) auto
  qed
qed

lemma alist_update_mem: "e \<in> set (AList.update k v al) \<Longrightarrow> e = (k, v) \<or> e \<in> set al"
  by (induction al) (auto split: if_splits)

lemma set_alist_update:
  assumes "distinct (keys al)" and "e \<in> set (AList.update k v al)"
  shows "e = (k, v) \<or> (e \<in> set al \<and> fst e \<noteq> k)"
proof -
  have "map_of (AList.update k v al) (fst e) = Some (snd e)"
    using assms by (metis distinct_keys_update map_of_is_SomeI prod.collapse)
  then have "((map_of al)(k \<mapsto> v)) (fst e) = Some (snd e)"
    by (simp add: go_maps)
  then show ?thesis
    by (cases e) (auto split: if_splits dest: map_of_SomeD)
qed

text \<open>A sum over the values.\<close>

definition sum_vals :: "('v \<Rightarrow> int) \<Rightarrow> ('k \<times> 'v) list \<Rightarrow> int" where
  "sum_vals f al = sum_list (map (f \<circ> snd) al)"

lemma sum_vals_update:
  assumes "distinct (keys al)"
  shows "sum_vals f (AList.update k v al) =
    sum_vals f al - (case map_of al k of None \<Rightarrow> 0 | Some u \<Rightarrow> f u) + f v"
  using assms
proof (induction al)
  case Nil
  then show ?case by (simp add: sum_vals_def)
next
  case (Cons e al)
  show ?case
  proof (cases "fst e = k")
    case True
    then show ?thesis by (cases e) (simp add: sum_vals_def)
  next
    case False
    then show ?thesis using Cons by (cases e) (auto simp: sum_vals_def)
  qed
qed

lemma sum_vals_Nil [simp]: "sum_vals f [] = 0"
  by (simp add: sum_vals_def)

lemma sum_dom_upd:
  fixes f :: "'v \<Rightarrow> int"
  assumes "finite (dom m)"
  shows "(\<Sum>j \<in> dom (m(k \<mapsto> v)). f (the ((m(k \<mapsto> v)) j))) =
    (\<Sum>j \<in> dom m. f (the (m j))) - (case m k of None \<Rightarrow> 0 | Some u \<Rightarrow> f u) + f v"
proof -
  have "(\<Sum>j \<in> dom m - {k}. f (the ((m(k \<mapsto> v)) j))) = (\<Sum>j \<in> dom m - {k}. f (the (m j)))"
    by (rule sum.cong) auto
  moreover have "(\<Sum>j \<in> dom m. f (the (m j))) =
      (\<Sum>j \<in> dom m - {k}. f (the (m j))) + (case m k of None \<Rightarrow> 0 | Some u \<Rightarrow> f u)"
    using assms by (cases "m k") (auto simp: sum.remove [of "dom m" k] domIff)
  ultimately show ?thesis
    using assms by (simp add: sum.insert_remove)
qed

lemma sum_vals_map_of:
  assumes "distinct (keys al)"
  shows "sum_vals f al = (\<Sum>k \<in> dom (map_of al). f (the (map_of al k)))"
  using assms
proof (induction al)
  case Nil
  then show ?case by simp
next
  case (Cons e al)
  obtain k v where e: "e = (k, v)" by (cases e)
  have "map_of al k = None" using Cons.prems e by (simp add: map_of_None_keys)
  then show ?case
    using Cons e sum_dom_upd [of "map_of al" f k v]
    by (simp add: sum_vals_def finite_dom_map_of del: dom_fun_upd fun_upd_apply)
qed

text \<open>
  Deleting the entries that satisfy a test, one by one and in any order, filters the map.
\<close>

lemma fold_delete_filter:
  assumes "distinct (keys al)" and "set es \<subseteq> set al" and "distinct es"
  shows "fold (\<lambda>e m. if P (snd e) then AList.delete (fst e) m else m) es al =
    filter (\<lambda>e. \<not> (e \<in> set es \<and> P (snd e))) al"
  using assms
proof (induction es arbitrary: al)
  case Nil
  then show ?case by simp
next
  case (Cons e es)
  show ?case
  proof (cases "P (snd e)")
    case False
    then have "fold (\<lambda>e m. if P (snd e) then AList.delete (fst e) m else m) (e # es) al =
        filter (\<lambda>x. \<not> (x \<in> set es \<and> P (snd x))) al"
      using Cons by simp
    then show ?thesis using False by (auto intro: filter_cong)
  next
    case True
    let ?al = "AList.delete (fst e) al"
    have "x \<in> set al \<Longrightarrow> fst x = fst e \<longleftrightarrow> x = e" for x
      using Cons.prems(1,2) by (metis eq_key_imp_eq_value list.set_intros(1) prod.collapse subsetD)
    then have del: "?al = filter (\<lambda>x. x \<noteq> e) al"
      by (auto simp: alist_delete_filter intro: filter_cong)
    have "distinct (keys ?al)" using Cons.prems(1) by (simp add: go_maps)
    moreover have "set es \<subseteq> set ?al" using Cons.prems(2,3) by (auto simp: del)
    ultimately have "fold (\<lambda>e m. if P (snd e) then AList.delete (fst e) m else m) es ?al =
        filter (\<lambda>x. \<not> (x \<in> set es \<and> P (snd x))) ?al"
      using Cons.prems(3) by (intro Cons.IH) auto
    then show ?thesis using True by (auto simp: del intro: filter_cong)
  qed
qed

end
