(* ===== verification/GoNet.thy ===== *)
theory GoNet
  imports GoStrings
begin

section \<open>The text of addresses: what the program uses of package \<open>net\<close>\<close>

text \<open>
  \<open>net.ParseIP\<close> and \<open>net.SplitHostPort\<close>, with which \<open>net.ResolveUDPAddr\<close> begins, as in the
  Go releases the repository builds with (1.15 and 1.16, where an octet may have leading
  zeros).  What follows in \<open>ResolveUDPAddr\<close>, the port and the name service, is an argument.
\<close>

subsection \<open>\<open>ParseIP\<close>\<close>

text \<open>
  Digits up to the first byte that is none, for \<open>dtoi\<close> and \<open>xtoi\<close>: the number and the rest,
  unless there is no digit or the number reaches \<open>0xFFFFFF\<close>.
\<close>

fun net_number :: "(char \<Rightarrow> nat option) \<Rightarrow> nat \<Rightarrow> nat \<Rightarrow> string \<Rightarrow> (nat \<times> string) option" where
  "net_number val base n [] = Some (n, [])"
| "net_number val base n (c # cs) =
     (case val c of
        None \<Rightarrow> Some (n, c # cs)
      | Some d \<Rightarrow> if 16777215 \<le> n * base + d then None else net_number val base (n * base + d) cs)"

definition dtoi :: "string \<Rightarrow> (nat \<times> string) option" where
  "dtoi s = (if s = [] \<or> digit_val (hd s) = None then None else net_number digit_val 10 0 s)"

definition xtoi :: "string \<Rightarrow> (nat \<times> string) option" where
  "xtoi s = (if s = [] \<or> hex_val (hd s) = None then None else net_number hex_val 16 0 s)"

text \<open>So many octets, each but the first of all after a dot.\<close>

fun ipv4_octets :: "nat \<Rightarrow> bool \<Rightarrow> string \<Rightarrow> (nat list \<times> string) option" where
  "ipv4_octets 0 first s = Some ([], s)"
| "ipv4_octets (Suc k) first s =
     (if \<not> first \<and> (s = [] \<or> hd s \<noteq> CHR ''.'') then None
      else case dtoi (if first then s else tl s) of
             None \<Rightarrow> None
           | Some (n, r) \<Rightarrow>
               if 255 < n then None
               else map_option (\<lambda>(ns, u). (n # ns, u)) (ipv4_octets k False r))"

definition parse_ipv4 :: "string \<Rightarrow> nat list option" where
  "parse_ipv4 s =
     (case ipv4_octets 4 True s of
        Some (ns, []) \<Rightarrow> Some (replicate 10 0 @ [255, 255] @ ns)
      | _ \<Rightarrow> None)"

text \<open>
  The loop of \<open>parseIPv6\<close> with so many groups of two bytes to come, the place of the
  ellipsis if there was one, and the bytes so far.
\<close>

fun ipv6_groups :: "nat \<Rightarrow> nat option \<Rightarrow> nat list \<Rightarrow> string \<Rightarrow> (nat option \<times> nat list) option" where
  "ipv6_groups 0 e ip s = (if s = [] then Some (e, ip) else None)"
| "ipv6_groups (Suc k) e ip s =
     (case xtoi s of
        None \<Rightarrow> None
      | Some (n, r) \<Rightarrow>
          if 65535 < n then None
          else if r \<noteq> [] \<and> hd r = CHR ''.'' then
            (if (e = None \<and> k \<noteq> 1) \<or> k = 0 then None
             else map_option (\<lambda>ip4. (e, ip @ drop 12 ip4)) (parse_ipv4 s))
          else
            (let ip1 = ip @ [n div 256, n mod 256]
             in if r = [] then Some (e, ip1)
                else if hd r \<noteq> CHR '':'' \<or> tl r = [] then None
                else if hd (tl r) \<noteq> CHR '':'' then ipv6_groups k e ip1 (tl r)
                else if e \<noteq> None then None
                else if tl (tl r) = [] then Some (Some (length ip1), ip1)
                else ipv6_groups k (Some (length ip1)) ip1 (tl (tl r))))"

definition expand_ellipsis :: "nat option \<times> nat list \<Rightarrow> nat list option" where
  "expand_ellipsis r =
     (case r of
        (None, ip) \<Rightarrow> if length ip < 16 then None else Some ip
      | (Some p, ip) \<Rightarrow>
          if length ip < 16 then Some (take p ip @ replicate (16 - length ip) 0 @ drop p ip) else None)"

definition parse_ipv6 :: "string \<Rightarrow> nat list option" where
  "parse_ipv6 s =
     (if s = ''::'' then Some (replicate 16 0)
      else case (if prefix ''::'' s then ipv6_groups 8 (Some 0) [] (drop 2 s)
                 else ipv6_groups 8 None [] s) of
             None \<Rightarrow> None
           | Some r \<Rightarrow> expand_ellipsis r)"

text \<open>The sixteen bytes of the address, decided by the first dot or colon.\<close>

definition parse_ip :: "string \<Rightarrow> nat list option" where
  "parse_ip s =
     (case dropWhile (\<lambda>c. c \<noteq> CHR ''.'' \<and> c \<noteq> CHR '':'') s of
        [] \<Rightarrow> None
      | c # _ \<Rightarrow> if c = CHR ''.'' then parse_ipv4 s else parse_ipv6 s)"

subsection \<open>\<open>SplitHostPort\<close> and \<open>ResolveUDPAddr\<close>\<close>

fun cut_last :: "char \<Rightarrow> string \<Rightarrow> (string \<times> string) option" where
  "cut_last c [] = None"
| "cut_last c (d # ds) =
     (case cut_last c ds of
        Some (a, b) \<Rightarrow> Some (d # a, b)
      | None \<Rightarrow> if d = c then Some ([], ds) else None)"

definition addr_error :: "string \<Rightarrow> string \<Rightarrow> go_error" where
  "addr_error addr why = GoError (''address '' @ addr @ '': '' @ why)"

definition split_host_port :: "string \<Rightarrow> (string \<times> string) result" where
  "split_host_port s =
     (case cut_last CHR '':'' s of
        None \<Rightarrow> Inl (addr_error s ''missing port in address'')
      | Some (h, p) \<Rightarrow>
          if hd s = CHR ''['' then
            (case cut_at '']'' s of
               None \<Rightarrow> Inl (addr_error s ''missing ']' in address'')
             | Some (a, b) \<Rightarrow>
                 if b = [] then Inl (addr_error s ''missing port in address'')
                 else if h \<noteq> a @ '']'' then
                   Inl (addr_error s (if hd b = CHR '':'' then ''too many colons in address''
                                      else ''missing port in address''))
                 else if CHR ''['' \<in> set (tl s) then Inl (addr_error s ''unexpected '[' in address'')
                 else if CHR '']'' \<in> set b then Inl (addr_error s ''unexpected ']' in address'')
                 else Inr (tl a, p))
          else if CHR '':'' \<in> set h then Inl (addr_error s ''too many colons in address'')
          else if CHR ''['' \<in> set s then Inl (addr_error s ''unexpected '[' in address'')
          else if CHR '']'' \<in> set s then Inl (addr_error s ''unexpected ']' in address'')
          else Inr (h, p))"

definition resolve_udp_addr :: "(string \<Rightarrow> string \<Rightarrow> 'a result) \<Rightarrow> string \<Rightarrow> 'a result" where
  "resolve_udp_addr lookup addr =
     (if addr = [] then lookup [] []
      else case split_host_port addr of Inl e \<Rightarrow> Inl e | Inr (host, port) \<Rightarrow> lookup host port)"

subsection \<open>What parses\<close>

definition ip_char :: "char \<Rightarrow> bool" where
  "ip_char c \<longleftrightarrow> hex_val c \<noteq> None \<or> c = CHR ''.'' \<or> c = CHR '':''"

lemma ip_char_simps [simp]: "ip_char CHR ''.''" "ip_char CHR '':''"
  by (simp_all add: ip_char_def)

lemma digit_hex: "digit_val c \<noteq> None \<Longrightarrow> hex_val c \<noteq> None"
  by (simp add: digit_val_def hex_val_def Let_def split: if_splits)

lemma net_number_rest:
  assumes "net_number val base n s = Some (m, r)"
  shows "\<exists>ds. s = ds @ r \<and> list_all (\<lambda>c. val c \<noteq> None) ds"
  using assms
proof (induction val base n s rule: net_number.induct)
  case (2 val base n c cs)
  then show ?case
    by (force split: option.splits if_splits intro: exI [of _ "[]"] exI [of _ "c # _"])
qed simp

lemma dtoi_rest: "dtoi s = Some (m, r) \<Longrightarrow> \<exists>ds. s = ds @ r \<and> list_all ip_char ds"
  using net_number_rest [of digit_val 10 0 s m r] digit_hex
  by (fastforce simp: dtoi_def ip_char_def list_all_iff split: if_splits)

lemma xtoi_rest: "xtoi s = Some (m, r) \<Longrightarrow> \<exists>ds. s = ds @ r \<and> list_all ip_char ds"
  using net_number_rest [of hex_val 16 0 s m r]
  by (fastforce simp: xtoi_def ip_char_def list_all_iff split: if_splits)

lemma ipv4_octets_rest:
  "ipv4_octets k first s = Some (ns, r) \<Longrightarrow> \<exists>ds. s = ds @ r \<and> list_all ip_char ds"
proof (induction k first s arbitrary: ns rule: ipv4_octets.induct)
  case (2 k first s)
  from 2(2) obtain n t ms where o: "dtoi (if first then s else tl s) = Some (n, t)"
    "ipv4_octets k False t = Some (ms, r)" "first \<or> s \<noteq> [] \<and> hd s = CHR ''.''" "\<not> 255 < n"
    by (auto split: if_splits option.splits)
  have "\<exists>ds. t = ds @ r \<and> list_all ip_char ds"
    by (rule 2(1)) (use o in auto)
  then obtain ds where ds: "t = ds @ r" "list_all ip_char ds" by blast
  obtain es where es: "(if first then s else tl s) = es @ t" "list_all ip_char es"
    using dtoi_rest [OF o(1)] by blast
  show ?case
  proof (cases first)
    case True
    then show ?thesis using ds es by (intro exI [of _ "es @ ds"]) simp
  next
    case False
    then have "s = CHR ''.'' # es @ ds @ r" using o(3) ds es by (cases s) auto
    then show ?thesis using ds es by (intro exI [of _ "CHR ''.'' # es @ ds"]) simp
  qed
qed simp

lemma ipv4_octets_length: "ipv4_octets k first s = Some (ns, r) \<Longrightarrow> length ns = k"
  by (induction k first s arbitrary: ns rule: ipv4_octets.induct) (auto split: if_splits option.splits)

lemma parse_ipv4_chars: "parse_ipv4 s = Some b \<Longrightarrow> list_all ip_char s"
  using ipv4_octets_rest [of 4 True s _ "[]"]
  by (fastforce simp: parse_ipv4_def split: option.splits prod.splits list.splits)

lemma ipv6_groups_chars: "ipv6_groups k e ip s = Some q \<Longrightarrow> list_all ip_char s"
proof (induction k e ip s rule: ipv6_groups.induct)
  case (2 k e ip s)
  from 2(3) obtain n r where x: "xtoi s = Some (n, r)" "\<not> 65535 < n" by (auto split: option.splits if_splits)
  obtain ds where ds: "s = ds @ r" "list_all ip_char ds" using xtoi_rest [OF x(1)] by blast
  show ?case
  proof (cases "r \<noteq> [] \<and> hd r = CHR ''.''")
    case True
    then show ?thesis using 2(3) x by (auto dest: parse_ipv4_chars split: if_splits)
  next
    case dot: False
    show ?thesis
    proof (cases "r = []")
      case True
      then show ?thesis using ds by simp
    next
      case False
      then obtain t where r: "r = CHR '':'' # t" "t \<noteq> []"
        using 2(3) x dot by (cases r) (auto simp: Let_def split: if_splits)
      have "list_all ip_char t"
      proof (cases "hd t = CHR '':''")
        case True
        then obtain u where u: "t = CHR '':'' # u" using r(2) by (cases t) auto
        have "list_all ip_char u"
          using 2(2) [OF x(1) refl x(2) dot refl] 2(3) x dot r u
          by (cases u) (auto simp: Let_def split: if_splits)
        then show ?thesis by (simp add: u)
      next
        case False
        then show ?thesis
          using 2(1) [OF x(1) refl x(2) dot refl] 2(3) x dot r by (auto simp: Let_def)
      qed
      then show ?thesis using ds r by simp
    qed
  qed
qed (simp split: if_splits)

lemma parse_ipv6_chars: "parse_ipv6 s = Some b \<Longrightarrow> list_all ip_char s"
  using ipv6_groups_chars [of 8 "Some 0" "[]" "drop 2 s"] ipv6_groups_chars [of 8 None "[]" s]
  by (auto simp: parse_ipv6_def prefix_def split: if_splits option.splits)

lemma parse_ip_chars: "parse_ip s \<noteq> None \<Longrightarrow> list_all ip_char s"
  by (auto simp: parse_ip_def split: list.splits if_splits dest: parse_ipv4_chars parse_ipv6_chars)

text \<open>So an address has no bracket.\<close>

lemma parse_ip_no_bracket: "parse_ip s \<noteq> None \<Longrightarrow> CHR ''['' \<notin> set s \<and> CHR '']'' \<notin> set s"
  using parse_ip_chars [of s] by (auto simp: list_all_iff ip_char_def hex_val_def Let_def)

text \<open>The dotted form of four bytes parses.\<close>

lemma net_number_digits:
  assumes "digits_val n ds = Some m" "m < 16777215" "r = [] \<or> digit_val (hd r) = None"
  shows "net_number digit_val 10 n (ds @ r) = Some (m, r)"
  using assms
proof (induction ds arbitrary: n)
  case Nil
  then show ?case by (cases r) auto
next
  case (Cons c cs)
  then obtain d where d: "digit_val c = Some d" "digits_val (n * 10 + d) cs = Some m"
    by (auto split: option.splits)
  have "n * 10 + d \<le> m" using d(2)
  proof (induction cs arbitrary: n d)
    case (Cons a as)
    then obtain e where "digits_val ((n * 10 + d) * 10 + e) as = Some m" by (auto split: option.splits)
    from Cons.IH [OF this] show ?case by simp
  qed simp
  then show ?case using Cons d by simp
qed

lemma dtoi_digits:
  assumes "n < 16777215" "r = [] \<or> digit_val (hd r) = None"
  shows "dtoi (nat_digits n @ r) = Some (n, r)"
proof -
  obtain d where "digit_val (hd (nat_digits n)) = Some d" "nat_digits n \<noteq> []"
    using nat_digits_hd [of n] by fastforce
  then show ?thesis
    using net_number_digits [of 0 "nat_digits n" n r] assms digits_val_nat_digits [of n]
    by (simp add: dtoi_def)
qed

lemma nat_digits_digits: "c \<in> set (nat_digits n) \<Longrightarrow> digit_val c \<noteq> None"
proof (induction n rule: nat_digits.induct)
  case (1 n)
  then show ?case by (cases "n < 10") (auto simp: nat_digits.simps [of n])
qed

lemma nat_digits_plain:
  "CHR '':'' \<notin> set (nat_digits n)" "CHR ''.'' \<notin> set (nat_digits n)"
  "CHR ''['' \<notin> set (nat_digits n)" "CHR '']'' \<notin> set (nat_digits n)"
proof -
  have "digit_val CHR '':'' = None" "digit_val CHR ''.'' = None" "digit_val CHR ''['' = None"
    "digit_val CHR '']'' = None"
    by (simp_all add: digit_val_def)
  then show "CHR '':'' \<notin> set (nat_digits n)" "CHR ''.'' \<notin> set (nat_digits n)"
    "CHR ''['' \<notin> set (nat_digits n)" "CHR '']'' \<notin> set (nat_digits n)"
    using nat_digits_digits by metis+
qed

definition dotted :: "nat list \<Rightarrow> string" where
  "dotted ns = go_join ''.'' (map nat_digits ns)"

lemma ipv4_octets_dotted:
  "list_all (\<lambda>n. n < 256) (n # ns) \<Longrightarrow>
   ipv4_octets (Suc (length ns)) True (dotted (n # ns)) = Some (n # ns, [])"
proof -
  have octets: "ipv4_octets (length ns) False (concat (map (\<lambda>n. CHR ''.'' # nat_digits n) ns)) = Some (ns, [])"
    if "list_all (\<lambda>n. n < 256) ns" for ns
    using that
  proof (induction ns)
    case (Cons m ms)
    have "dtoi (nat_digits m @ concat (map (\<lambda>n. CHR ''.'' # nat_digits n) ms)) =
        Some (m, concat (map (\<lambda>n. CHR ''.'' # nat_digits n) ms))"
      using Cons.prems by (intro dtoi_digits) (cases ms; simp add: digit_val_def)+
    then show ?case using Cons by simp
  qed simp
  assume *: "list_all (\<lambda>n. n < 256) (n # ns)"
  have d: "dotted (n # ns) = nat_digits n @ concat (map (\<lambda>n. CHR ''.'' # nat_digits n) ns)"
    unfolding dotted_def by (induction ns arbitrary: n) (simp_all add: go_join_Cons)
  have "dtoi (dotted (n # ns)) = Some (n, concat (map (\<lambda>n. CHR ''.'' # nat_digits n) ns))"
    unfolding d using * by (intro dtoi_digits) (cases ns; simp add: digit_val_def)+
  then show ?thesis using * octets [of ns] by simp
qed

lemma parse_ip_dotted:
  assumes "list_all (\<lambda>n. n < 256) [a, b, c, d]"
  shows "parse_ip (dotted [a, b, c, d]) = Some (replicate 10 0 @ [255, 255, a, b, c, d])"
proof -
  let ?p = "\<lambda>c. c \<noteq> CHR ''.'' \<and> c \<noteq> CHR '':''"
  have "dropWhile ?p (nat_digits a @ CHR ''.'' # t) = CHR ''.'' # t" for t
    using nat_digits_plain(1,2) [of a] by (subst dropWhile_append2) auto
  then have "parse_ip (dotted [a, b, c, d]) = parse_ipv4 (dotted [a, b, c, d])"
    by (simp add: parse_ip_def dotted_def)
  then show ?thesis
    using ipv4_octets_dotted [of a "[b, c, d]"] assms by (simp add: parse_ipv4_def numeral_eq_Suc)
qed

text \<open>An address with fewer than two colons has none: it is in the dotted form.\<close>

lemma count_char_append: "count_char c (a @ b) = count_char c a + count_char c b"
  by (simp add: count_char_def)

lemma count_char_Cons: "count_char c (d # ds) = (if d = c then 1 else 0) + count_char c ds"
  by (simp add: count_char_def)

lemma ipv6_groups_colons:
  "ipv6_groups k e ip s = Some (e', ip') \<Longrightarrow>
   length ip' \<le> length ip + 2 * count_char CHR '':'' s + 4 \<and>
   (e = None \<and> e' \<noteq> None \<longrightarrow> 2 \<le> count_char CHR '':'' s)"
proof (induction k e ip s rule: ipv6_groups.induct)
  case (2 k e ip s)
  from 2(3) obtain n r where x: "xtoi s = Some (n, r)" "\<not> 65535 < n" by (auto split: option.splits if_splits)
  obtain ds where ds: "s = ds @ r" using xtoi_rest [OF x(1)] by blast
  show ?case
  proof (cases "r \<noteq> [] \<and> hd r = CHR ''.''")
    case True
    then obtain ip4 where ip4: "parse_ipv4 s = Some ip4" "e' = e" "ip' = ip @ drop 12 ip4"
      using 2(3) x by (auto split: if_splits)
    have "length ip4 = 16" using ip4(1) ipv4_octets_length [of 4 True s]
      by (auto simp: parse_ipv4_def split: option.splits prod.splits list.splits)
    then show ?thesis using ip4 by auto
  next
    case dot: False
    show ?thesis
    proof (cases "r = []")
      case True
      then show ?thesis using 2(3) x by (auto simp: Let_def)
    next
      case False
      then obtain t where r: "r = CHR '':'' # t" "t \<noteq> []"
        using 2(3) x dot by (cases r) (auto simp: Let_def split: if_splits)
      have c: "count_char CHR '':'' s = count_char CHR '':'' ds + 1 + count_char CHR '':'' t"
        by (simp add: ds r count_char_append count_char_Cons)
      show ?thesis
      proof (cases "hd t = CHR '':''")
        case True
        then obtain u where u: "t = CHR '':'' # u" using r(2) by (cases t) auto
        then have c: "2 + count_char CHR '':'' u \<le> count_char CHR '':'' s"
          by (simp add: c count_char_Cons)
        show ?thesis
        proof (cases "u = []")
          case True
          then show ?thesis using 2(3) x dot r u c by (auto simp: Let_def split: if_splits)
        next
          case False
          then have "e = None" "ipv6_groups k (Some (length (ip @ [n div 256, n mod 256])))
              (ip @ [n div 256, n mod 256]) u = Some (e', ip')"
            using 2(3) x dot r u by (simp_all add: Let_def split: if_splits)
          then show ?thesis
            using 2(2) [OF x(1) refl x(2) dot refl] False r u c by simp
        qed
      next
        case False
        then show ?thesis
          using 2(1) [OF x(1) refl x(2) dot refl] 2(3) x dot r c by (auto simp: Let_def)
      qed
    qed
  qed
qed (auto split: if_splits)

lemma dotted_no_colon: "dtoi s = Some (m, r) \<Longrightarrow> \<exists>ds. s = ds @ r \<and> CHR '':'' \<notin> set ds"
proof -
  assume "dtoi s = Some (m, r)"
  then obtain ds where "s = ds @ r" "list_all (\<lambda>c. digit_val c \<noteq> None) ds"
    using net_number_rest [of digit_val 10 0 s m r] by (auto simp: dtoi_def split: if_splits)
  moreover have "digit_val CHR '':'' = None" by (simp add: digit_val_def)
  ultimately show ?thesis by (intro exI [of _ ds]) (auto simp: list_all_iff)
qed

lemma ipv4_octets_no_colon:
  "ipv4_octets k first s = Some (ns, []) \<Longrightarrow> 0 < k \<Longrightarrow> CHR '':'' \<notin> set s"
proof (induction k first s arbitrary: ns rule: ipv4_octets.induct)
  case (2 k first s)
  from 2(2) obtain n t ms where o: "dtoi (if first then s else tl s) = Some (n, t)"
    "ipv4_octets k False t = Some (ms, [])" "first \<or> s \<noteq> [] \<and> hd s = CHR ''.''" "\<not> 255 < n"
    by (auto split: if_splits option.splits)
  obtain ds where ds: "(if first then s else tl s) = ds @ t" "CHR '':'' \<notin> set ds"
    using dotted_no_colon [OF o(1)] by blast
  have "CHR '':'' \<notin> set t"
  proof (cases k)
    case (Suc j)
    then show ?thesis using 2(1) [OF _ o(1) refl] o by auto
  qed (use o(2) in simp)
  then have "CHR '':'' \<notin> set (if first then s else tl s)" using ds by simp
  then show ?case using o(3) by (cases s) (auto split: if_splits)
qed simp

lemma parse_ip_few_colons:
  assumes "parse_ip s \<noteq> None" "count_char CHR '':'' s < 2"
  shows "CHR '':'' \<notin> set s"
proof -
  have "parse_ipv6 s = None"
  proof (rule ccontr)
    assume "parse_ipv6 s \<noteq> None"
    moreover have "\<not> prefix ''::'' s"
      using assms(2) by (auto simp: prefix_def count_char_Cons)
    ultimately obtain e ip where "ipv6_groups 8 None [] s = Some (e, ip)" "expand_ellipsis (e, ip) \<noteq> None"
      by (auto simp: parse_ipv6_def split: if_splits option.splits)
    then show False
      using ipv6_groups_colons [of 8 None "[]" s e ip] assms(2)
      by (auto simp: expand_ellipsis_def split: if_splits)
  qed
  then have "parse_ipv4 s \<noteq> None"
    using assms(1) by (auto simp: parse_ip_def split: list.splits if_splits)
  then show ?thesis
    using ipv4_octets_no_colon [of 4 True s]
    by (auto simp: parse_ipv4_def split: option.splits prod.splits list.splits)
qed

subsection \<open>What splits\<close>

text \<open>A host that needs no bracket.\<close>

definition plain_host :: "string \<Rightarrow> bool" where
  "plain_host h \<longleftrightarrow> CHR '':'' \<notin> set h \<and> CHR ''['' \<notin> set h \<and> CHR '']'' \<notin> set h"

lemma cut_last_append: "c \<notin> set b \<Longrightarrow> cut_last c (a @ c # b) = Some (a, b)"
proof (induction a)
  case Nil
  have "cut_last c b = None" using Nil by (induction b) auto
  then show ?case by simp
qed simp

lemma cut_at_bracket: "CHR '']'' \<notin> set a \<Longrightarrow> cut_at '']'' (a @ CHR '']'' # b) = Some (a, b)"
  by (induction a) auto

lemma split_plain:
  assumes "CHR '':'' \<notin> set h" "CHR ''['' \<notin> set (h @ p)" "CHR '']'' \<notin> set (h @ p)" "CHR '':'' \<notin> set p"
  shows "split_host_port (h @ CHR '':'' # p) = Inr (h, p)"
proof -
  have "hd (h @ CHR '':'' # p) \<noteq> CHR ''[''" using assms by (cases h) auto
  moreover have "CHR ''['' \<notin> set (h @ CHR '':'' # p)" "CHR '']'' \<notin> set (h @ CHR '':'' # p)"
    using assms by simp_all
  ultimately show ?thesis
    using assms(1) by (simp only: split_host_port_def cut_last_append [OF assms(4)] option.case prod.case if_False)
qed

lemma split_bracketed:
  assumes "CHR ''['' \<notin> set h" "CHR '']'' \<notin> set h"
    and "CHR '':'' \<notin> set p" "CHR ''['' \<notin> set p" "CHR '']'' \<notin> set p"
  shows "split_host_port (''['' @ h @ '']:'' @ p) = Inr (h, p)"
proof -
  have "cut_last CHR '':'' (''['' @ h @ '']:'' @ p) = Some (''['' @ h @ '']'', p)"
    using cut_last_append [OF assms(3), of "''['' @ h @ '']''"] by (simp del: cut_last.simps)
  moreover have "cut_at '']'' (''['' @ h @ '']:'' @ p) = Some (''['' @ h, CHR '':'' # p)"
    using cut_at_bracket [of "''['' @ h" "CHR '':'' # p"] assms by simp
  moreover have "hd (''['' @ h @ '']:'' @ p) = CHR ''[''" by simp
  moreover have "CHR ''['' \<notin> set (tl (''['' @ h @ '']:'' @ p))" "CHR '']'' \<notin> set (CHR '':'' # p)"
    using assms by simp_all
  ultimately show ?thesis
    by (simp only: split_host_port_def option.case prod.case if_True if_False append_assoc list.distinct
        simp_thms append_Cons append_Nil list.sel)
qed

lemma split_too_many_colons:
  assumes "CHR '':'' \<in> set h" "CHR ''['' \<notin> set h" "CHR '':'' \<notin> set p"
  shows "split_host_port (h @ CHR '':'' # p) =
    Inl (addr_error (h @ CHR '':'' # p) ''too many colons in address'')"
proof -
  have "hd (h @ CHR '':'' # p) \<noteq> CHR ''[''" using assms by (cases h) auto
  then show ?thesis
    using assms(1) by (simp only: split_host_port_def cut_last_append [OF assms(3)] option.case prod.case if_False if_True)
qed

lemma go_itoa_plain:
  "CHR '':'' \<notin> set (go_itoa i)" "CHR ''['' \<notin> set (go_itoa i)" "CHR '']'' \<notin> set (go_itoa i)"
  using nat_digits_plain by (simp_all add: go_itoa_def)

text \<open>So the lookup gets the address and the port.\<close>

lemma resolve_plain:
  "plain_host h \<Longrightarrow> resolve_udp_addr lookup (h @ '':'' @ go_itoa i) = lookup h (go_itoa i)"
  using split_plain [of h "go_itoa i"] go_itoa_plain by (simp add: resolve_udp_addr_def plain_host_def)

lemma resolve_bracketed:
  "parse_ip h \<noteq> None \<Longrightarrow>
   resolve_udp_addr lookup (''['' @ h @ '']:'' @ go_itoa i) = lookup h (go_itoa i)"
  using split_bracketed [of h "go_itoa i"] parse_ip_no_bracket [of h] go_itoa_plain
  by (simp add: resolve_udp_addr_def)

end
