(* ===== verification/Util.thy ===== *)
theory Util
  imports GoStrings GoMaps GoNet
begin

section \<open>Package util: data types and helpers (\<open>pkg/util/util.go\<close>)\<close>

text \<open>
  The structs shared by the controller, the traffic generator and the responder, the
  message constructor and payload, the time conversions with their 64-bit wrap-around, the
  address helpers, the interface scan, and the metric objects of the Prometheus client.
  Libraries that are not in the repository are arguments: the MessagePack functions
  (\<open>codec\<close>) and the metric registry (\<open>prom\<close>).
\<close>

subsection \<open>Structs\<close>

record source =
  src_type :: string
  src_namespace :: string
  src_name :: string
  src_net :: string
  src_interface :: string
  src_ip :: string

record remote =
  rem_is_dn :: bool
  rem_name :: string
  rem_ip :: string

record message =
  sequence_number :: int64
  send_time_stamp :: int64
  respond_time_stamp :: int64
  server_info_length :: int64
  msg_len :: int64

record pod_info =
  pod_namespace :: string
  pod_name :: string
  worker_name :: string

record server_id =
  srv_pod_info :: pod_info
  srv_ip_address :: string
  srv_port :: int64

text \<open>
  A pair of the controller's list.  \<open>ClientConnection\<close> is a reference: the number under
  which the controller's table holds the client object, or nil.  \<open>PendingRequestsMap\<close> is
  only looked up, set and deleted from, never iterated over.
\<close>

record bat_pair =
  bp_source :: source
  bp_destination :: remote
  bp_traffic_profile :: string
  bp_traffic_scenario :: string
  bp_pending :: "int64 \<rightharpoonup> int64"
  bp_client_connection :: "nat option"

definition new_message :: "int64 \<Rightarrow> int64 \<Rightarrow> int64 \<Rightarrow> message" where
  "new_message seq ts sz =
     \<lparr>sequence_number = seq, send_time_stamp = ts, respond_time_stamp = 0,
      server_info_length = 0, msg_len = sz\<rparr>"

definition get_padding_payload :: "int64 \<Rightarrow> byte list go" where
  "get_padding_payload sz =
     (if sint sz < 0 then Inl MakeSliceRange
      else Inr (map (\<lambda>_. 0xff) (replicate (nat (sint sz)) (0 :: byte))))"

lemma get_padding_payload_replicate:
  "0 \<le> sint sz \<Longrightarrow> get_padding_payload sz = Inr (replicate (nat (sint sz)) 0xff)"
  by (simp add: get_padding_payload_def)

subsection \<open>MessagePack\<close>

text \<open>
  \<open>msgpack.Marshal\<close> and \<open>msgpack.Unmarshal\<close> on the two structs that cross the wire.
  Unmarshalling writes into a zeroed variable, which may hold some fields even when it
  returns an error, so it gives the variable and the error.
\<close>

record codec =
  marshal_msg :: "message \<Rightarrow> byte list result"
  unmarshal_msg :: "byte list \<Rightarrow> message \<times> go_error option"
  marshal_pod :: "pod_info \<Rightarrow> byte list result"
  unmarshal_pod :: "byte list \<Rightarrow> pod_info \<times> go_error option"

definition get_message_header_length :: "codec \<Rightarrow> int64 result" where
  "get_message_header_length cd =
     (let msg = \<lparr>sequence_number = 0, send_time_stamp = 0, respond_time_stamp = 0,
                 server_info_length = 0, msg_len = 0\<rparr>
      in bindS (marshal_msg cd msg) (\<lambda>bs. Inr (word_of_nat (length bs))))"

text \<open>
  What the program relies on of the codec: a message or a pod description that was
  marshalled unmarshals to itself, and every message marshals to the same number of bytes
  \<open>n\<close> as the zero message.
\<close>

definition codec_roundtrip :: "codec \<Rightarrow> bool" where
  "codec_roundtrip cd \<longleftrightarrow>
     (\<forall>m bs. marshal_msg cd m = Inr bs \<longrightarrow> unmarshal_msg cd bs = (m, None)) \<and>
     (\<forall>p bs. marshal_pod cd p = Inr bs \<longrightarrow> unmarshal_pod cd bs = (p, None))"

definition codec_fixed_length :: "codec \<Rightarrow> nat \<Rightarrow> bool" where
  "codec_fixed_length cd n \<longleftrightarrow> (\<forall>m. \<exists>bs. marshal_msg cd m = Inr bs \<and> length bs = n)"

lemma codec_fixed_lengthD:
  "codec_fixed_length cd n \<Longrightarrow> marshal_msg cd m = Inr bs \<Longrightarrow> length bs = n"
  unfolding codec_fixed_length_def by (metis sum.inject(2))

lemma codec_fixed_lengthE:
  assumes "codec_fixed_length cd n"
  obtains bs where "marshal_msg cd m = Inr bs" "length bs = n"
  using assms unfolding codec_fixed_length_def by blast

lemma header_length_fixed:
  assumes "codec_fixed_length cd n"
  shows "get_message_header_length cd = Inr (word_of_nat n)"
proof -
  let ?m = "\<lparr>sequence_number = 0, send_time_stamp = 0, respond_time_stamp = 0,
              server_info_length = 0, msg_len = 0\<rparr>"
  obtain bs where "marshal_msg cd ?m = Inr bs" "length bs = n"
    by (rule codec_fixed_lengthE [OF assms])
  then show ?thesis by (simp add: get_message_header_length_def)
qed

subsection \<open>Time\<close>

text \<open>\<open>GetTimestampMicroSec\<close> on a reading of the clock in nanoseconds.\<close>

definition get_timestamp_micro_sec :: "int64 \<Rightarrow> int64" where
  "get_timestamp_micro_sec unix_nano = word_of_int (sint unix_nano sdiv 1000)"

definition sec_to_micro_sec :: "int64 \<Rightarrow> int64" where
  "sec_to_micro_sec sec = word_of_int (sint (sec * 1000000000) sdiv 1000)"

definition micro_sec_to_duration :: "int64 \<Rightarrow> int64" where
  "micro_sec_to_duration msec = msec * 1000"

lemma sint_1e9: "sint (1000000000 :: int64) = 1000000000"
  by simp

lemma sec_to_micro_sec_exact:
  assumes "\<bar>sint sec\<bar> \<le> 9223372036"
  shows "sint (sec_to_micro_sec sec) = sint sec * 1000000"
proof -
  have bnd: "- 9223372036 \<le> sint sec" "sint sec \<le> 9223372036"
    using assms by (simp_all add: abs_le_iff)
  have m: "sint (sec * 1000000000) = sint sec * 1000000000"
    using bnd by (subst sint64_mult) (simp_all add: minInt64_def maxInt64_def)
  have "(sint sec * 1000000000) sdiv 1000 = sint sec * 1000000"
    by (simp add: signed_divide_int_def sgn_if zero_less_mult_iff abs_mult)
  then have "sec_to_micro_sec sec = word_of_int (sint sec * 1000000)"
    by (simp only: sec_to_micro_sec_def m)
  then show ?thesis
    using bnd by (simp only:) (subst sint64_of_int, simp_all add: minInt64_def maxInt64_def)
qed

text \<open>
  C38: Seconds become microseconds exactly when they are within 9223372036 in magnitude (292
  years); beyond that the intermediate nanoseconds wrap and the result is wrong for every
  argument, so a timeout configured larger takes effect with another value.
\<close>
theorem sec_to_micro_sec_exact_iff:
  "sint (sec_to_micro_sec sec) = sint sec * 1000000 \<longleftrightarrow> \<bar>sint sec\<bar> \<le> 9223372036"
proof
  assume e: "sint (sec_to_micro_sec sec) = sint sec * 1000000"
  let ?x = "sint (sec * 1000000000)"
  have x: "\<bar>?x\<bar> \<le> 9223372036854775808" using sint64_ge [of "sec * 1000000000"] sint64_le [of "sec * 1000000000"] by linarith
  have "\<bar>?x sdiv 1000\<bar> = \<bar>?x\<bar> div 1000" by (simp add: signed_divide_int_def abs_mult sgn_if)
  then have "\<bar>?x sdiv 1000\<bar> \<le> 9223372036854775" using x by linarith
  then have "sint (sec_to_micro_sec sec) = ?x sdiv 1000" and b: "\<bar>?x sdiv 1000\<bar> \<le> 9223372036854775"
    unfolding sec_to_micro_sec_def by (auto intro!: sint64_of_int simp: minInt64_def maxInt64_def)
  then have "\<bar>sint sec * 1000000\<bar> \<le> 9223372036854775" using e by simp
  then show "\<bar>sint sec\<bar> \<le> 9223372036" by (simp add: abs_mult)
next
  assume "\<bar>sint sec\<bar> \<le> 9223372036"
  then show "sint (sec_to_micro_sec sec) = sint sec * 1000000" by (rule sec_to_micro_sec_exact)
qed

subsection \<open>The metrics endpoint\<close>

text \<open>
  \<open>RegisterPromHandler\<close>, on the patterns the default HTTP multiplexer knows: registering one
  twice panics.  \<open>ListenAndServe\<close> (\<open>listen\<close>) serves the address until it fails; the error is
  logged.
\<close>

definition register_prom_handler ::
  "(string \<Rightarrow> go_error) \<Rightarrow> int64 \<Rightarrow> string list \<Rightarrow> (string list \<times> go_error) go" where
  "register_prom_handler listen port mux =
     (if ''/metrics'' \<in> set mux then Inl (LibPanic ''http: multiple registrations for /metrics'')
      else Inr (''/metrics'' # mux, listen ('':'' @ go_itoa port)))"

subsection \<open>Addresses\<close>

definition is_ipv6 :: "string \<Rightarrow> bool" where
  "is_ipv6 ip \<longleftrightarrow> parse_ip ip \<noteq> None \<and> 2 \<le> count_char (CHR '':'') ip"

definition is_ipv4 :: "string \<Rightarrow> bool" where
  "is_ipv4 ip \<longleftrightarrow> parse_ip ip \<noteq> None \<and> count_char (CHR '':'') ip < 2"

definition get_resolvable_address :: "string \<Rightarrow> string result" where
  "get_resolvable_address ip =
     (if ip = [] then Inl (GoError ''ip address can't be empty'')
      else if is_ipv6 ip then Inr (''['' @ ip @ '']:0'')
      else Inr (ip @ '':0''))"

lemma ip_version_exclusive: "\<not> (is_ipv4 ip \<and> is_ipv6 ip)"
  by (simp add: is_ipv4_def is_ipv6_def)

lemma ip_version_total: "parse_ip ip \<noteq> None \<longleftrightarrow> is_ipv4 ip \<or> is_ipv6 ip"
  by (auto simp: is_ipv4_def is_ipv6_def)

lemma ipv4_plain_host: "is_ipv4 ip \<Longrightarrow> plain_host ip"
  using parse_ip_few_colons parse_ip_no_bracket by (auto simp: is_ipv4_def plain_host_def)

lemma resolvable_address_resolves:
  assumes "get_resolvable_address ip = Inr a" "is_ipv6 ip \<or> plain_host ip"
  shows "resolve_udp_addr lookup a = lookup ip ''0''"
proof -
  have "go_itoa 0 = ''0''" by code_simp
  then show ?thesis
    using assms resolve_plain [of ip lookup 0] resolve_bracketed [of ip lookup 0]
    by (auto simp: get_resolvable_address_def is_ipv6_def split: if_splits)
qed

subsection \<open>Network interfaces\<close>

text \<open>
  What \<open>net.Interfaces\<close> and \<open>Addrs\<close> return: per interface its name and either an error
  or its addresses, of which the code asserts the first to be an \<open>*net.IPNet\<close>.
\<close>

datatype iface_addr = IPNetAddr string bool \<comment> \<open>the address, whether it is a loopback\<close>
  | OtherAddr

record net_iface =
  nif_name :: string
  nif_addrs :: "iface_addr list result"

type_synonym if_map = "(string \<times> string) list"

definition net_iface_step :: "net_iface \<Rightarrow> if_map \<Rightarrow> if_map go" where
  "net_iface_step ni m =
     (case nif_addrs ni of
        Inl e \<Rightarrow> Inr m
      | Inr [] \<Rightarrow> Inr m
      | Inr (OtherAddr # _) \<Rightarrow> Inl TypeAssertion
      | Inr (IPNetAddr ip loopback # _) \<Rightarrow>
          if loopback then Inr m else Inr (AList.update (nif_name ni) ip m))"

definition get_net_interfaces :: "net_iface list result \<Rightarrow> if_map result go" where
  "get_net_interfaces ifaces =
     (case ifaces of
        Inl e \<Rightarrow> Inr (Inl e)
      | Inr [] \<Rightarrow> Inr (Inl (GoError ''no interfaces present''))
      | Inr nis \<Rightarrow> bindS (foldS net_iface_step nis []) (\<lambda>m. Inr (Inr m)))"

text \<open>The address the scan records for an interface, if any.\<close>

fun usable_addr :: "net_iface \<Rightarrow> string option" where
  "usable_addr ni =
     (case nif_addrs ni of Inr (IPNetAddr ip False # _) \<Rightarrow> Some ip | _ \<Rightarrow> None)"

lemma net_iface_step_map_of:
  "net_iface_step ni m = Inr m' \<Longrightarrow>
     map_of m' = (case usable_addr ni of None \<Rightarrow> map_of m | Some ip \<Rightarrow> (map_of m)(nif_name ni \<mapsto> ip))"
  by (auto simp: net_iface_step_def update_conv' split: sum.splits list.splits iface_addr.splits
      if_splits bool.splits)

lemma net_iface_step_distinct:
  "net_iface_step ni m = Inr m' \<Longrightarrow> distinct (map fst m) \<Longrightarrow> distinct (map fst m')"
  by (auto simp: net_iface_step_def distinct_update split: sum.splits list.splits
      iface_addr.splits if_splits)

lemma net_iface_fold:
  assumes "foldS net_iface_step nis m = Inr m'" and "distinct (map nif_name nis)"
    and "distinct (map fst m)"
  shows "distinct (map fst m') \<and>
     (\<forall>ni \<in> set nis. \<forall>ip. usable_addr ni = Some ip \<longrightarrow> map_of m' (nif_name ni) = Some ip) \<and>
     (\<forall>n. n \<notin> nif_name ` set nis \<longrightarrow> map_of m' n = map_of m n)"
  using assms
proof (induction nis arbitrary: m)
  case Nil
  then show ?case by simp
next
  case (Cons ni nis)
  from Cons.prems(1) obtain m1 where
    m1: "net_iface_step ni m = Inr m1" "foldS net_iface_step nis m1 = Inr m'"
    by (auto simp: go_bind)
  have IH: "distinct (map fst m')"
    "\<forall>x \<in> set nis. \<forall>ip. usable_addr x = Some ip \<longrightarrow> map_of m' (nif_name x) = Some ip"
    "\<forall>n. n \<notin> nif_name ` set nis \<longrightarrow> map_of m' n = map_of m1 n"
    using Cons.IH [OF m1(2)] Cons.prems(2,3) net_iface_step_distinct [OF m1(1)] by auto
  have "nif_name ni \<notin> nif_name ` set nis" using Cons.prems(2) by auto
  then show ?case
    using IH net_iface_step_map_of [OF m1(1)] by (auto split: option.splits)
qed

subsection \<open>Metric objects\<close>

text \<open>
  A Prometheus metric object as the code uses it: the options it was created with (the
  label map is read at creation) and what the code has fed it since: \<open>mt_total\<close> is the sum
  of the amounts passed to \<open>Inc\<close>, \<open>Dec\<close> and \<open>Add\<close> of this object, \<open>mt_observed\<close> the
  values passed to \<open>Observe\<close>.  The amounts are whole numbers in every call, so the
  \<open>float64\<close> values are integers here (exact up to \<open>2 ^ 53\<close>).  Objectives are in
  thousandths.
\<close>

datatype metric_kind = CounterKind | GaugeKind | SummaryKind

type_synonym labels = "(string \<times> string) list"

record metric =
  mt_kind :: metric_kind
  mt_namespace :: string
  mt_subsystem :: string
  mt_name :: string
  mt_help :: string
  mt_labels :: labels
  mt_objectives :: "(nat \<times> nat) list"
  mt_total :: int
  mt_observed :: "int list"

definition prom_namespace :: string where
  "prom_namespace = ''netbat''"

definition new_counter :: "string \<Rightarrow> string \<Rightarrow> string \<Rightarrow> string \<Rightarrow> labels \<Rightarrow> metric" where
  "new_counter ns sub n h ls =
     \<lparr>mt_kind = CounterKind, mt_namespace = ns, mt_subsystem = sub, mt_name = n, mt_help = h,
      mt_labels = ls, mt_objectives = [], mt_total = 0, mt_observed = []\<rparr>"

definition new_gauge :: "string \<Rightarrow> string \<Rightarrow> string \<Rightarrow> string \<Rightarrow> labels \<Rightarrow> metric" where
  "new_gauge ns sub n h ls =
     \<lparr>mt_kind = GaugeKind, mt_namespace = ns, mt_subsystem = sub, mt_name = n, mt_help = h,
      mt_labels = ls, mt_objectives = [], mt_total = 0, mt_observed = []\<rparr>"

definition new_summary ::
  "string \<Rightarrow> string \<Rightarrow> string \<Rightarrow> string \<Rightarrow> labels \<Rightarrow> (nat \<times> nat) list \<Rightarrow> metric" where
  "new_summary ns sub n h ls obj =
     \<lparr>mt_kind = SummaryKind, mt_namespace = ns, mt_subsystem = sub, mt_name = n, mt_help = h,
      mt_labels = ls, mt_objectives = obj, mt_total = 0, mt_observed = []\<rparr>"

lemma new_metric_total [simp]:
  "mt_total (new_counter ns sub n h ls) = 0"
  "mt_total (new_gauge ns sub n h ls) = 0"
  "mt_total (new_summary ns sub n h ls obj) = 0"
  by (simp_all add: new_counter_def new_gauge_def new_summary_def)

text \<open>
  The registry and the one check the library makes on amounts: \<open>MustRegister\<close> panics with
  a message or extends the registry, \<open>Unregister\<close> removes, and \<open>Counter.Add\<close> panics on
  the amounts \<open>prom_add_ok\<close> refuses.
\<close>

record 'r prom =
  prom_register :: "'r \<Rightarrow> metric \<Rightarrow> string + 'r"
  prom_unregister :: "'r \<Rightarrow> metric \<Rightarrow> 'r"
  prom_add_ok :: "int \<Rightarrow> bool"

text \<open>The documented behaviour of \<open>Counter.Add\<close>: a negative amount panics, no other does.\<close>

definition add_panics_on_negative :: "'r prom \<Rightarrow> bool" where
  "add_panics_on_negative pr \<longleftrightarrow> (\<forall>v. prom_add_ok pr v \<longleftrightarrow> 0 \<le> v)"

definition metric_inc :: "metric \<Rightarrow> metric" where
  "metric_inc m = m\<lparr>mt_total := mt_total m + 1\<rparr>"

definition metric_dec :: "metric \<Rightarrow> metric" where
  "metric_dec m = m\<lparr>mt_total := mt_total m - 1\<rparr>"

definition metric_add :: "'r prom \<Rightarrow> int \<Rightarrow> metric \<Rightarrow> metric go" where
  "metric_add pr v m =
     (if prom_add_ok pr v then Inr (m\<lparr>mt_total := mt_total m + v\<rparr>)
      else Inl (LibPanic ''counter cannot decrease in value''))"

definition metric_observe :: "int \<Rightarrow> metric \<Rightarrow> metric" where
  "metric_observe v m = m\<lparr>mt_observed := mt_observed m @ [v]\<rparr>"

lemma metric_total_simps [simp]:
  "mt_total (metric_inc m) = mt_total m + 1"
  "mt_total (metric_dec m) = mt_total m - 1"
  "mt_total (metric_observe v m) = mt_total m"
  by (simp_all add: metric_inc_def metric_dec_def metric_observe_def)

lemma metric_add_total: "metric_add pr v m = Inr m' \<Longrightarrow> mt_total m' = mt_total m + v"
  by (auto simp: metric_add_def split: if_splits)

text \<open>A label read from a map: the empty string when the key is absent.\<close>

definition label_get :: "labels \<Rightarrow> string \<Rightarrow> string" where
  "label_get ls k = (case map_of ls k of None \<Rightarrow> [] | Some v \<Rightarrow> v)"

lemma label_get_update:
  "label_get (AList.update k v ls) k' = (if k = k' then v else label_get ls k')"
  by (simp add: label_get_def update_conv')

end
