(* ===== verification/UtilConfig.thy ===== *)
theory UtilConfig
  imports Util
begin

section \<open>The profile configuration (\<open>pkg/util/config.go\<close>) and its loaders' contract\<close>

text \<open>
  The \<open>net-bat-profile\<close> config map as the controller parses and stores it, and the
  interface \<open>LoadBatProfileConfig\<close> through which the controller hands the parsed profile
  to every protocol server and client module.  A Go function that writes through a pointer
  and returns an error gives the new contents and the error, since the writes made before
  an error return remain.
\<close>

type_synonym profile = "string \<rightharpoonup> (string \<rightharpoonup> string)"

record config_map =
  cm_name :: string
  cm_data :: "string \<rightharpoonup> string"
  cm_resource_version :: string

record util_config =
  cfg_resource_version :: string
  cfg_suspend_traffic :: bool
  cfg_profile_map :: "profile option"

text \<open>The methods of the interface \<open>Config\<close>.\<close>

definition suspend_traffic :: "util_config \<Rightarrow> bool" where
  [simp]: "suspend_traffic c = cfg_suspend_traffic c"

definition get_profile_map :: "util_config \<Rightarrow> profile option" where
  [simp]: "get_profile_map c = cfg_profile_map c"

definition get_resource_version :: "util_config \<Rightarrow> string" where
  [simp]: "get_resource_version c = cfg_resource_version c"

text \<open>The pair a Go call returns when it fails with the value \<open>d\<close>.\<close>

definition or_default :: "'a \<Rightarrow> 'a result \<Rightarrow> 'a \<times> go_error option" where
  "or_default d r = (case r of Inl e \<Rightarrow> (d, Some e) | Inr x \<Rightarrow> (x, None))"

lemma or_default_simps [simp]:
  "or_default d (Inl e) = (d, Some e)" "or_default d (Inr x) = (x, None)"
  by (simp_all add: or_default_def)

definition wrap_error :: "string \<Rightarrow> go_error \<Rightarrow> go_error" where
  "wrap_error s e = (case e of GoError t \<Rightarrow> GoError (s @ t))"

definition load_suspend ::
  "profile \<Rightarrow> (bool \<Rightarrow> 'c \<Rightarrow> 'c) \<Rightarrow> 'c \<Rightarrow> 'c \<times> go_error option" where
  "load_suspend pm upd c =
     (case pm ''common'' of
        None \<Rightarrow> (c, None)
      | Some entry \<Rightarrow>
          (case entry ''suspend-traffic'' of
             None \<Rightarrow> (c, None)
           | Some val \<Rightarrow>
               (let (b, err) = or_default False (parse_bool val)
                in (upd b c, map_option (wrap_error ''parsing suspend-traffic failed: err '') err))))"

text \<open>\<open>ReLoadConfig\<close>; \<open>yaml\<close> is \<open>yaml.Unmarshal\<close> into a two-level string map.\<close>

definition reload_config ::
  "(string \<Rightarrow> profile result) \<Rightarrow> config_map \<Rightarrow> util_config \<Rightarrow> util_config \<times> go_error option" where
  "reload_config yaml cm rc =
     (case yaml (case cm_data cm ''net-bat-profiles.cfg'' of None \<Rightarrow> [] | Some s \<Rightarrow> s) of
        Inl _ \<Rightarrow> (rc, Some (GoError (''error parsing the config map data '' @ cm_name cm)))
      | Inr ym \<Rightarrow>
          (case load_suspend ym (\<lambda>b c. c\<lparr>cfg_suspend_traffic := b\<rparr>) rc of
             (rc1, Some e) \<Rightarrow> (rc1, Some e)
           | (rc1, None) \<Rightarrow>
               (rc1\<lparr>cfg_profile_map := Some ym, cfg_resource_version := cm_resource_version cm\<rparr>, None)))"

definition load_config ::
  "(string \<Rightarrow> profile result) \<Rightarrow> config_map \<Rightarrow> util_config result" where
  "load_config yaml cm =
     (case reload_config yaml cm
             \<lparr>cfg_resource_version = [], cfg_suspend_traffic = False, cfg_profile_map = None\<rparr> of
        (rc, None) \<Rightarrow> Inr rc
      | (_, Some e) \<Rightarrow> Inl e)"

lemma reload_config_ok:
  "reload_config yaml cm rc = (rc', None) \<Longrightarrow>
     \<exists>ym. cfg_profile_map rc' = Some ym \<and> cfg_resource_version rc' = cm_resource_version cm \<and>
       yaml (case cm_data cm ''net-bat-profiles.cfg'' of None \<Rightarrow> [] | Some s \<Rightarrow> s) = Inr ym"
  by (auto simp: reload_config_def split: sum.splits prod.splits option.splits)

lemma reload_config_error_frame:
  "reload_config yaml cm rc = (rc', Some e) \<Longrightarrow>
     cfg_profile_map rc' = cfg_profile_map rc \<and>
     cfg_resource_version rc' = cfg_resource_version rc \<and>
     (cfg_suspend_traffic rc' = cfg_suspend_traffic rc \<or> \<not> cfg_suspend_traffic rc')"
  by (auto simp: reload_config_def load_suspend_def or_default_def
      split: sum.splits prod.splits option.splits if_splits)

lemma load_config_version:
  "load_config yaml cm = Inr c \<Longrightarrow> cfg_resource_version c = cm_resource_version cm"
  by (auto simp: load_config_def dest: reload_config_ok split: prod.splits option.splits)

lemma load_config_profile:
  "load_config yaml cm = Inr c \<Longrightarrow> \<exists>ym. cfg_profile_map c = Some ym"
  by (auto simp: load_config_def dest: reload_config_ok split: prod.splits option.splits)

subsection \<open>Steps of a loader\<close>

text \<open>
  A loader is a sequence of steps, each writing one field and ending the sequence when it
  fails.  \<open>parse_int_value\<close> returns \<open>-1\<close> with its error, and the step writes that value
  before it checks the error.
\<close>

definition parse_int_value :: "string \<Rightarrow> int64 \<times> go_error option" where
  "parse_int_value v = or_default (-1) (go_atoi v)"

fun seq_steps :: "('c \<Rightarrow> 'c \<times> 'e option) list \<Rightarrow> 'c \<Rightarrow> 'c \<times> 'e option" where
  "seq_steps [] c = (c, None)"
| "seq_steps (f # fs) c =
     (case f c of (c', Some e) \<Rightarrow> (c', Some e) | (c', None) \<Rightarrow> seq_steps fs c')"

text \<open>Steps that move along a preorder.\<close>

lemma seq_steps_invariant:
  assumes "seq_steps fs c = (c', e)" and "\<And>f d d' e'. f \<in> set fs \<Longrightarrow> f d = (d', e') \<Longrightarrow> R d d'"
    and "\<And>c. R c c" and "\<And>c d f. R c d \<Longrightarrow> R d f \<Longrightarrow> R c f"
  shows "R c c'"
  using assms(1,2)
proof (induction fs arbitrary: c)
  case Nil
  then show ?case using assms(3) by simp
next
  case (Cons f fs)
  obtain d e1 where f: "f c = (d, e1)" by fastforce
  then have "R c d" using Cons.prems(2) [of f c d e1] by simp
  show ?case
  proof (cases e1)
    case None
    then have "seq_steps fs d = (c', e)" using Cons.prems(1) f by simp
    then have "R d c'" using Cons.IH Cons.prems(2) by (metis list.set_intros(2))
    then show ?thesis using \<open>R c d\<close> assms(4) by blast
  next
    case (Some x)
    then show ?thesis using Cons.prems(1) f \<open>R c d\<close> by simp
  qed
qed

definition load_int ::
  "(string \<rightharpoonup> string) \<Rightarrow> string \<Rightarrow> string \<Rightarrow> (int64 \<Rightarrow> 'c \<Rightarrow> 'c) \<Rightarrow> 'c \<Rightarrow> 'c \<times> go_error option" where
  "load_int entry key msg upd c =
     (case entry key of
        None \<Rightarrow> (c, None)
      | Some val \<Rightarrow>
          (let (n, err) = parse_int_value val
           in (upd n c, map_option (wrap_error msg) err)))"

definition load_int_default ::
  "(string \<rightharpoonup> string) \<Rightarrow> string \<Rightarrow> string \<Rightarrow> (int64 \<Rightarrow> 'c \<Rightarrow> 'c) \<Rightarrow> int64 \<Rightarrow> 'c \<Rightarrow> 'c \<times> go_error option" where
  "load_int_default entry key msg upd d c =
     (case entry key of
        None \<Rightarrow> (upd d c, None)
      | Some val \<Rightarrow>
          (let (n, err) = parse_int_value val
           in (upd n c, map_option (wrap_error msg) err)))"

lemma parse_int_value_ok: "parse_int_value v = (n, None) \<longleftrightarrow> go_atoi v = Inr n"
  by (auto simp: parse_int_value_def or_default_def split: sum.splits)

lemma parse_int_value_error: "parse_int_value v = (n, Some e) \<Longrightarrow> n = -1 \<and> go_atoi v = Inl e"
  by (auto simp: parse_int_value_def or_default_def split: sum.splits)

lemma parse_int_value_itoa [simp]: "parse_int_value (go_itoa n) = (n, None)"
  by (simp add: parse_int_value_ok go_atoi_itoa)

lemmas loader_defs = load_int_def load_int_default_def load_suspend_def

subsection \<open>The contract of \<open>LoadBatProfileConfig\<close>\<close>

text \<open>
  What the controller relies on of a protocol module's loader: a nil profile is refused and
  changes nothing, loading the same profile again changes nothing, and a profile that
  \<open>covers\<close> every setting of the module determines the outcome, whatever was there before.
\<close>

locale profile_loader =
  fixes load :: "profile option \<Rightarrow> 'c \<Rightarrow> 'c \<times> go_error option"
    and covers :: "profile \<Rightarrow> bool"
  assumes load_nil: "\<exists>e. load None c = (c, Some e)"
    and load_idem: "load (Some p) c = (c', None) \<Longrightarrow> load (Some p) c' = (c', None)"
    and load_covers: "covers p \<Longrightarrow> load (Some p) c = load (Some p) c'"
begin

text \<open>A history of loads, errors ignored, as the controller's log-and-return does.\<close>

definition after_history :: "profile option list \<Rightarrow> 'c \<Rightarrow> 'c" where
  "after_history ps c = fold (\<lambda>p c. fst (load p c)) ps c"

lemma last_covering_load_wins:
  assumes "covers p"
  shows "load (Some p) (after_history ps c) = load (Some p) c"
  using load_covers [OF assms] by blast

lemma nil_history: "set ps \<subseteq> {None} \<Longrightarrow> after_history ps c = c"
proof (induction ps arbitrary: c)
  case Nil
  then show ?case by (simp add: after_history_def)
next
  case (Cons p ps)
  have "p = None" and "set ps \<subseteq> {None}" using Cons.prems by auto
  moreover have "fst (load None c) = c" using load_nil [of c] by auto
  ultimately show ?case using Cons.IH [of c] by (simp add: after_history_def)
qed

lemma repeated_load:
  "load (Some p) c = (c', None) \<Longrightarrow> after_history (replicate n (Some p)) c' = c'"
  by (induction n) (simp_all add: after_history_def load_idem)

end

end
