(* ===== verification/Workers.thy ===== *)
theory Workers
  imports GoBase
begin

section \<open>Goroutine groups and their shutdown\<close>

text \<open>
  The client stream and the server both own a fixed set of goroutines that loop until a
  shared \<open>stop\<close> flag is set, and a \<open>sync.WaitGroup\<close> that counts the ones still running;
  their teardown sets the flag and waits for the count to reach zero.  This theory holds
  the wait group's operations and the contract, as a locale, under which such a teardown
  returns: whatever the schedule, a stopping group can only take finitely many more steps,
  and when none is left the wait group is at zero.
\<close>

subsection \<open>\<open>sync.WaitGroup\<close>\<close>

definition wg_add :: "int \<Rightarrow> int \<Rightarrow> int go" where
  "wg_add n w = (if w + n < 0 then Inl NegativeWaitGroup else Inr (w + n))"

definition wg_done :: "int \<Rightarrow> int go" where
  "wg_done w = wg_add (-1) w"

lemma wg_done_pos: "0 < w \<Longrightarrow> wg_done w = Inr (w - 1)"
  by (simp add: wg_done_def wg_add_def)

subsection \<open>The shutdown contract\<close>

text \<open>
  \<open>step\<close> is a move of any goroutine of the group, \<open>stopping\<close> the flag, \<open>finished\<close> the
  condition teardown waits for (or the end of the process by a panic), \<open>rank\<close> what bounds
  the moves left once the flag is set.
\<close>

locale worker_group =
  fixes step :: "'s \<Rightarrow> 's \<Rightarrow> bool"
    and inv :: "'s \<Rightarrow> bool"
    and stopping :: "'s \<Rightarrow> bool"
    and finished :: "'s \<Rightarrow> bool"
    and rank :: "'s \<Rightarrow> nat"
  assumes inv_step: "inv s \<Longrightarrow> step s t \<Longrightarrow> inv t"
    and stopping_step: "inv s \<Longrightarrow> stopping s \<Longrightarrow> step s t \<Longrightarrow> stopping t"
    and rank_step: "inv s \<Longrightarrow> stopping s \<Longrightarrow> step s t \<Longrightarrow> rank t < rank s"
    and stuck_finished: "inv s \<Longrightarrow> stopping s \<Longrightarrow> (\<And>t. \<not> step s t) \<Longrightarrow> finished s"
begin

lemma run_keeps: "(step ^^ n) s t \<Longrightarrow> inv s \<Longrightarrow> stopping s \<Longrightarrow> inv t \<and> stopping t"
proof (induction n arbitrary: t)
  case 0
  then show ?case by simp
next
  case (Suc n)
  then show ?case by (auto intro: inv_step stopping_step)
qed

text \<open>A stopping group takes at most \<open>rank\<close> more steps.\<close>

lemma run_bounded: "(step ^^ n) s t \<Longrightarrow> inv s \<Longrightarrow> stopping s \<Longrightarrow> n + rank t \<le> rank s"
proof (induction n arbitrary: t)
  case 0
  then show ?case by simp
next
  case (Suc n)
  then obtain u where u: "(step ^^ n) s u" "step u t" by auto
  then have "rank t < rank u"
    using run_keeps [OF u(1)] Suc.prems by (auto intro: rank_step)
  moreover have "n + rank u \<le> rank s" using u(1) Suc by blast
  ultimately show ?case by simp
qed

text \<open>Every run that cannot be continued has finished, and one exists.\<close>

lemma run_ends_finished:
  "(step ^^ n) s t \<Longrightarrow> inv s \<Longrightarrow> stopping s \<Longrightarrow> (\<And>u. \<not> step t u) \<Longrightarrow> finished t"
  using run_keeps stuck_finished by blast

lemma shutdown_possible:
  "inv s \<Longrightarrow> stopping s \<Longrightarrow> \<exists>n t. n \<le> rank s \<and> (step ^^ n) s t \<and> finished t"
proof (induction "rank s" arbitrary: s rule: less_induct)
  case less
  show ?case
  proof (cases "\<exists>t. step s t")
    case False
    then have "finished s" using less.prems stuck_finished by blast
    then show ?thesis by (intro exI [of _ 0] exI [of _ s]) simp
  next
    case True
    then obtain t where t: "step s t" by blast
    have "rank t < rank s" using t less.prems rank_step by blast
    moreover have "inv t" "stopping t" using t less.prems inv_step stopping_step by blast+
    ultimately obtain n u where u: "n \<le> rank t" "(step ^^ n) t u" "finished u"
      using less.hyps by blast
    have "(step ^^ Suc n) s u" using t u(2) by (metis relpowp_Suc_I2)
    then show ?thesis using u \<open>rank t < rank s\<close>
      by (intro exI [of _ "Suc n"] exI [of _ u]) simp
  qed
qed

end

end
