(* ===== verification/Tapp.thy ===== *)
theory Tapp
  imports UtilConfig Workers
begin

section \<open>The UDP responder (\<open>pkg/tapp/udp.go\<close>)\<close>

text \<open>
  The server that answers every test packet: its module configuration, construction and
  socket setup, the handling of one datagram in \<open>ReadFromSocket\<close> with the per-client
  sequence accounting, the eviction of idle clients, and teardown.  The two goroutines and
  the interleaving of their steps are in theory \<open>TappSystem\<close>.
\<close>

definition udp_protocol_str :: string where "udp_protocol_str = ''udp''"
definition udp_server_port :: int64 where "udp_server_port = 8890"

subsection \<open>Module configuration\<close>

record tapp_config =
  tapp_socket_read_buf_size :: int64

definition tapp_initial_config :: tapp_config where
  "tapp_initial_config = \<lparr>tapp_socket_read_buf_size = 0\<rparr>"

definition tapp_load_profile ::
  "profile option \<Rightarrow> tapp_config \<Rightarrow> tapp_config \<times> go_error option" where
  "tapp_load_profile pm c =
     (case pm of
        None \<Rightarrow> (c, Some (GoError ''error parsing the udp profile config map data''))
      | Some m \<Rightarrow>
          (case m udp_protocol_str of
             None \<Rightarrow> (c, None)
           | Some entry \<Rightarrow>
               seq_steps
                 [load_int_default entry ''socket-read-buf-size''
                    ''parsing udp-socket-read-buf-size failed: err ''
                    (\<lambda>n c. c\<lparr>tapp_socket_read_buf_size := n\<rparr>) (512 * 1024)] c))"

definition tapp_covers :: "profile \<Rightarrow> bool" where
  "tapp_covers p \<longleftrightarrow> udp_protocol_str \<in> dom p"

interpretation tapp_loader: profile_loader tapp_load_profile tapp_covers
proof unfold_locales
  fix c :: tapp_config
  show "\<exists>e. tapp_load_profile None c = (c, Some e)"
    by (simp add: tapp_load_profile_def)
next
  fix p and c c' :: tapp_config
  assume "tapp_load_profile (Some p) c = (c', None)"
  then show "tapp_load_profile (Some p) c' = (c', None)"
    by (auto simp: tapp_load_profile_def loader_defs Let_def split: option.splits prod.splits)
next
  fix p and c c' :: tapp_config
  assume "tapp_covers p"
  then show "tapp_load_profile (Some p) c = tapp_load_profile (Some p) c'"
    by (auto simp: tapp_load_profile_def tapp_covers_def loader_defs Let_def
        split: option.splits prod.splits)
qed

subsection \<open>The server object\<close>

record client_info =
  last_seen :: int64
  arrived_max_seq :: int64

text \<open>
  \<open>activeClientsMap\<close> is an association list with distinct keys; \<open>sv_connection\<close> is the
  address the socket listens on (\<open>None\<close> for a nil connection), \<open>sv_wait\<close> the wait group.
  The metric fields hold a placeholder until the setup creates them.
\<close>

record udp_server =
  sv_server :: server_id
  sv_read_buffer_size :: int64
  sv_pod_info_bytes :: "byte list"
  sv_connection :: "string option"
  sv_wait :: int
  sv_msg_header_length :: int64
  sv_stop :: bool
  sv_active_client_streams :: metric
  sv_packets_missing :: metric
  sv_packets_late :: metric
  sv_metrics :: "metric list"
  sv_active_clients :: "(string \<times> client_info) list"

definition nil_metric :: metric where
  "nil_metric = new_counter [] [] [] [] []"

text \<open>\<open>newUDPServer\<close>: both marshalling errors panic.\<close>

definition new_udp_server ::
  "codec \<Rightarrow> string \<Rightarrow> string \<Rightarrow> string \<Rightarrow> string \<Rightarrow> int64 \<Rightarrow> udp_server go" where
  "new_udp_server cd ns pod worker ip bufsize =
     bindS (wg_add 2 0) (\<lambda>w.
       (let info = \<lparr>pod_namespace = ns, pod_name = pod, worker_name = worker\<rparr> in
        case get_message_header_length cd of
          Inl (GoError e) \<Rightarrow> Inl (LibPanic e)
        | Inr hdr \<Rightarrow>
            (case marshal_pod cd info of
               Inl (GoError e) \<Rightarrow> Inl (LibPanic e)
             | Inr bs \<Rightarrow>
                 Inr \<lparr>sv_server = \<lparr>srv_pod_info = info, srv_ip_address = ip,
                                   srv_port = udp_server_port\<rparr>,
                      sv_read_buffer_size = bufsize, sv_pod_info_bytes = bs,
                      sv_connection = None, sv_wait = w, sv_msg_header_length = hdr,
                      sv_stop = False, sv_active_client_streams = nil_metric,
                      sv_packets_missing = nil_metric, sv_packets_late = nil_metric,
                      sv_metrics = [], sv_active_clients = []\<rparr>)))"

definition sv_register_metric ::
  "'r prom \<Rightarrow> metric \<Rightarrow> udp_server \<times> 'r \<Rightarrow> (udp_server \<times> 'r) go" where
  "sv_register_metric pr m sr =
     (case prom_register pr (snd sr) m of
        Inl msg \<Rightarrow> Inl (LibPanic msg)
      | Inr reg \<Rightarrow> Inr ((fst sr)\<lparr>sv_metrics := sv_metrics (fst sr) @ [m]\<rparr>, reg))"

text \<open>The socket calls of the setup: their results are the environment's.\<close>

record server_net =
  sn_lookup :: "string \<Rightarrow> string \<Rightarrow> string result" \<comment> \<open>of a host and a port\<close>
  sn_listen :: "string \<Rightarrow> string result"
  sn_set_read_buffer :: "int64 \<Rightarrow> go_error option"

definition sn_resolve :: "server_net \<Rightarrow> string \<Rightarrow> string result" where
  "sn_resolve net = resolve_udp_addr (sn_lookup net)"

definition server_address :: "server_id \<Rightarrow> string" where
  "server_address s =
     (if is_ipv6 (srv_ip_address s)
      then ''['' @ srv_ip_address s @ '']:'' @ go_itoa (srv_port s)
      else srv_ip_address s @ '':'' @ go_itoa (srv_port s))"

definition server_labels :: "server_id \<Rightarrow> labels" where
  "server_labels s =
     AList.update ''worker_name'' (worker_name (srv_pod_info s))
       (AList.update ''server_name'' (pod_name (srv_pod_info s))
         (AList.update ''server_namespace'' (pod_namespace (srv_pod_info s))
           (AList.update ''server_ip'' (srv_ip_address s) [])))"

definition setup_server_metrics ::
  "'r prom \<Rightarrow> labels \<Rightarrow> udp_server \<times> 'r \<Rightarrow> (udp_server \<times> 'r) go" where
  "setup_server_metrics pr ls sr =
     (let g = new_gauge prom_namespace udp_protocol_str ''active_client_streams''
                ''active client streams'' ls;
          m = new_counter prom_namespace udp_protocol_str ''srv_packets_missing''
                ''packets missing or arrive later'' ls;
          l = new_counter prom_namespace udp_protocol_str ''srv_packets_late''
                ''packets late'' ls
      in bindS (sv_register_metric pr g ((fst sr)\<lparr>sv_active_client_streams := g\<rparr>, snd sr)) (\<lambda>sr1.
         bindS (sv_register_metric pr m ((fst sr1)\<lparr>sv_packets_missing := m\<rparr>, snd sr1)) (\<lambda>sr2.
         sv_register_metric pr l ((fst sr2)\<lparr>sv_packets_late := l\<rparr>, snd sr2))))"

definition setup_server_connection ::
  "'r prom \<Rightarrow> server_net \<Rightarrow> tapp_config \<Rightarrow> udp_server \<times> 'r
    \<Rightarrow> ((udp_server \<times> 'r) \<times> go_error option) go" where
  "setup_server_connection pr net conf sr =
     (case sn_resolve net (server_address (sv_server (fst sr))) of
        Inl e \<Rightarrow> Inr (sr, Some e)
      | Inr laddr \<Rightarrow>
        (case sn_listen net laddr of
           Inl e \<Rightarrow> Inr (sr, Some e)
         | Inr conn \<Rightarrow>
           (case sn_set_read_buffer net (tapp_socket_read_buf_size conf) of
              Some e \<Rightarrow> Inr (sr, Some e)
            | None \<Rightarrow>
              bindS (setup_server_metrics pr (server_labels (sv_server (fst sr)))
                      ((fst sr)\<lparr>sv_connection := Some conn\<rparr>, snd sr))
                (\<lambda>sr'. Inr (((fst sr')\<lparr>sv_active_clients := []\<rparr>, snd sr'), None)))))"

text \<open>
  \<open>CreateServer\<close>: the server, or the setup's error; its two goroutines start with the
  state \<open>TappSystem.server_start\<close>.
\<close>

definition create_server ::
  "codec \<Rightarrow> 'r prom \<Rightarrow> server_net \<Rightarrow> tapp_config
    \<Rightarrow> string \<Rightarrow> string \<Rightarrow> string \<Rightarrow> string \<Rightarrow> int64 \<Rightarrow> 'r \<Rightarrow> (udp_server result \<times> 'r) go" where
  "create_server cd pr net conf ns pod node ip bufsize reg =
     bindS (new_udp_server cd ns pod node ip bufsize) (\<lambda>s.
     bindS (setup_server_connection pr net conf (s, reg)) (\<lambda>res.
       case res of
         ((s', reg'), None) \<Rightarrow> Inr (Inr s', reg')
       | ((s', reg'), Some e) \<Rightarrow> Inr (Inl e, reg')))"

subsection \<open>One datagram (\<open>ReadFromSocket\<close>)\<close>

text \<open>
  The critical section: a new client is counted and entered with a zeroed record, the
  client's time stamp is refreshed, and the sequence number either advances the client's
  maximum (the gap is counted as missing) or counts as late.
\<close>

definition touch_client :: "string \<Rightarrow> udp_server \<Rightarrow> udp_server" where
  "touch_client ip s =
     (if map_of (sv_active_clients s) ip = None
      then s\<lparr>sv_active_client_streams := metric_inc (sv_active_client_streams s),
              sv_active_clients :=
                AList.update ip \<lparr>last_seen = 0, arrived_max_seq = 0\<rparr> (sv_active_clients s)\<rparr>
      else s)"

definition client_of :: "udp_server \<Rightarrow> string \<Rightarrow> client_info" where
  "client_of s ip = the (map_of (sv_active_clients s) ip)"

definition set_client :: "string \<Rightarrow> client_info \<Rightarrow> udp_server \<Rightarrow> udp_server" where
  "set_client ip ci s = s\<lparr>sv_active_clients := AList.update ip ci (sv_active_clients s)\<rparr>"

definition count_missing :: "'r prom \<Rightarrow> int64 \<Rightarrow> udp_server \<Rightarrow> udp_server go" where
  "count_missing pr seq_diff s =
     (if 0 <s seq_diff
      then bindS (metric_add pr (sint seq_diff) (sv_packets_missing s))
             (\<lambda>m. Inr (s\<lparr>sv_packets_missing := m\<rparr>))
      else Inr s)"

definition account_packet :: "'r prom \<Rightarrow> string \<Rightarrow> int64 \<Rightarrow> int64 \<Rightarrow> udp_server \<Rightarrow> udp_server go" where
  "account_packet pr ip seq now s =
     (let s1 = touch_client ip s;
          s2 = set_client ip ((client_of s1 ip)\<lparr>last_seen := now\<rparr>) s1;
          ci = client_of s2 ip
      in if arrived_max_seq ci <s seq
         then bindS (count_missing pr (seq - arrived_max_seq ci - 1) s2)
                (\<lambda>s3. Inr (set_client ip (ci\<lparr>arrived_max_seq := seq\<rparr>) s3))
         else Inr (s2\<lparr>sv_packets_late := metric_inc (sv_packets_late s2)\<rparr>))"

text \<open>
  What \<open>ReadFromUDP\<close> gives: an error, or the bytes of a datagram and the sender's IP.  The
  bytes land at the front of the buffer, which keeps what earlier packets left behind.
\<close>

datatype udp_read = ReadFailed | Datagram "byte list" string

text \<open>What one pass of the loop leaves: the buffer, the server, and the reply it wrote.\<close>

type_synonym server_pass = "byte list \<times> udp_server \<times> (byte list \<times> string) option"

definition server_reply ::
  "'r prom \<Rightarrow> int64 \<Rightarrow> message \<Rightarrow> byte list \<Rightarrow> string \<Rightarrow> byte list \<Rightarrow> udp_server \<Rightarrow> server_pass go" where
  "server_reply pr now msg byte_arr ip buf s =
     bindS (go_copy_from (go_copy buf byte_arr) (length byte_arr) (sv_pod_info_bytes s)) (\<lambda>buf'.
       (let pkt_length = word_of_nat (length byte_arr) + word_of_nat (length (sv_pod_info_bytes s));
            msg_length = (if msg_len msg <s pkt_length then pkt_length else msg_len msg)
        in bindS (account_packet pr ip (sequence_number msg) now s) (\<lambda>s'.
           bindS (go_slice buf' 0 (sint msg_length)) (\<lambda>out.
             Inr (buf', s', Some (out, ip))))))"

definition server_handle ::
  "codec \<Rightarrow> 'r prom \<Rightarrow> int64 \<Rightarrow> int64 \<Rightarrow> udp_read \<Rightarrow> byte list \<Rightarrow> udp_server \<Rightarrow> server_pass go" where
  "server_handle cd pr now1 now2 rd buf s =
     (case rd of
        ReadFailed \<Rightarrow> Inr (buf, s, None)
      | Datagram data ip \<Rightarrow>
          (let buf1 = go_copy buf data; n = min (length data) (length buf)
           in if 0 < n then
                bindS (go_slice buf1 0 (sint (sv_msg_header_length s))) (\<lambda>hdr.
                  case unmarshal_msg cd hdr of
                    (_, Some e) \<Rightarrow> Inr (buf1, s, None)
                  | (msg, None) \<Rightarrow>
                      (let msg1 = msg\<lparr>respond_time_stamp := now1,
                                      server_info_length :=
                                        word_of_nat (length (sv_pod_info_bytes s))\<rparr>
                       in case marshal_msg cd msg1 of
                            Inl e \<Rightarrow> Inr (buf1, s, None)
                          | Inr byte_arr \<Rightarrow> server_reply pr now2 msg1 byte_arr ip buf1 s))
              else Inr (buf1, s, None)))"

subsection \<open>Idle clients (\<open>HandleIdleConnections\<close>)\<close>

definition connection_timeout_in_micros :: int64 where
  "connection_timeout_in_micros = sec_to_micro_sec 60"

definition is_idle :: "int64 \<Rightarrow> client_info \<Rightarrow> bool" where
  "is_idle now ci \<longleftrightarrow> last_seen ci + connection_timeout_in_micros <s now"

definition evict_idle :: "int64 \<Rightarrow> string \<times> client_info \<Rightarrow> udp_server \<Rightarrow> udp_server" where
  "evict_idle now entry s =
     (if is_idle now (snd entry)
      then s\<lparr>sv_active_clients := AList.delete (fst entry) (sv_active_clients s),
              sv_active_client_streams := metric_dec (sv_active_client_streams s)\<rparr>
      else s)"

text \<open>One pass over the map, in the order of the list (the order does not matter, below).\<close>

definition handle_idle_pass :: "int64 \<Rightarrow> udp_server \<Rightarrow> udp_server" where
  "handle_idle_pass now s = fold (evict_idle now) (sv_active_clients s) s"

subsection \<open>Teardown\<close>

text \<open>
  \<open>TearDownServer\<close> up to its wait, and after it: with no connection it does nothing.
\<close>

definition teardown_server_begin :: "udp_server \<Rightarrow> udp_server" where
  "teardown_server_begin s = (if sv_connection s = None then s else s\<lparr>sv_stop := True\<rparr>)"

definition teardown_server_finish :: "'r prom \<Rightarrow> udp_server \<Rightarrow> 'r \<Rightarrow> 'r" where
  "teardown_server_finish pr s reg =
     (if sv_connection s = None then reg
      else fold (\<lambda>m r. prom_unregister pr r m) (sv_metrics s) reg)"

subsection \<open>Well-formed servers\<close>

text \<open>
  Distinct client keys, the gauge equal to the number of clients, non-negative maxima.
\<close>

definition clients_wf :: "udp_server \<Rightarrow> bool" where
  "clients_wf s \<longleftrightarrow>
     distinct (map fst (sv_active_clients s)) \<and>
     mt_total (sv_active_client_streams s) = int (length (sv_active_clients s)) \<and>
     (\<forall>ci \<in> snd ` set (sv_active_clients s). 0 \<le> sint (arrived_max_seq ci))"

named_theorems server_frame "which fields an operation of the server leaves alone"

lemma touch_client_frame [server_frame]:
  "sv_packets_missing (touch_client ip s) = sv_packets_missing s"
  "sv_packets_late (touch_client ip s) = sv_packets_late s"
  "sv_pod_info_bytes (touch_client ip s) = sv_pod_info_bytes s"
  "sv_stop (touch_client ip s) = sv_stop s" "sv_wait (touch_client ip s) = sv_wait s"
  "sv_msg_header_length (touch_client ip s) = sv_msg_header_length s"
  by (simp_all add: touch_client_def)

lemma set_client_frame [server_frame]:
  "sv_packets_missing (set_client ip ci s) = sv_packets_missing s"
  "sv_packets_late (set_client ip ci s) = sv_packets_late s"
  "sv_pod_info_bytes (set_client ip ci s) = sv_pod_info_bytes s"
  "sv_active_client_streams (set_client ip ci s) = sv_active_client_streams s"
  "sv_stop (set_client ip ci s) = sv_stop s" "sv_wait (set_client ip ci s) = sv_wait s"
  "sv_msg_header_length (set_client ip ci s) = sv_msg_header_length s"
  by (simp_all add: set_client_def)

lemma set_client_clients:
  "sv_active_clients (set_client ip ci s) = AList.update ip ci (sv_active_clients s)"
  by (simp add: set_client_def)

end
