(* ===== verification/Samples.thy ===== *)
theory Samples
  imports Util
begin

section \<open>Concrete libraries for the witnesses\<close>

text \<open>
  The libraries that are not in the repository are parameters of the model.  This theory
  gives each of them one concrete value that meets the named hypotheses, so that the
  witnesses of the properties can be evaluated: a registry that refuses a second collector
  with the same description, and a fixed-length codec (one byte per bit for the integers of
  a message, escaped characters for a pod description).
\<close>

type_synonym desc = "string \<times> string \<times> string \<times> labels"

definition desc_of :: "metric \<Rightarrow> desc" where
  "desc_of m = (mt_namespace m, mt_subsystem m, mt_name m, mt_labels m)"

definition list_prom :: "desc list prom" where
  "list_prom =
     \<lparr>prom_register = (\<lambda>r m. if desc_of m \<in> set r
          then Inl ''duplicate metrics collector registration attempted''
          else Inr (desc_of m # r)),
      prom_unregister = (\<lambda>r m. removeAll (desc_of m) r),
      prom_add_ok = (\<lambda>v. 0 \<le> v)\<rparr>"

lemma list_prom_add [simp]: "add_panics_on_negative list_prom"
  by (simp add: add_panics_on_negative_def list_prom_def)

definition int64_bytes :: "int64 \<Rightarrow> byte list" where
  "int64_bytes w = map (\<lambda>i. if bit w i then 1 else 0) [0..<64]"

definition bytes_int64 :: "byte list \<Rightarrow> int64" where
  "bytes_int64 bs = horner_sum of_bool 2 (map (\<lambda>b. b = 1) bs)"

lemma length_int64_bytes [simp]: "length (int64_bytes w) = 64"
  by (simp add: int64_bytes_def)

lemma bytes_int64_bytes [simp]: "bytes_int64 (int64_bytes w) = w"
proof -
  have "map (\<lambda>b. b = 1) (int64_bytes w) = map (bit w) [0..<64]"
    by (simp add: int64_bytes_def)
  then show ?thesis
    by (simp add: bytes_int64_def horner_sum_bit_eq_take_bit take_bit_word_eq_self del: upt_rec_numeral)
qed

fun escape :: "string \<Rightarrow> byte list" where
  "escape [] = [0]"
| "escape (c # cs) = 1 # word_of_nat (of_char c) # escape cs"

fun unescape :: "byte list \<Rightarrow> (string \<times> byte list) option" where
  "unescape (b # bs) =
     (if b = 0 then Some ([], bs)
      else case bs of [] \<Rightarrow> None
           | c # cs \<Rightarrow> map_option (\<lambda>(s, r). (char_of (unat c) # s, r)) (unescape cs))"
| "unescape [] = None"

lemma char_byte [simp]: "char_of (unat (word_of_nat (of_char c) :: byte)) = c"
proof -
  have "of_char c < (256 :: nat)" by (rule nat_of_char_less_256)
  then show ?thesis by (simp add: unat_of_nat)
qed

lemma unescape_escape [simp]: "unescape (escape s @ r) = Some (s, r)"
  by (induction s) auto

definition encode_msg :: "message \<Rightarrow> byte list" where
  "encode_msg m = int64_bytes (sequence_number m) @ int64_bytes (send_time_stamp m) @
     int64_bytes (respond_time_stamp m) @ int64_bytes (server_info_length m) @
     int64_bytes (msg_len m)"

definition decode_msg :: "byte list \<Rightarrow> message" where
  "decode_msg bs =
     \<lparr>sequence_number = bytes_int64 (take 64 bs),
      send_time_stamp = bytes_int64 (take 64 (drop 64 bs)),
      respond_time_stamp = bytes_int64 (take 64 (drop 128 bs)),
      server_info_length = bytes_int64 (take 64 (drop 192 bs)),
      msg_len = bytes_int64 (take 64 (drop 256 bs))\<rparr>"

definition encode_pod :: "pod_info \<Rightarrow> byte list" where
  "encode_pod p = escape (pod_namespace p) @ escape (pod_name p) @ escape (worker_name p)"

definition decode_pod :: "byte list \<Rightarrow> pod_info \<times> go_error option" where
  "decode_pod bs =
     (let bad = (\<lparr>pod_namespace = [], pod_name = [], worker_name = []\<rparr>, Some (GoError ''EOF'')) in
      case unescape bs of None \<Rightarrow> bad
      | Some (a, r) \<Rightarrow> (case unescape r of None \<Rightarrow> bad
        | Some (b, q) \<Rightarrow> (case unescape q of None \<Rightarrow> bad
          | Some (c, _) \<Rightarrow> (\<lparr>pod_namespace = a, pod_name = b, worker_name = c\<rparr>, None))))"

definition bit_codec :: codec where
  "bit_codec =
     \<lparr>marshal_msg = (\<lambda>m. Inr (encode_msg m)),
      unmarshal_msg = (\<lambda>bs. if length bs < 320 then (decode_msg [], Some (GoError ''EOF''))
                            else (decode_msg bs, None)),
      marshal_pod = (\<lambda>p. Inr (encode_pod p)),
      unmarshal_pod = decode_pod\<rparr>"

lemma length_encode_msg [simp]: "length (encode_msg m) = 320"
  by (simp add: encode_msg_def)

lemma decode_encode_msg [simp]: "decode_msg (encode_msg m) = m"
  by (simp add: decode_msg_def encode_msg_def)

lemma decode_encode_pod [simp]: "decode_pod (encode_pod p) = (p, None)"
  by (simp add: decode_pod_def encode_pod_def unescape_escape [of _ "[]", simplified])

lemma bit_codec_fixed_length [simp]: "codec_fixed_length bit_codec 320"
  by (simp add: codec_fixed_length_def bit_codec_def)

lemma bit_codec_roundtrip [simp]: "codec_roundtrip bit_codec"
  by (auto simp: codec_roundtrip_def bit_codec_def)

end
