(* ===== verification/TappSpec.thy ===== *)
theory TappSpec
  imports Tapp Samples "HOL-Library.Multiset"
begin

section \<open>What the responder's accounting means\<close>

text \<open>
  The abstract specification of the server's bookkeeping, the proof that the critical
  section of \<open>ReadFromSocket\<close> implements it, and what the three exported numbers (active
  clients, missing, late) then say about the packets that arrived.
\<close>

subsection \<open>The abstract accounting\<close>

record accounts =
  ac_max :: "string \<rightharpoonup> int"
  ac_missing :: int
  ac_late :: int

definition spec_arrival :: "string \<Rightarrow> int \<Rightarrow> accounts \<Rightarrow> accounts" where
  "spec_arrival ip seq a =
     (let m = (case ac_max a ip of None \<Rightarrow> 0 | Some m \<Rightarrow> m)
      in if m < seq
         then a\<lparr>ac_max := (ac_max a)(ip \<mapsto> seq), ac_missing := ac_missing a + (seq - m - 1)\<rparr>
         else a\<lparr>ac_max := (ac_max a)(ip \<mapsto> m), ac_late := ac_late a + 1\<rparr>)"

lemma spec_arrival_eq:
  "(case ac_max a ip of None \<Rightarrow> 0 | Some m \<Rightarrow> m) = m \<Longrightarrow> spec_arrival ip seq a =
     (if m < seq
      then a\<lparr>ac_max := (ac_max a)(ip \<mapsto> seq), ac_missing := ac_missing a + (seq - m - 1)\<rparr>
      else a\<lparr>ac_max := (ac_max a)(ip \<mapsto> m), ac_late := ac_late a + 1\<rparr>)"
  by (simp add: spec_arrival_def)

definition accounts_of :: "udp_server \<Rightarrow> accounts" where
  "accounts_of s =
     \<lparr>ac_max = (\<lambda>ip. map_option (\<lambda>ci. sint (arrived_max_seq ci)) (map_of (sv_active_clients s) ip)),
      ac_missing = mt_total (sv_packets_missing s),
      ac_late = mt_total (sv_packets_late s)\<rparr>"

lemma accounts_of_simps [simp]:
  "ac_max (accounts_of s) ip =
     map_option (\<lambda>ci. sint (arrived_max_seq ci)) (map_of (sv_active_clients s) ip)"
  "ac_missing (accounts_of s) = mt_total (sv_packets_missing s)"
  "ac_late (accounts_of s) = mt_total (sv_packets_late s)"
  by (simp_all add: accounts_of_def)

subsection \<open>The critical section implements it\<close>

lemma clients_wf_touch:
  assumes "clients_wf s"
  shows "clients_wf (touch_client ip s)"
proof -
  let ?z = "\<lparr>last_seen = 0, arrived_max_seq = (0 :: int64)\<rparr>"
  have "ci \<in> snd ` set (AList.update ip ?z (sv_active_clients s)) \<Longrightarrow> 0 \<le> sint (arrived_max_seq ci)" for ci
    using assms set_alist_update [of "sv_active_clients s" _ ip ?z]
    by (fastforce simp: clients_wf_def)
  then show ?thesis
    using assms by (auto simp: clients_wf_def touch_client_def go_maps)
qed

lemma touch_client_known: "map_of (sv_active_clients (touch_client ip s)) ip =
    Some (case map_of (sv_active_clients s) ip of
            None \<Rightarrow> \<lparr>last_seen = 0, arrived_max_seq = 0\<rparr> | Some ci \<Rightarrow> ci)"
  by (auto simp: touch_client_def go_maps split: option.splits)

lemma touch_client_other:
  "ip' \<noteq> ip \<Longrightarrow> map_of (sv_active_clients (touch_client ip s)) ip' = map_of (sv_active_clients s) ip'"
  by (simp add: touch_client_def go_maps)

lemma clients_wf_set:
  assumes "clients_wf s" and "map_of (sv_active_clients s) ip \<noteq> None"
    and "0 \<le> sint (arrived_max_seq ci)"
  shows "clients_wf (set_client ip ci s)"
proof -
  have "c \<in> snd ` set (AList.update ip ci (sv_active_clients s)) \<Longrightarrow> 0 \<le> sint (arrived_max_seq c)" for c
    using assms set_alist_update [of "sv_active_clients s" _ ip ci]
    by (fastforce simp: clients_wf_def)
  then show ?thesis
    using assms by (auto simp: clients_wf_def set_client_def go_maps)
qed

lemma count_missing_ok:
  assumes "add_panics_on_negative pr"
  shows "\<exists>s'. count_missing pr d s = Inr s' \<and>
    mt_total (sv_packets_missing s') = mt_total (sv_packets_missing s) + max 0 (sint d) \<and>
    sv_active_clients s' = sv_active_clients s \<and> sv_packets_late s' = sv_packets_late s \<and>
    sv_active_client_streams s' = sv_active_client_streams s"
  using assms
  by (simp add: count_missing_def metric_add_def add_panics_on_negative_def word_sless_alt max_def)

text \<open>
  The gap of an advancing sequence number does not overflow, since the maximum on record is
  never negative.
\<close>

lemma seq_gap:
  fixes seq m :: int64
  assumes "0 \<le> sint m" and "m <s seq"
  shows "sint (seq - m - 1) = sint seq - sint m - 1"
proof -
  have lt: "sint m < sint seq" using assms(2) by (simp add: word_sless_alt)
  have "sint (seq - m) = sint seq - sint m"
    using assms(1) lt sint64_bounds [of seq] by (intro sint64_diff) (auto simp: minInt64_def)
  moreover have "sint (seq - m - 1) = sint (seq - m) - sint (1 :: int64)"
    using lt sint64_bounds [of seq] assms(1) calculation
    by (intro sint64_diff) (auto simp: minInt64_def maxInt64_def)
  ultimately show ?thesis by simp
qed

definition known_client :: "udp_server \<Rightarrow> string \<Rightarrow> client_info" where
  "known_client s ip = (case map_of (sv_active_clients s) ip of
      None \<Rightarrow> \<lparr>last_seen = 0, arrived_max_seq = 0\<rparr> | Some ci \<Rightarrow> ci)"

lemma known_client_nonneg: "clients_wf s \<Longrightarrow> 0 \<le> sint (arrived_max_seq (known_client s ip))"
  by (auto simp: known_client_def clients_wf_def split: option.splits
      dest!: map_of_SomeD intro: rev_image_eqI)

text \<open>The state after the map writes that precede the comparison.\<close>

definition refreshed :: "string \<Rightarrow> int64 \<Rightarrow> udp_server \<Rightarrow> udp_server" where
  "refreshed ip now s = set_client ip ((known_client s ip)\<lparr>last_seen := now\<rparr>) (touch_client ip s)"

lemma refreshed_wf: "clients_wf s \<Longrightarrow> clients_wf (refreshed ip now s)"
  unfolding refreshed_def
  by (intro clients_wf_set clients_wf_touch) (simp_all add: touch_client_known known_client_nonneg)

lemma refreshed_clients:
  "map_of (sv_active_clients (refreshed ip now s)) =
     (map_of (sv_active_clients s))(ip \<mapsto> (known_client s ip)\<lparr>last_seen := now\<rparr>)"
  by (rule ext) (simp add: refreshed_def set_client_clients go_maps touch_client_other)

lemma refreshed_frame [server_frame]:
  "sv_packets_missing (refreshed ip now s) = sv_packets_missing s"
  "sv_packets_late (refreshed ip now s) = sv_packets_late s"
  "sv_pod_info_bytes (refreshed ip now s) = sv_pod_info_bytes s"
  by (simp_all add: refreshed_def server_frame)

lemma client_info_written:
  "(ci :: client_info)\<lparr>last_seen := t, arrived_max_seq := q\<rparr> = \<lparr>last_seen = t, arrived_max_seq = q\<rparr>"
  by (cases ci) simp

lemma account_packet_eq:
  "account_packet pr ip seq now s =
     (let s2 = refreshed ip now s; m = arrived_max_seq (known_client s ip)
      in if m <s seq
         then bindS (count_missing pr (seq - m - 1) s2) (\<lambda>s3.
           Inr (set_client ip \<lparr>last_seen = now, arrived_max_seq = seq\<rparr> s3))
         else Inr (s2\<lparr>sv_packets_late := metric_inc (sv_packets_late s2)\<rparr>))"
proof -
  let ?k = "known_client s ip"
  have k: "client_of (touch_client ip s) ip = ?k"
    by (simp add: client_of_def touch_client_known known_client_def)
  have "client_of (refreshed ip now s) ip = ?k\<lparr>last_seen := now\<rparr>"
    by (simp add: client_of_def refreshed_clients)
  then show ?thesis
    by (simp add: account_packet_def k refreshed_def [symmetric] Let_def client_info_written)
qed

lemma account_packet_refines:
  assumes wf: "clients_wf s" and pr: "add_panics_on_negative pr"
  shows "\<exists>s'. account_packet pr ip seq now s = Inr s' \<and>
    accounts_of s' = spec_arrival ip (sint seq) (accounts_of s) \<and> clients_wf s' \<and>
    map_option last_seen (map_of (sv_active_clients s') ip) = Some now"
proof -
  let ?s2 = "refreshed ip now s" and ?m = "arrived_max_seq (known_client s ip)"
  have m: "(case ac_max (accounts_of s) ip of None \<Rightarrow> 0 | Some x \<Rightarrow> x) = sint ?m"
    by (simp add: known_client_def split: option.splits)
  have m0: "0 \<le> sint ?m" by (rule known_client_nonneg [OF wf])
  have wf2: "clients_wf ?s2" by (rule refreshed_wf [OF wf])
  show ?thesis
  proof (cases "?m <s seq")
    case False
    then have "\<not> sint ?m < sint seq" by (simp add: word_sless_alt)
    then have "spec_arrival ip (sint seq) (accounts_of s) =
        (accounts_of s)\<lparr>ac_max := (ac_max (accounts_of s))(ip \<mapsto> sint ?m),
          ac_late := ac_late (accounts_of s) + 1\<rparr>"
      by (simp add: spec_arrival_eq [OF m])
    moreover have "account_packet pr ip seq now s =
        Inr (?s2\<lparr>sv_packets_late := metric_inc (sv_packets_late ?s2)\<rparr>)"
      using False by (simp add: account_packet_eq Let_def)
    moreover have "clients_wf (?s2\<lparr>sv_packets_late := metric_inc (sv_packets_late ?s2)\<rparr>)"
      using wf2 by (simp add: clients_wf_def)
    ultimately show ?thesis
      by (auto simp: accounts_of_def refreshed_clients server_frame fun_eq_iff)
  next
    case True
    then have lt: "sint ?m < sint seq" by (simp add: word_sless_alt)
    obtain s3 where s3: "count_missing pr (seq - ?m - 1) ?s2 = Inr s3"
      "mt_total (sv_packets_missing s3) =
         mt_total (sv_packets_missing s) + max 0 (sint (seq - ?m - 1))"
      "sv_active_clients s3 = sv_active_clients ?s2" "sv_packets_late s3 = sv_packets_late s"
      "sv_active_client_streams s3 = sv_active_client_streams ?s2"
      using count_missing_ok [OF pr, of "seq - ?m - 1" ?s2] by (auto simp: server_frame)
    let ?s4 = "set_client ip \<lparr>last_seen = now, arrived_max_seq = seq\<rparr> s3"
    have "clients_wf s3" using wf2 s3 by (simp add: clients_wf_def)
    then have "clients_wf ?s4"
      using lt m0 s3 by (intro clients_wf_set) (simp_all add: refreshed_clients)
    moreover have "account_packet pr ip seq now s = Inr ?s4"
      using True s3(1) by (simp add: account_packet_eq Let_def)
    moreover have "max 0 (sint (seq - ?m - 1)) = sint seq - sint ?m - 1"
      using seq_gap [OF m0 True] lt by simp
    moreover have "spec_arrival ip (sint seq) (accounts_of s) =
        (accounts_of s)\<lparr>ac_max := (ac_max (accounts_of s))(ip \<mapsto> sint seq),
          ac_missing := ac_missing (accounts_of s) + (sint seq - sint ?m - 1)\<rparr>"
      using lt by (simp add: spec_arrival_eq [OF m])
    ultimately show ?thesis
      using s3
      by (auto simp: accounts_of_def set_client_clients go_maps
          server_frame refreshed_clients fun_eq_iff)
  qed
qed

subsection \<open>Sequences of packets\<close>

type_synonym arrival = "string \<times> int64 \<times> int64" \<comment> \<open>client IP, sequence number, time\<close>

definition arrive :: "'r prom \<Rightarrow> arrival \<Rightarrow> udp_server \<Rightarrow> udp_server go" where
  "arrive pr p s = account_packet pr (fst p) (fst (snd p)) (snd (snd p)) s"

definition arrivals :: "'r prom \<Rightarrow> arrival list \<Rightarrow> udp_server \<Rightarrow> udp_server go" where
  "arrivals pr ps s = foldS (arrive pr) ps s"

definition spec_arrivals :: "arrival list \<Rightarrow> accounts \<Rightarrow> accounts" where
  "spec_arrivals ps a = fold (\<lambda>p. spec_arrival (fst p) (sint (fst (snd p)))) ps a"

lemma arrivals_refine:
  assumes "clients_wf s" and "add_panics_on_negative pr"
  shows "\<exists>s'. arrivals pr ps s = Inr s' \<and> accounts_of s' = spec_arrivals ps (accounts_of s) \<and>
    clients_wf s'"
  using assms(1)
proof (induction ps arbitrary: s)
  case Nil
  then show ?case by (simp add: arrivals_def spec_arrivals_def)
next
  case (Cons p ps)
  obtain s1 where s1: "arrive pr p s = Inr s1" "clients_wf s1"
    "accounts_of s1 = spec_arrival (fst p) (sint (fst (snd p))) (accounts_of s)"
    using account_packet_refines [OF Cons.prems assms(2)] unfolding arrive_def by metis
  then show ?case
    using Cons.IH [OF s1(2)] by (auto simp: arrivals_def spec_arrivals_def)
qed

subsection \<open>The balance of missing and late packets\<close>

definition ac_sum :: "accounts \<Rightarrow> int" where
  "ac_sum a = (\<Sum>ip \<in> dom (ac_max a). the (ac_max a ip))"

definition ac_balance :: "accounts \<Rightarrow> int" where
  "ac_balance a = ac_sum a - ac_missing a + ac_late a"

lemma finite_accounts_of: "finite (dom (ac_max (accounts_of s)))"
  by (rule finite_subset [of _ "dom (map_of (sv_active_clients s))"])
    (auto simp: accounts_of_def finite_dom_map_of split: option.splits)

lemma spec_arrival_finite: "finite (dom (ac_max a)) \<Longrightarrow> finite (dom (ac_max (spec_arrival ip q a)))"
  by (simp add: spec_arrival_def Let_def)

text \<open>Every packet moves the balance by exactly one.\<close>

lemma spec_arrival_balance:
  assumes "finite (dom (ac_max a))"
  shows "ac_balance (spec_arrival ip q a) = ac_balance a + 1"
proof -
  have upd: "(\<Sum>j \<in> dom ((ac_max a)(ip \<mapsto> v)). the (((ac_max a)(ip \<mapsto> v)) j)) =
      ac_sum a - (case ac_max a ip of None \<Rightarrow> 0 | Some u \<Rightarrow> u) + v" for v
    using sum_dom_upd [OF assms, of "\<lambda>x. x" ip v] by (simp add: ac_sum_def)
  let ?m = "case ac_max a ip of None \<Rightarrow> 0 | Some m \<Rightarrow> m"
  have "spec_arrival ip q a =
     (if ?m < q
      then a\<lparr>ac_max := (ac_max a)(ip \<mapsto> q), ac_missing := ac_missing a + (q - ?m - 1)\<rparr>
      else a\<lparr>ac_max := (ac_max a)(ip \<mapsto> ?m), ac_late := ac_late a + 1\<rparr>)"
    by (rule spec_arrival_eq) (rule refl)
  then show ?thesis
    by (simp add: ac_balance_def ac_sum_def [of "a\<lparr>ac_max := _, ac_missing := _\<rparr>"]
        ac_sum_def [of "a\<lparr>ac_max := _, ac_late := _\<rparr>"] upd del: dom_fun_upd fun_upd_apply)
qed

lemma spec_arrivals_balance:
  "finite (dom (ac_max a)) \<Longrightarrow> ac_balance (spec_arrivals ps a) = ac_balance a + int (length ps)"
proof (induction ps arbitrary: a)
  case Nil
  then show ?case by (simp add: spec_arrivals_def)
next
  case (Cons p ps)
  then show ?case
    using Cons.IH [OF spec_arrival_finite [OF Cons.prems]] spec_arrival_balance [OF Cons.prems]
    by (simp add: spec_arrivals_def)
qed

text \<open>The sum of the maxima on record, over the concrete map.\<close>

definition max_sum :: "udp_server \<Rightarrow> int" where
  "max_sum s = sum_vals (\<lambda>ci. sint (arrived_max_seq ci)) (sv_active_clients s)"

lemma max_sum_accounts: "clients_wf s \<Longrightarrow> max_sum s = ac_sum (accounts_of s)"
proof -
  assume "clients_wf s"
  then have "max_sum s = (\<Sum>k \<in> dom (map_of (sv_active_clients s)).
      sint (arrived_max_seq (the (map_of (sv_active_clients s) k))))"
    by (simp add: max_sum_def clients_wf_def sum_vals_map_of)
  also have "\<dots> = ac_sum (accounts_of s)"
    unfolding ac_sum_def accounts_of_def by (rule sum.cong) (auto split: option.splits)
  finally show ?thesis .
qed

text \<open>
  Over any sequence of packets from any clients, the growth of the maxima equals the
  packets counted missing plus those that were not late.
\<close>

theorem missing_late_balance:
  assumes "clients_wf s" and "add_panics_on_negative pr"
  shows "\<exists>s'. arrivals pr ps s = Inr s' \<and>
    max_sum s' - max_sum s =
      (mt_total (sv_packets_missing s') - mt_total (sv_packets_missing s)) +
      (int (length ps) - (mt_total (sv_packets_late s') - mt_total (sv_packets_late s)))"
proof -
  obtain s' where s': "arrivals pr ps s = Inr s'" "clients_wf s'"
    "accounts_of s' = spec_arrivals ps (accounts_of s)"
    using arrivals_refine [OF assms] by blast
  have "ac_balance (accounts_of s') = ac_balance (accounts_of s) + int (length ps)"
    by (simp only: s'(3) spec_arrivals_balance [OF finite_accounts_of])
  then have "max_sum s' - mt_total (sv_packets_missing s') + mt_total (sv_packets_late s') =
      max_sum s - mt_total (sv_packets_missing s) + mt_total (sv_packets_late s) + int (length ps)"
    by (simp only: ac_balance_def max_sum_accounts [OF s'(2)] max_sum_accounts [OF assms(1)]
        accounts_of_simps)
  with s'(1) show ?thesis by auto
qed

subsection \<open>One client: the numbers never received\<close>

definition from_client :: "string \<Rightarrow> (int64 \<times> int64) list \<Rightarrow> arrival list" where
  "from_client ip qs = map (\<lambda>q. (ip, q)) qs"

lemma spec_from_client_max:
  "ac_max (spec_arrivals (from_client ip qs) a) =
     (if qs = [] then ac_max a
      else (ac_max a)(ip \<mapsto> fold max (map (sint \<circ> fst) qs)
                              (case ac_max a ip of None \<Rightarrow> 0 | Some m \<Rightarrow> m)))"
proof (induction qs arbitrary: a)
  case Nil
  then show ?case by (simp add: spec_arrivals_def from_client_def)
next
  case (Cons q qs)
  let ?m = "case ac_max a ip of None \<Rightarrow> 0 | Some m \<Rightarrow> m"
  let ?a = "spec_arrival ip (sint (fst q)) a"
  have a: "ac_max ?a = (ac_max a)(ip \<mapsto> max (sint (fst q)) ?m)"
    by (simp add: spec_arrival_def Let_def max_def)
  have "spec_arrivals (from_client ip (q # qs)) a = spec_arrivals (from_client ip qs) ?a"
    by (simp add: spec_arrivals_def from_client_def)
  then show ?case using Cons.IH [of ?a] a by (cases "qs = []") simp_all
qed

lemma fold_max_Max: "fold max xs (m :: int) = Max (insert m (set xs))"
  using Max.set_eq_fold [of m xs] by simp

text \<open>
  C1: from a client the server has not seen, after packets with distinct positive sequence
  numbers in any order, missing minus late is the number of sequence numbers up to the
  largest received that never arrived.
\<close>

theorem missing_minus_late_is_never_received:
  assumes "clients_wf s" and "add_panics_on_negative pr"
    and "map_of (sv_active_clients s) ip = None"
    and "qs \<noteq> []" and "distinct (map fst qs)" and "\<forall>q \<in> set qs. 0 < sint (fst q)"
  shows "\<exists>s'. arrivals pr (from_client ip qs) s = Inr s' \<and>
    (mt_total (sv_packets_missing s') - mt_total (sv_packets_missing s)) -
    (mt_total (sv_packets_late s') - mt_total (sv_packets_late s)) =
      int (card ({1 .. Max (sint ` fst ` set qs)} - sint ` fst ` set qs))"
proof -
  let ?Q = "sint ` fst ` set qs" and ?a = "accounts_of s"
  let ?b = "spec_arrivals (from_client ip qs) ?a"
  obtain s' where s': "arrivals pr (from_client ip qs) s = Inr s'" "accounts_of s' = ?b"
    using arrivals_refine [OF assms(1,2)] by blast
  have Q: "finite ?Q" "?Q \<noteq> {}" "\<forall>x \<in> ?Q. 0 < x" using assms(4,6) by auto
  have M0: "0 < Max ?Q" using Q(3) Max_in [OF Q(1,2)] by blast
  have "fold max (map (sint \<circ> fst) qs) 0 = Max (insert 0 ?Q)"
    by (simp add: fold_max_Max image_comp)
  also have "\<dots> = Max ?Q"
  proof -
    have "Max (insert 0 ?Q) = max 0 (Max ?Q)" by (rule Max_insert [OF Q(1,2)])
    then show ?thesis using M0 by simp
  qed
  finally have b: "ac_max ?b = (ac_max ?a)(ip \<mapsto> Max ?Q)"
    using assms(3,4) by (simp add: spec_from_client_max)
  have "ac_sum ?b = ac_sum ?a + Max ?Q"
    using sum_dom_upd [OF finite_accounts_of, of "\<lambda>x. x" s ip "Max ?Q"] assms(3)
    by (simp add: ac_sum_def b del: dom_fun_upd fun_upd_apply)
  moreover have "ac_balance ?b = ac_balance ?a + int (length qs)"
    using spec_arrivals_balance [OF finite_accounts_of, of "from_client ip qs" s]
    by (simp add: from_client_def)
  moreover have "length qs = card ?Q"
    using assms(5) distinct_card [of "map fst qs"]
    by (simp add: card_image inj_on_def sint64_eq_iff)
  moreover have sub: "?Q \<subseteq> {1 .. Max ?Q}"
  proof (rule subsetI)
    fix x assume x: "x \<in> ?Q"
    then have "x \<le> Max ?Q" by (rule Max_ge [OF Q(1)])
    moreover have "0 < x" using x Q(3) by blast
    ultimately show "x \<in> {1 .. Max ?Q}" by simp
  qed
  moreover have "int (card ({1 .. Max ?Q} - ?Q)) = Max ?Q - int (card ?Q)"
    using card_mono [OF _ sub] M0 Q(1) sub by (simp add: card_Diff_subset of_nat_diff)
  ultimately have "ac_missing ?b - ac_missing ?a - (ac_late ?b - ac_late ?a) =
      int (card ({1 .. Max ?Q} - ?Q))"
    by (simp only: ac_balance_def)
  then show ?thesis using s' by (metis accounts_of_simps(2,3))
qed

definition sample_server :: udp_server where
  "sample_server =
     \<lparr>sv_server = \<lparr>srv_pod_info = \<lparr>pod_namespace = ''ns'', pod_name = ''pod'', worker_name = ''node''\<rparr>,
                    srv_ip_address = ''10.0.0.9'', srv_port = 8890\<rparr>,
      sv_read_buffer_size = 1000,
      sv_pod_info_bytes = encode_pod \<lparr>pod_namespace = ''ns'', pod_name = ''pod'', worker_name = ''node''\<rparr>,
      sv_connection = Some ''10.0.0.9:8890'', sv_wait = 2, sv_msg_header_length = 320,
      sv_stop = False, sv_active_client_streams = nil_metric, sv_packets_missing = nil_metric,
      sv_packets_late = nil_metric, sv_metrics = [], sv_active_clients = []\<rparr>"

lemma sample_server_wf [simp]: "clients_wf sample_server"
  by (simp add: clients_wf_def sample_server_def nil_metric_def)

lemma sample_server_empty [simp]:
  "sv_active_clients sample_server = []"
  "mt_total (sv_packets_missing sample_server) = 0"
  "mt_total (sv_packets_late sample_server) = 0"
  by (simp_all add: sample_server_def nil_metric_def)

theorem missing_late_balance_witness:
  "\<exists>s'. arrivals list_prom [(''10.0.0.1'', 3, 7), (''10.0.0.2'', 1, 8), (''10.0.0.1'', 2, 9)] sample_server = Inr s' \<and>
    max_sum s' = mt_total (sv_packets_missing s') + (3 - mt_total (sv_packets_late s'))"
  using missing_late_balance [of sample_server list_prom
      "[(''10.0.0.1'', 3, 7), (''10.0.0.2'', 1, 8), (''10.0.0.1'', 2, 9)]"]
  by (simp add: max_sum_def)

theorem missing_minus_late_is_never_received_witness:
  "\<exists>s'. arrivals list_prom (from_client ''10.0.0.1'' [(4, 7), (1, 8), (2, 9)]) sample_server = Inr s' \<and>
    mt_total (sv_packets_missing s') - mt_total (sv_packets_late s') = 1"
proof -
  have "{1 .. 4 :: int} - {4, 1, 2} = {3}" by auto
  then show ?thesis
    using missing_minus_late_is_never_received [of sample_server list_prom "''10.0.0.1''"
        "[(4, 7), (1, 8), (2, 9)]"]
    by simp
qed

subsection \<open>Idle clients\<close>

lemma evict_fold_clients:
  "sv_active_clients (fold (evict_idle now) es s) =
     fold (\<lambda>e m. if is_idle now (snd e) then AList.delete (fst e) m else m) es (sv_active_clients s)"
  by (induction es arbitrary: s) (auto simp: evict_idle_def)

lemma evict_fold_gauge:
  "mt_total (sv_active_client_streams (fold (evict_idle now) es s)) =
     mt_total (sv_active_client_streams s) - int (length (filter (\<lambda>e. is_idle now (snd e)) es))"
  by (induction es arbitrary: s) (auto simp: evict_idle_def)

lemma evict_fold_truncate:
  "fold (evict_idle now) es s =
     s\<lparr>sv_active_clients := sv_active_clients (fold (evict_idle now) es s),
       sv_active_client_streams := sv_active_client_streams (fold (evict_idle now) es s)\<rparr>"
proof (induction es arbitrary: s)
  case Nil
  then show ?case by simp
next
  case (Cons e es)
  show ?case
    by (subst (1) fold_simps(2), subst Cons.IH) (simp add: evict_idle_def)
qed

lemma evict_fold_gauge_record:
  "sv_active_client_streams (fold (evict_idle now) es s) =
     (sv_active_client_streams s)\<lparr>mt_total := mt_total (sv_active_client_streams s) -
        int (length (filter (\<lambda>e. is_idle now (snd e)) es))\<rparr>"
  by (induction es arbitrary: s) (auto simp: evict_idle_def metric_dec_def)

text \<open>
  C28: one pass of the idle handler, whatever the order in which Go iterates over the map,
  keeps exactly the clients seen within the timeout, sets the gauge to their number and
  changes nothing else.
\<close>

theorem idle_pass_exact:
  assumes "clients_wf s" and "mset es = mset (sv_active_clients s)"
  shows "fold (evict_idle now) es s =
    (let live = filter (\<lambda>e. \<not> is_idle now (snd e)) (sv_active_clients s)
     in s\<lparr>sv_active_clients := live,
          sv_active_client_streams :=
            (sv_active_client_streams s)\<lparr>mt_total := int (length live)\<rparr>\<rparr>)"
proof -
  let ?cl = "sv_active_clients s" and ?P = "\<lambda>e. is_idle now (snd e)"
  have dist: "distinct (keys ?cl)" and gauge: "mt_total (sv_active_client_streams s) = int (length ?cl)"
    using assms(1) by (simp_all add: clients_wf_def)
  have set_es: "set es = set ?cl" using assms(2) by (rule mset_eq_setD)
  have "distinct ?cl" using dist by (simp add: distinct_map)
  then have "distinct es" using mset_eq_imp_distinct_iff [OF assms(2)] by blast
  then have "sv_active_clients (fold (evict_idle now) es s) = filter (\<lambda>e. \<not> ?P e) ?cl"
    by (simp add: evict_fold_clients fold_delete_filter [OF dist] set_es cong: filter_cong)
  moreover have "length (filter ?P es) = length (filter ?P ?cl)"
    using assms(2) by (metis mset_filter size_mset)
  then have "mt_total (sv_active_client_streams s) - int (length (filter ?P es)) =
      int (length (filter (\<lambda>e. \<not> ?P e) ?cl))"
    using sum_length_filter_compl [of ?P ?cl] gauge by simp
  ultimately show ?thesis
    by (subst evict_fold_truncate) (simp add: evict_fold_gauge_record Let_def)
qed

lemma idle_pass_wf: "clients_wf s \<Longrightarrow> clients_wf (handle_idle_pass now s)"
  using idle_pass_exact [of s "sv_active_clients s" now]
  by (auto simp: handle_idle_pass_def Let_def clients_wf_def distinct_map_filter)

lemma connection_timeout_value: "connection_timeout_in_micros = 60000000"
  by (simp add: connection_timeout_in_micros_def sec_to_micro_sec_def signed_divide_int_def)

text \<open>The idle test is the comparison one expects as long as the deadline does not wrap.\<close>

lemma is_idle_iff:
  "sint (last_seen ci) \<le> maxInt64 - 60000000 \<Longrightarrow>
     is_idle now ci \<longleftrightarrow> 60000000 < sint now - sint (last_seen ci)"
  using sint64_bounds(1) [of "last_seen ci"]
  by (simp add: is_idle_def word_sless_alt connection_timeout_value sint64_add maxInt64_def
      minInt64_def) arith

definition sample_clients :: udp_server where
  "sample_clients = sample_server
     \<lparr>sv_active_clients := [(''10.0.0.1'', \<lparr>last_seen = 5, arrived_max_seq = 3\<rparr>),
                           (''10.0.0.2'', \<lparr>last_seen = 90000000, arrived_max_seq = 8\<rparr>)],
      sv_active_client_streams := nil_metric\<lparr>mt_total := 2\<rparr>\<rparr>"

theorem idle_pass_exact_witness:
  "keys (sv_active_clients (handle_idle_pass 100000000 sample_clients)) = [''10.0.0.2''] \<and>
   mt_total (sv_active_client_streams (handle_idle_pass 100000000 sample_clients)) = 1"
proof -
  have "clients_wf sample_clients"
    by (simp add: clients_wf_def sample_clients_def)
  from idle_pass_exact [OF this refl, of 100000000] show ?thesis
    by (simp add: handle_idle_pass_def sample_clients_def is_idle_def connection_timeout_value)
qed

end
