(* ===== verification/TappReply.thy ===== *)
theory TappReply
  imports TappSpec
begin

section \<open>The responder's reply, and the packet that ends the process\<close>

text \<open>
  What \<open>ReadFromSocket\<close> sends back for a well-formed test packet: the same message with
  its response time and the length of the server's description, the description itself, and
  the rest of the packet as padding.  The reply is cut from the receive buffer with the
  length the packet announces, so a packet that announces more than the buffer holds makes
  the slice expression panic.
\<close>

text \<open>
  The hypotheses: MessagePack round-trips and is fixed-length, the server was built with
  that header length, and the buffer holds the header and the server's description.
\<close>

definition server_ready :: "codec \<Rightarrow> nat \<Rightarrow> udp_server \<Rightarrow> byte list \<Rightarrow> bool" where
  "server_ready cd n s buf \<longleftrightarrow>
     codec_roundtrip cd \<and> codec_fixed_length cd n \<and> 0 < n \<and>
     sv_msg_header_length s = word_of_nat n \<and>
     n + length (sv_pod_info_bytes s) \<le> length buf \<and> int (length buf) \<le> maxInt64"

text \<open>A datagram that carries message \<open>m\<close>: its header, then anything, within the buffer.\<close>

definition carries :: "codec \<Rightarrow> message \<Rightarrow> byte list \<Rightarrow> byte list \<Rightarrow> bool" where
  "carries cd m data buf \<longleftrightarrow>
     length data \<le> length buf \<and> (\<exists>bs rest. marshal_msg cd m = Inr bs \<and> data = bs @ rest)"

definition answered :: "int64 \<Rightarrow> udp_server \<Rightarrow> message \<Rightarrow> message" where
  "answered now s m =
     m\<lparr>respond_time_stamp := now, server_info_length := word_of_nat (length (sv_pod_info_bytes s))\<rparr>"

definition reply_length :: "nat \<Rightarrow> udp_server \<Rightarrow> message \<Rightarrow> int" where
  "reply_length n s m = max (sint (msg_len m)) (int (n + length (sv_pod_info_bytes s)))"

lemma reply_length_nonneg: "0 \<le> reply_length n s m"
  by (simp add: reply_length_def max_def)

lemma server_reply_eval:
  assumes "n = length bs" and "n + length (sv_pod_info_bytes s) \<le> length buf"
    and "int (length buf) \<le> maxInt64" and "msg_len m1 = msg_len m"
  shows "server_reply pr now m1 bs ip buf s =
    bindS (account_packet pr ip (sequence_number m1) now s) (\<lambda>s'.
      let out = bs @ sv_pod_info_bytes s @ drop (n + length (sv_pod_info_bytes s)) buf
      in if reply_length n s m \<le> int (length buf)
         then Inr (out, s', Some (take (nat (reply_length n s m)) out, ip))
         else Inl SliceBounds)"
proof -
  let ?info = "sv_pod_info_bytes s"
  let ?out = "bs @ ?info @ drop (n + length ?info) buf"
  let ?pl = "word_of_nat n + word_of_nat (length ?info) :: int64"
  have buf': "go_copy_from (go_copy buf bs) n ?info = Inr ?out"
    using assms(1,2) by (simp add: go_copy_from_def go_copy_fits add.commute)
  have len: "length ?out = length buf" using assms(1,2) by simp
  have "sint ?pl = int (n + length ?info)"
    using assms(2,3) by (simp add: sint64_add sint64_of_nat minInt64_def)
  then have "sint (if msg_len m1 <s ?pl then ?pl else msg_len m1) = reply_length n s m"
    using assms(4) by (simp add: reply_length_def word_sless_alt max_def)
  moreover have "0 \<le> reply_length n s m" by (rule reply_length_nonneg)
  ultimately have "go_slice ?out 0 (sint (if msg_len m1 <s ?pl then ?pl else msg_len m1)) =
      (if reply_length n s m \<le> int (length buf)
       then Inr (take (nat (reply_length n s m)) ?out) else Inl SliceBounds)"
    using len by (simp add: go_slice_def)
  then show ?thesis
    unfolding server_reply_def Let_def assms(1) [symmetric]
    by (cases "reply_length n s m \<le> int (length buf)") (simp_all only: buf' bindS_Inr bindS_Inl if_True if_False)
qed

lemma server_handle_eval:
  assumes ready: "server_ready cd n s buf" and data: "carries cd m data buf"
    and bs: "marshal_msg cd (answered now1 s m) = Inr bs"
  shows "server_handle cd pr now1 now2 (Datagram data ip) buf s =
    bindS (account_packet pr ip (sequence_number m) now2 s) (\<lambda>s'.
      let out = bs @ sv_pod_info_bytes s @
                  drop (n + length (sv_pod_info_bytes s)) (go_copy buf data)
      in if reply_length n s m \<le> int (length buf)
         then Inr (out, s', Some (take (nat (reply_length n s m)) out, ip))
         else Inl SliceBounds)"
proof -
  obtain hs rest where hs: "marshal_msg cd m = Inr hs" "data = hs @ rest"
    "length data \<le> length buf"
    using data unfolding carries_def by blast
  have n: "length hs = n" "length bs = n" "0 < n" "int n \<le> maxInt64"
    using ready hs(1) bs codec_fixed_lengthD [of cd n] unfolding server_ready_def by auto
  have "sint (sv_msg_header_length s) = int n"
    using ready n(4) by (simp add: server_ready_def sint64_of_nat)
  moreover have "go_slice (go_copy buf data) 0 (int n) = Inr hs"
    using hs n by (simp add: go_slice_def go_copy_fits)
  ultimately have hdr: "go_slice (go_copy buf data) 0 (sint (sv_msg_header_length s)) = Inr hs"
    by simp
  have um: "unmarshal_msg cd hs = (m, None)"
    using ready hs(1) by (simp add: server_ready_def codec_roundtrip_def)
  have "0 < min (length data) (length buf)" using hs n by auto
  then have "server_handle cd pr now1 now2 (Datagram data ip) buf s =
      server_reply pr now2 (answered now1 s m) bs ip (go_copy buf data) s"
    by (simp add: server_handle_def Let_def hdr um bs [unfolded answered_def] answered_def)
  also have "\<dots> = bindS (account_packet pr ip (sequence_number m) now2 s) (\<lambda>s'.
      let out = bs @ sv_pod_info_bytes s @
                  drop (n + length (sv_pod_info_bytes s)) (go_copy buf data)
      in if reply_length n s m \<le> int (length buf)
         then Inr (out, s', Some (take (nat (reply_length n s m)) out, ip))
         else Inl SliceBounds)"
    using server_reply_eval [where n = n and bs = bs and s = s and buf = "go_copy buf data"
        and ?m1.0 = "answered now1 s m" and m = m and pr = pr and ip = ip and now = now2]
      ready n(2) by (simp add: server_ready_def answered_def)
  finally show ?thesis .
qed


text \<open>
  C29: the only way a decodable test packet makes the responder panic is to announce a
  length beyond the receive buffer, and every such packet does.
\<close>

theorem server_panics_iff_length_beyond_buffer:
  assumes "server_ready cd n s buf" and "carries cd m data buf"
    and "clients_wf s" and "add_panics_on_negative pr"
  shows "server_handle cd pr now1 now2 (Datagram data ip) buf s = Inl p \<longleftrightarrow>
    p = SliceBounds \<and> int (length buf) < sint (msg_len m)"
proof -
  obtain bs where bs: "marshal_msg cd (answered now1 s m) = Inr bs"
    using assms(1) unfolding server_ready_def by (blast elim: codec_fixed_lengthE)
  obtain s' where s': "account_packet pr ip (sequence_number m) now2 s = Inr s'"
    using account_packet_refines [OF assms(3,4)] by blast
  have "int (n + length (sv_pod_info_bytes s)) \<le> int (length buf)"
    using assms(1) unfolding server_ready_def by linarith
  then show ?thesis
    using server_handle_eval [OF assms(1,2) bs, where pr = pr] s'
    by (auto simp: Let_def reply_length_def)
qed

definition sample_packet :: "int64 \<Rightarrow> byte list" where
  "sample_packet announced = encode_msg (new_message 3 5 announced) @ replicate 100 0xff"

definition sample_buffer :: "byte list" where
  "sample_buffer = replicate 1000 0"

lemma sample_ready [simp]: "server_ready bit_codec 320 sample_server sample_buffer"
proof -
  have "length (sv_pod_info_bytes sample_server) = 21"
    by (simp add: sample_server_def encode_pod_def)
  then show ?thesis
    by (simp add: server_ready_def sample_buffer_def maxInt64_def) (simp add: sample_server_def)
qed

lemma sample_packet_carries [simp]:
  "carries bit_codec (new_message 3 5 announced) (sample_packet announced) sample_buffer"
  by (simp add: carries_def sample_packet_def sample_buffer_def bit_codec_def)


theorem server_panics_iff_length_beyond_buffer_witness:
  "server_handle bit_codec list_prom 7 9 (Datagram (sample_packet 1001) ''10.0.0.1'')
     sample_buffer sample_server = Inl SliceBounds"
  using server_panics_iff_length_beyond_buffer [OF sample_ready sample_packet_carries [of 1001]
      sample_server_wf list_prom_add, of 7 9 "''10.0.0.1''" SliceBounds]
  by (simp add: sample_buffer_def new_message_def)

end
