(* ===== verification/TappSystem.thy ===== *)
theory TappSystem
  imports TappReply
begin

section \<open>The responder's goroutines\<close>

text \<open>
  \<open>CreateServer\<close> starts two goroutines over one server: \<open>ReadFromSocket\<close> and
  \<open>HandleIdleConnections\<close>.  A step is one of them passing its \<open>stop\<close> check or doing the
  body of one loop pass; the bodies touch the shared client map and metrics only inside the
  mutex, so each body is one step.  The clock readings and what the socket returns are
  inputs of the steps.  A panic ends the process.
\<close>

datatype reader_pc = ReaderHead | ReaderBody | ReaderDone
datatype idler_pc = IdlerHead | IdlerBody | IdlerDone

record server_sys =
  sy_server :: udp_server
  sy_buffer :: "byte list"
  sy_reader :: reader_pc
  sy_idler :: idler_pc
  sy_panic :: "go_panic option"
  sy_replies :: "(byte list \<times> string) list"

definition server_start :: "udp_server \<Rightarrow> server_sys" where
  "server_start s =
     \<lparr>sy_server = s, sy_buffer = replicate (nat (sint (sv_read_buffer_size s))) 0,
      sy_reader = ReaderHead, sy_idler = IdlerHead, sy_panic = None, sy_replies = []\<rparr>"

lemma server_start_simps [simp]:
  "sy_server (server_start s) = s" "sy_reader (server_start s) = ReaderHead"
  "sy_idler (server_start s) = IdlerHead" "sy_panic (server_start s) = None"
  by (simp_all add: server_start_def)

definition server_done :: "(server_sys \<Rightarrow> server_sys) \<Rightarrow> server_sys \<Rightarrow> server_sys" where
  "server_done upd sy =
     (case wg_done (sv_wait (sy_server sy)) of
        Inl p \<Rightarrow> sy\<lparr>sy_panic := Some p\<rparr>
      | Inr w \<Rightarrow> upd (sy\<lparr>sy_server := (sy_server sy)\<lparr>sv_wait := w\<rparr>\<rparr>))"

definition reader_step ::
  "codec \<Rightarrow> 'r prom \<Rightarrow> int64 \<Rightarrow> int64 \<Rightarrow> udp_read \<Rightarrow> server_sys \<Rightarrow> server_sys" where
  "reader_step cd pr now1 now2 rd sy =
     (case sy_reader sy of
        ReaderHead \<Rightarrow>
          (if sv_stop (sy_server sy) then server_done (\<lambda>sy. sy\<lparr>sy_reader := ReaderDone\<rparr>) sy
           else sy\<lparr>sy_reader := ReaderBody\<rparr>)
      | ReaderBody \<Rightarrow>
          (case server_handle cd pr now1 now2 rd (sy_buffer sy) (sy_server sy) of
             Inl p \<Rightarrow> sy\<lparr>sy_panic := Some p\<rparr>
           | Inr (buf, s, reply) \<Rightarrow>
               sy\<lparr>sy_buffer := buf, sy_server := s, sy_reader := ReaderHead,
                  sy_replies := sy_replies sy @ (case reply of None \<Rightarrow> [] | Some r \<Rightarrow> [r])\<rparr>)
      | ReaderDone \<Rightarrow> sy)"

definition idler_step :: "int64 \<Rightarrow> server_sys \<Rightarrow> server_sys" where
  "idler_step now sy =
     (case sy_idler sy of
        IdlerHead \<Rightarrow>
          (if sv_stop (sy_server sy) then server_done (\<lambda>sy. sy\<lparr>sy_idler := IdlerDone\<rparr>) sy
           else sy\<lparr>sy_idler := IdlerBody\<rparr>)
      | IdlerBody \<Rightarrow>
          sy\<lparr>sy_server := handle_idle_pass now (sy_server sy), sy_idler := IdlerHead\<rparr>
      | IdlerDone \<Rightarrow> sy)"

inductive server_step :: "codec \<Rightarrow> 'r prom \<Rightarrow> server_sys \<Rightarrow> server_sys \<Rightarrow> bool"
  for cd :: codec and pr :: "'r prom" where
  reader: "sy_panic sy = None \<Longrightarrow> sy_reader sy \<noteq> ReaderDone \<Longrightarrow>
    server_step cd pr sy (reader_step cd pr now1 now2 rd sy)"
| idler: "sy_panic sy = None \<Longrightarrow> sy_idler sy \<noteq> IdlerDone \<Longrightarrow>
    server_step cd pr sy (idler_step now sy)"

inductive_cases server_stepE: "server_step cd pr sy sy'"

text \<open>A run: the goroutines' steps, and the controller's teardown setting the flag.\<close>

inductive server_reachable :: "codec \<Rightarrow> 'r prom \<Rightarrow> udp_server \<Rightarrow> server_sys \<Rightarrow> bool"
  for cd :: codec and pr :: "'r prom" and s0 :: udp_server where
  start: "server_reachable cd pr s0 (server_start s0)"
| work: "server_reachable cd pr s0 sy \<Longrightarrow> server_step cd pr sy sy' \<Longrightarrow> server_reachable cd pr s0 sy'"
| teardown: "server_reachable cd pr s0 sy \<Longrightarrow>
    server_reachable cd pr s0 (sy\<lparr>sy_server := teardown_server_begin (sy_server sy)\<rparr>)"

subsection \<open>The invariant\<close>

definition server_running :: "server_sys \<Rightarrow> int" where
  "server_running sy = of_bool (sy_reader sy \<noteq> ReaderDone) + of_bool (sy_idler sy \<noteq> IdlerDone)"

definition server_inv :: "server_sys \<Rightarrow> bool" where
  "server_inv sy \<longleftrightarrow> clients_wf (sy_server sy) \<and> sv_wait (sy_server sy) = server_running sy"

lemma touch_client_id [server_frame]: "sv_connection (touch_client ip s) = sv_connection s"
  and set_client_id [server_frame]: "sv_connection (set_client ip ci s) = sv_connection s"
  by (simp_all add: touch_client_def set_client_def)

lemma account_packet_frame:
  "account_packet pr ip seq now s = Inr s' \<Longrightarrow>
     sv_wait s' = sv_wait s \<and> sv_stop s' = sv_stop s \<and> sv_pod_info_bytes s' = sv_pod_info_bytes s \<and>
     sv_msg_header_length s' = sv_msg_header_length s \<and> sv_connection s' = sv_connection s"
  by (auto simp: account_packet_def Let_def count_missing_def bindS_def server_frame
      split: if_splits sum.splits)

lemma server_handle_cases:
  assumes "server_handle cd pr now1 now2 rd buf s = Inr (buf', s', out)"
  obtains "s' = s" "out = None"
  | ip q where "account_packet pr ip q now2 s = Inr s'"
  using assms
  by (auto simp: server_handle_def server_reply_def Let_def bindS_def
      split: udp_read.splits if_splits sum.splits prod.splits option.splits)

lemma server_handle_length:
  "server_handle cd pr now1 now2 rd buf s = Inr (buf', s', out) \<Longrightarrow> length buf' = length buf"
  by (auto simp: server_handle_def server_reply_def Let_def bindS_def
      dest!: length_go_copy_from
      split: udp_read.splits if_splits sum.splits prod.splits option.splits)

lemma server_handle_inv:
  assumes "server_handle cd pr now1 now2 rd buf s = Inr (buf', s', out)"
    and "add_panics_on_negative pr" and "clients_wf s"
  shows "clients_wf s' \<and> sv_wait s' = sv_wait s \<and> sv_stop s' = sv_stop s"
  using assms(1)
proof (cases rule: server_handle_cases)
  case 1
  then show ?thesis using assms(3) by simp
next
  case (2 ip q)
  then show ?thesis
    using account_packet_refines [OF assms(3,2), of ip q now2] account_packet_frame [OF 2] by auto
qed

lemma idle_pass_frame:
  "sv_wait (handle_idle_pass now s) = sv_wait s" "sv_stop (handle_idle_pass now s) = sv_stop s"
  by (simp_all add: handle_idle_pass_def, (subst evict_fold_truncate, simp)+)

lemma server_done_pos:
  "0 < sv_wait (sy_server sy) \<Longrightarrow> server_done upd sy =
     upd (sy\<lparr>sy_server := (sy_server sy)\<lparr>sv_wait := sv_wait (sy_server sy) - 1\<rparr>\<rparr>)"
  by (simp add: server_done_def wg_done_pos)

lemma clients_wf_flags [simp]:
  "clients_wf (s\<lparr>sv_wait := w\<rparr>) = clients_wf s" "clients_wf (s\<lparr>sv_stop := b\<rparr>) = clients_wf s"
  by (simp_all add: clients_wf_def)

lemma reader_step_inv:
  assumes "server_inv sy" and "add_panics_on_negative pr" and "sy_reader sy \<noteq> ReaderDone"
  shows "server_inv (reader_step cd pr now1 now2 rd sy) \<and>
    sv_stop (sy_server (reader_step cd pr now1 now2 rd sy)) = sv_stop (sy_server sy)"
proof (cases "sy_reader sy")
  case ReaderHead
  then have "0 < sv_wait (sy_server sy)"
    using assms(1) by (simp add: server_inv_def server_running_def)
  then show ?thesis
    using assms(1) ReaderHead
    by (simp add: reader_step_def server_done_pos server_inv_def server_running_def)
next
  case ReaderBody
  show ?thesis
  proof (cases "server_handle cd pr now1 now2 rd (sy_buffer sy) (sy_server sy)")
    case (Inl p)
    then show ?thesis
      using assms(1) ReaderBody by (simp add: reader_step_def server_inv_def server_running_def)
  next
    case (Inr res)
    obtain buf s out where res: "res = (buf, s, out)" by (cases res)
    have "clients_wf (sy_server sy)" using assms(1) by (simp add: server_inv_def)
    then have "clients_wf s \<and> sv_wait s = sv_wait (sy_server sy) \<and> sv_stop s = sv_stop (sy_server sy)"
      using server_handle_inv [OF _ assms(2)] Inr res by blast
    then show ?thesis
      using assms(1) ReaderBody Inr res
      by (simp add: reader_step_def server_inv_def server_running_def)
  qed
next
  case ReaderDone
  then show ?thesis using assms(3) by simp
qed

lemma idler_step_inv:
  assumes "server_inv sy" and "sy_idler sy \<noteq> IdlerDone"
  shows "server_inv (idler_step now sy) \<and>
    sv_stop (sy_server (idler_step now sy)) = sv_stop (sy_server sy)"
proof (cases "sy_idler sy")
  case IdlerHead
  then have "0 < sv_wait (sy_server sy)"
    using assms(1) by (simp add: server_inv_def server_running_def)
  then show ?thesis
    using assms(1) IdlerHead
    by (simp add: idler_step_def server_done_pos server_inv_def server_running_def)
next
  case IdlerBody
  then show ?thesis
    using assms(1)
    by (simp add: idler_step_def server_inv_def server_running_def idle_pass_wf idle_pass_frame)
next
  case IdlerDone
  then show ?thesis using assms(2) by simp
qed

lemma server_step_inv:
  assumes "server_step cd pr sy sy'" and "add_panics_on_negative pr" and "server_inv sy"
  shows "server_inv sy' \<and> sv_stop (sy_server sy') = sv_stop (sy_server sy)"
  using assms(1)
proof (cases rule: server_step.cases)
  case (reader now1 now2 rd)
  then show ?thesis using reader_step_inv [OF assms(3,2)] by blast
next
  case (idler now)
  then show ?thesis using idler_step_inv [OF assms(3)] by blast
qed

lemma server_start_inv: "clients_wf s \<Longrightarrow> sv_wait s = 2 \<Longrightarrow> server_inv (server_start s)"
  by (simp add: server_inv_def server_running_def server_start_def)

lemma teardown_begin_inv:
  "server_inv sy \<Longrightarrow> server_inv (sy\<lparr>sy_server := teardown_server_begin (sy_server sy)\<rparr>)"
  by (simp add: server_inv_def teardown_server_begin_def server_running_def)

lemma server_reachable_inv:
  assumes "server_reachable cd pr s0 sy" and "add_panics_on_negative pr"
    and "clients_wf s0" and "sv_wait s0 = 2"
  shows "server_inv sy"
  using assms(1)
proof (induction rule: server_reachable.induct)
  case start
  show ?case using assms by (intro server_start_inv)
next
  case (work sy sy')
  then show ?case using server_step_inv assms(2) by blast
next
  case (teardown sy)
  then show ?case by (simp only: teardown_begin_inv)
qed

subsection \<open>Shutdown\<close>

definition server_rank :: "server_sys \<Rightarrow> nat" where
  "server_rank sy =
     (case sy_panic sy of Some _ \<Rightarrow> 0 | None \<Rightarrow>
       (case sy_reader sy of ReaderBody \<Rightarrow> 2 | ReaderHead \<Rightarrow> 1 | ReaderDone \<Rightarrow> 0) +
       (case sy_idler sy of IdlerBody \<Rightarrow> 2 | IdlerHead \<Rightarrow> 1 | IdlerDone \<Rightarrow> 0))"

definition server_finished :: "server_sys \<Rightarrow> bool" where
  "server_finished sy \<longleftrightarrow> sy_panic sy \<noteq> None \<or> sv_wait (sy_server sy) = 0"

lemma reader_step_rank:
  assumes "server_inv sy" and "sv_stop (sy_server sy)" and "sy_panic sy = None"
    and "sy_reader sy \<noteq> ReaderDone"
  shows "server_rank (reader_step cd pr now1 now2 rd sy) < server_rank sy"
proof (cases "sy_reader sy")
  case ReaderHead
  then have "0 < sv_wait (sy_server sy)"
    using assms(1) by (simp add: server_inv_def server_running_def)
  then show ?thesis
    using assms ReaderHead by (simp add: reader_step_def server_done_pos server_rank_def)
qed (use assms in \<open>auto simp: reader_step_def server_rank_def split: sum.splits prod.splits\<close>)

lemma idler_step_rank:
  assumes "server_inv sy" and "sv_stop (sy_server sy)" and "sy_panic sy = None"
    and "sy_idler sy \<noteq> IdlerDone"
  shows "server_rank (idler_step now sy) < server_rank sy"
proof (cases "sy_idler sy")
  case IdlerHead
  then have "0 < sv_wait (sy_server sy)"
    using assms(1) by (simp add: server_inv_def server_running_def)
  then show ?thesis
    using assms IdlerHead by (simp add: idler_step_def server_done_pos server_rank_def)
qed (use assms in \<open>auto simp: idler_step_def server_rank_def\<close>)

lemma server_stuck_finished:
  assumes "server_inv sy" and "\<And>sy'. \<not> server_step cd pr sy sy'"
  shows "server_finished sy"
proof (rule ccontr)
  assume "\<not> server_finished sy"
  then have np: "sy_panic sy = None" and "sv_wait (sy_server sy) \<noteq> 0"
    by (simp_all add: server_finished_def)
  then have "sy_reader sy \<noteq> ReaderDone \<or> sy_idler sy \<noteq> IdlerDone"
    using assms(1) by (auto simp: server_inv_def server_running_def)
  then show False
    using assms(2) np server_step.reader [of sy cd pr] server_step.idler [of sy cd pr] by blast
qed

text \<open>
  The server keeps the shutdown contract.  The contract's laws are stated for a registry
  whose counters refuse negative amounts, so the step relation is restricted to that case.
\<close>

definition server_work :: "codec \<Rightarrow> 'r prom \<Rightarrow> server_sys \<Rightarrow> server_sys \<Rightarrow> bool" where
  "server_work cd pr sy sy' \<longleftrightarrow> add_panics_on_negative pr \<and> server_step cd pr sy sy'"

definition server_stuck_inv :: "'r prom \<Rightarrow> server_sys \<Rightarrow> bool" where
  "server_stuck_inv pr sy \<longleftrightarrow> add_panics_on_negative pr \<and> server_inv sy"

interpretation server_group: worker_group "server_work cd pr" "server_stuck_inv pr"
  "\<lambda>sy. sv_stop (sy_server sy)" server_finished server_rank
  for cd :: codec and pr :: "'r prom"
proof unfold_locales
  fix s t
  assume "server_stuck_inv pr s" "server_work cd pr s t"
  then show "server_stuck_inv pr t"
    using server_step_inv by (auto simp: server_stuck_inv_def server_work_def)
next
  fix s t
  assume "server_stuck_inv pr s" "sv_stop (sy_server s)" "server_work cd pr s t"
  then show "sv_stop (sy_server t)"
    using server_step_inv by (auto simp: server_stuck_inv_def server_work_def)
next
  fix s t
  assume *: "server_stuck_inv pr s" "sv_stop (sy_server s)" "server_work cd pr s t"
  then have "server_step cd pr s t" "server_inv s" by (auto simp: server_stuck_inv_def server_work_def)
  then show "server_rank t < server_rank s"
    using *(2) by (cases rule: server_step.cases) (auto intro: reader_step_rank idler_step_rank)
next
  fix s
  assume "server_stuck_inv pr s" "\<And>t. \<not> server_work cd pr s t"
  then show "server_finished s"
    using server_stuck_finished by (auto simp: server_stuck_inv_def server_work_def)
qed

lemma server_run_work:
  "add_panics_on_negative pr \<Longrightarrow> server_work cd pr = server_step cd pr"
  by (intro ext) (simp add: server_work_def)

lemma server_rank_bound: "server_rank sy \<le> 4"
  by (auto simp: server_rank_def split: option.splits reader_pc.splits idler_pc.splits)

text \<open>
  C21: in every state the server can reach, whatever packets arrive and however its
  goroutines interleave, the active-streams gauge is the number of clients on record, the
  clients' keys are distinct, and the wait group counts the goroutines still running.
\<close>

theorem server_gauge_counts_clients:
  assumes "server_reachable cd pr s0 sy" and "add_panics_on_negative pr"
    and "clients_wf s0" and "sv_wait s0 = 2"
  shows "mt_total (sv_active_client_streams (sy_server sy)) =
      int (length (sv_active_clients (sy_server sy))) \<and>
    distinct (keys (sv_active_clients (sy_server sy))) \<and>
    sv_wait (sy_server sy) = server_running sy"
  using server_reachable_inv [OF assms] by (simp add: server_inv_def clients_wf_def)

text \<open>
  C22: once the stop flag of a reachable server is set, every schedule of its goroutines
  ends within four steps, and when none can move the wait group is at zero (or a packet
  ended the process): the wait in \<open>TearDownServer\<close> returns.
\<close>

theorem server_shutdown_terminates:
  assumes "server_reachable cd pr s0 sy" and "add_panics_on_negative pr"
    and "clients_wf s0" and "sv_wait s0 = 2" and "sv_stop (sy_server sy)"
  shows "(\<forall>n t. (server_step cd pr ^^ n) sy t \<longrightarrow>
      n \<le> 4 \<and> ((\<forall>u. \<not> server_step cd pr t u) \<longrightarrow> server_finished t)) \<and>
    (\<exists>n t. (server_step cd pr ^^ n) sy t \<and> server_finished t)"
proof -
  have inv: "server_stuck_inv pr sy"
    using server_reachable_inv [OF assms(1-4)] assms(2) by (simp add: server_stuck_inv_def)
  note work = server_run_work [OF assms(2), of cd]
  have "n \<le> 4" if "(server_step cd pr ^^ n) sy t" for n t
    using server_group.run_bounded [where cd = cd and pr = pr and n = n and s = sy and t = t] that inv assms(5) server_rank_bound [of sy]
    by (simp add: work)
  moreover have "server_finished t"
    if "(server_step cd pr ^^ n) sy t" "\<forall>u. \<not> server_step cd pr t u" for n t
    using server_group.run_ends_finished [where cd = cd and pr = pr and n = n and s = sy and t = t] that inv assms(5) by (simp add: work)
  moreover have "\<exists>n t. (server_step cd pr ^^ n) sy t \<and> server_finished t"
    using server_group.shutdown_possible [OF inv assms(5), where cd = cd] by (auto simp: work)
  ultimately show ?thesis by blast
qed

lemma sample_clients_wf [simp]: "clients_wf sample_clients" "sv_wait sample_clients = 2"
  by (simp_all add: clients_wf_def sample_clients_def) (simp add: sample_server_def)

definition sample_after_idle :: server_sys where
  "sample_after_idle = idler_step 100000000 (idler_step 0 (server_start sample_clients))"

lemma sample_after_idle_reachable:
  "server_reachable bit_codec list_prom sample_clients sample_after_idle"
proof -
  let ?s0 = "server_start sample_clients" and ?s1 = "idler_step 0 (server_start sample_clients)"
  have run: "\<not> sv_stop sample_clients" by (simp add: sample_clients_def sample_server_def)
  have "server_reachable bit_codec list_prom sample_clients ?s1"
    by (rule server_reachable.work [OF server_reachable.start], rule server_step.idler)
      simp_all
  moreover have "server_step bit_codec list_prom ?s1 sample_after_idle"
    unfolding sample_after_idle_def
    by (rule server_step.idler) (simp_all add: idler_step_def run)
  ultimately show ?thesis by (rule server_reachable.work)
qed

lemma sample_after_idle_clients:
  "keys (sv_active_clients (sy_server sample_after_idle)) = [''10.0.0.2'']"
proof -
  have run: "\<not> sv_stop sample_clients" by (simp add: sample_clients_def sample_server_def)
  show ?thesis
    by (simp add: sample_after_idle_def idler_step_def run)
      (simp add: handle_idle_pass_def sample_clients_def evict_idle_def is_idle_def
        connection_timeout_value)
qed

theorem server_gauge_counts_clients_witness:
  "mt_total (sv_active_client_streams (sy_server sample_after_idle)) = 1"
proof -
  have "length (keys (sv_active_clients (sy_server sample_after_idle))) = 1"
    by (simp only: sample_after_idle_clients) simp
  then show ?thesis
    using server_gauge_counts_clients [OF sample_after_idle_reachable list_prom_add
        sample_clients_wf] by simp
qed

definition sample_stopped :: server_sys where
  "sample_stopped = (server_start sample_clients)
     \<lparr>sy_server := teardown_server_begin (sy_server (server_start sample_clients))\<rparr>"

theorem server_shutdown_terminates_witness:
  "\<exists>n t. (server_step bit_codec list_prom ^^ n) sample_stopped t \<and> server_finished t"
proof -
  have "server_reachable bit_codec list_prom sample_clients sample_stopped"
    unfolding sample_stopped_def by (rule server_reachable.teardown [OF server_reachable.start])
  moreover have "sv_stop (sy_server sample_stopped)"
    by (simp add: sample_stopped_def teardown_server_begin_def
        sample_clients_def sample_server_def)
  ultimately show ?thesis
    using server_shutdown_terminates [OF _ list_prom_add sample_clients_wf] by blast
qed

end
