(* ===== verification/TgenConfig.thy ===== *)
theory TgenConfig
  imports Tapp
begin

section \<open>The UDP client module's configuration (\<open>pkg/tgen/udp.go\<close>)\<close>

text \<open>
  The settings of the traffic generator and \<open>LoadBatProfileConfig\<close>, which writes them in
  place.  Every running stream shares this record with the module, so what a load leaves
  behind, also one that fails, is what the streams read next.
\<close>

record tgen_config =
  socket_read_buf_size :: int64
  send_rate :: int64
  packet_size :: int64
  packet_timeout :: int64
  redial_timeout :: int64
  suspend_traffic :: bool

definition tgen_initial_config :: tgen_config where
  "tgen_initial_config =
     \<lparr>socket_read_buf_size = 0, send_rate = 500, packet_size = 1000, packet_timeout = 5,
      redial_timeout = 5, suspend_traffic = False\<rparr>"

definition tgen_udp_steps ::
  "(string \<rightharpoonup> string) \<Rightarrow> (tgen_config \<Rightarrow> tgen_config \<times> go_error option) list" where
  "tgen_udp_steps entry =
     [load_int_default entry ''socket-read-buf-size''
        ''parsing udp-socket-read-buf-size failed: err ''
        (\<lambda>n c. c\<lparr>socket_read_buf_size := n\<rparr>) (512 * 1024),
      load_int entry ''send-rate'' ''parsing udp-send-rate failed: err ''
        (\<lambda>n c. c\<lparr>send_rate := n\<rparr>),
      load_int entry ''packet-size'' ''parsing udp-packet-size failed: err ''
        (\<lambda>n c. c\<lparr>packet_size := n\<rparr>),
      load_int entry ''packet-timeout'' ''parsing udp-packet-timeout failed: err ''
        (\<lambda>n c. c\<lparr>packet_timeout := n\<rparr>),
      load_int entry ''redial-timeout'' ''parsing udp-redial-period failed: err ''
        (\<lambda>n c. c\<lparr>redial_timeout := n\<rparr>)]"

definition tgen_load_profile ::
  "profile option \<Rightarrow> tgen_config \<Rightarrow> tgen_config \<times> go_error option" where
  "tgen_load_profile pm c =
     (case pm of
        None \<Rightarrow> (c, Some (GoError ''error parsing the udp profile config map data''))
      | Some m \<Rightarrow>
          seq_steps
            (load_suspend m (\<lambda>b c. c\<lparr>suspend_traffic := b\<rparr>) #
             (case m udp_protocol_str of None \<Rightarrow> [] | Some entry \<Rightarrow> tgen_udp_steps entry)) c)"

text \<open>A profile that mentions every setting of the client.\<close>

definition tgen_covers :: "profile \<Rightarrow> bool" where
  "tgen_covers p \<longleftrightarrow>
     (\<exists>e. p ''common'' = Some e \<and> (\<exists>v b. e ''suspend-traffic'' = Some v \<and> parse_bool v = Inr b)) \<and>
     (\<exists>e. p udp_protocol_str = Some e \<and>
       (\<forall>k \<in> {''socket-read-buf-size'', ''send-rate'', ''packet-size'', ''packet-timeout'',
               ''redial-timeout''}. \<exists>v n. e k = Some v \<and> go_atoi v = Inr n))"

lemmas tgen_load_defs = tgen_load_profile_def tgen_udp_steps_def loader_defs Let_def

text \<open>A successful load in closed form: what the profile gives, or what was there.\<close>

definition profile_int :: "(string \<rightharpoonup> string) \<Rightarrow> string \<Rightarrow> int64 \<Rightarrow> int64" where
  "profile_int e k d = (case e k of None \<Rightarrow> d | Some v \<Rightarrow> fst (parse_int_value v))"

definition int_ok :: "(string \<rightharpoonup> string) \<Rightarrow> string \<Rightarrow> bool" where
  "int_ok e k \<longleftrightarrow> (\<forall>v. e k = Some v \<longrightarrow> snd (parse_int_value v) = None)"

lemma load_int_iff:
  "load_int e k msg upd c = (c', None) \<longleftrightarrow>
     int_ok e k \<and> c' = (case e k of None \<Rightarrow> c | Some v \<Rightarrow> upd (fst (parse_int_value v)) c)"
  by (auto simp: load_int_def int_ok_def split: option.splits prod.splits)

lemma load_int_default_iff:
  "load_int_default e k msg upd d c = (c', None) \<longleftrightarrow> int_ok e k \<and> c' = upd (profile_int e k d) c"
  by (auto simp: load_int_default_def profile_int_def int_ok_def split: option.splits prod.splits)

lemma seq_steps_ok_Cons:
  "seq_steps (f # fs) c = (c', None) \<longleftrightarrow> (\<exists>d. f c = (d, None) \<and> seq_steps fs d = (c', None))"
  by (auto split: prod.splits option.splits)

lemma profile_int_case:
  "(case e k of None \<Rightarrow> c | Some v \<Rightarrow> c\<lparr>send_rate := fst (parse_int_value v)\<rparr>) =
     c\<lparr>send_rate := profile_int e k (send_rate c)\<rparr>"
  "(case e k of None \<Rightarrow> c | Some v \<Rightarrow> c\<lparr>packet_size := fst (parse_int_value v)\<rparr>) =
     c\<lparr>packet_size := profile_int e k (packet_size c)\<rparr>"
  "(case e k of None \<Rightarrow> c | Some v \<Rightarrow> c\<lparr>packet_timeout := fst (parse_int_value v)\<rparr>) =
     c\<lparr>packet_timeout := profile_int e k (packet_timeout c)\<rparr>"
  "(case e k of None \<Rightarrow> c | Some v \<Rightarrow> c\<lparr>redial_timeout := fst (parse_int_value v)\<rparr>) =
     c\<lparr>redial_timeout := profile_int e k (redial_timeout c)\<rparr>"
  for c :: tgen_config
  by (simp_all add: profile_int_def split: option.splits)

definition udp_ok :: "(string \<rightharpoonup> string) \<Rightarrow> bool" where
  "udp_ok e \<longleftrightarrow> int_ok e ''socket-read-buf-size'' \<and> int_ok e ''send-rate'' \<and> int_ok e ''packet-size'' \<and>
     int_ok e ''packet-timeout'' \<and> int_ok e ''redial-timeout''"

definition udp_applied :: "(string \<rightharpoonup> string) \<Rightarrow> tgen_config \<Rightarrow> tgen_config" where
  "udp_applied e c =
     c\<lparr>socket_read_buf_size := profile_int e ''socket-read-buf-size'' (512 * 1024),
       send_rate := profile_int e ''send-rate'' (send_rate c),
       packet_size := profile_int e ''packet-size'' (packet_size c),
       packet_timeout := profile_int e ''packet-timeout'' (packet_timeout c),
       redial_timeout := profile_int e ''redial-timeout'' (redial_timeout c)\<rparr>"

lemma tgen_udp_steps_iff:
  "seq_steps (tgen_udp_steps e) c = (c', None) \<longleftrightarrow> udp_ok e \<and> c' = udp_applied e c"
  unfolding tgen_udp_steps_def seq_steps_ok_Cons load_int_iff load_int_default_iff
    profile_int_case udp_ok_def udp_applied_def
  by auto

lemma profile_int_idem [simp]: "profile_int e k (profile_int e k d) = profile_int e k d"
  by (simp add: profile_int_def split: option.splits)

lemma udp_applied_idem [simp]: "udp_applied e (udp_applied e c) = udp_applied e c"
  by (simp add: udp_applied_def)

definition suspend_ok :: "profile \<Rightarrow> bool" where
  "suspend_ok p \<longleftrightarrow> (\<forall>e v. p ''common'' = Some e \<longrightarrow> e ''suspend-traffic'' = Some v \<longrightarrow>
     (\<exists>b. parse_bool v = Inr b))"

definition profile_suspend :: "profile \<Rightarrow> bool \<Rightarrow> bool" where
  "profile_suspend p d =
     (case p ''common'' of None \<Rightarrow> d
      | Some e \<Rightarrow> (case e ''suspend-traffic'' of None \<Rightarrow> d
        | Some v \<Rightarrow> fst (or_default False (parse_bool v))))"

lemma load_suspend_iff:
  "load_suspend p (\<lambda>b c. c\<lparr>suspend_traffic := b\<rparr>) c = (c', None) \<longleftrightarrow>
     suspend_ok p \<and> c' = c\<lparr>suspend_traffic := profile_suspend p (suspend_traffic c)\<rparr>"
  for c :: tgen_config
  by (auto simp: load_suspend_def suspend_ok_def profile_suspend_def or_default_def Let_def
      split: option.splits prod.splits sum.splits)

definition profile_applied :: "profile \<Rightarrow> tgen_config \<Rightarrow> tgen_config" where
  "profile_applied p c =
     (let c1 = c\<lparr>suspend_traffic := profile_suspend p (suspend_traffic c)\<rparr>
      in case p udp_protocol_str of None \<Rightarrow> c1 | Some e \<Rightarrow> udp_applied e c1)"

definition profile_ok :: "profile \<Rightarrow> bool" where
  "profile_ok p \<longleftrightarrow> suspend_ok p \<and> (\<forall>e. p udp_protocol_str = Some e \<longrightarrow> udp_ok e)"

lemma tgen_load_iff:
  "tgen_load_profile (Some p) c = (c', None) \<longleftrightarrow> profile_ok p \<and> c' = profile_applied p c"
proof (cases "p udp_protocol_str")
  case None
  then show ?thesis
    by (auto simp: tgen_load_profile_def seq_steps_ok_Cons load_suspend_iff profile_ok_def
        profile_applied_def simp del: seq_steps.simps(2))
next
  case (Some e)
  then show ?thesis
    by (auto simp: tgen_load_profile_def seq_steps_ok_Cons load_suspend_iff profile_ok_def
        profile_applied_def tgen_udp_steps_iff simp del: seq_steps.simps(2))
qed

lemma profile_suspend_idem [simp]: "profile_suspend p (profile_suspend p d) = profile_suspend p d"
  by (simp add: profile_suspend_def split: option.splits)

lemma profile_applied_idem: "profile_applied p (profile_applied p c) = profile_applied p c"
  by (cases c) (simp add: profile_applied_def udp_applied_def Let_def split: option.splits)

lemma profile_int_covered: "e k = Some v \<Longrightarrow> profile_int e k d = profile_int e k d'"
  by (simp add: profile_int_def)

lemma tgen_covers_ok: "tgen_covers p \<Longrightarrow> profile_ok p"
  by (auto simp: tgen_covers_def profile_ok_def suspend_ok_def udp_ok_def int_ok_def
      parse_int_value_def)

lemma tgen_covers_applied:
  assumes "tgen_covers p"
  shows "profile_applied p c = profile_applied p c'"
proof -
  from assms obtain e ce where e: "p udp_protocol_str = Some e" "p ''common'' = Some ce"
    "ce ''suspend-traffic'' \<noteq> None" "e ''socket-read-buf-size'' \<noteq> None" "e ''send-rate'' \<noteq> None"
    "e ''packet-size'' \<noteq> None" "e ''packet-timeout'' \<noteq> None" "e ''redial-timeout'' \<noteq> None"
    unfolding tgen_covers_def by auto
  then show ?thesis
    by (cases c; cases c')
      (auto simp: profile_applied_def udp_applied_def profile_int_def profile_suspend_def Let_def)
qed

interpretation tgen_loader: profile_loader tgen_load_profile tgen_covers
proof unfold_locales
  fix c :: tgen_config
  show "\<exists>e. tgen_load_profile None c = (c, Some e)"
    by (simp add: tgen_load_profile_def)
next
  fix p and c c' :: tgen_config
  assume "tgen_load_profile (Some p) c = (c', None)"
  then show "tgen_load_profile (Some p) c' = (c', None)"
    by (auto simp: tgen_load_iff profile_applied_idem)
next
  fix p and c c' :: tgen_config
  assume p: "tgen_covers p"
  have "tgen_load_profile (Some p) d = (profile_applied p d, None)" for d
    using tgen_covers_ok [OF p] tgen_load_iff by blast
  then show "tgen_load_profile (Some p) c = tgen_load_profile (Some p) c'"
    using tgen_covers_applied [OF p, of c c'] by simp
qed

subsection \<open>What the client module promises\<close>


text \<open>
  Whatever profiles were loaded before, with whatever errors, loading one that
  mentions every setting and parses gives the same configuration as loading it first.
\<close>

theorem tgen_complete_profile_recovers:
  assumes "tgen_covers p"
  shows "tgen_load_profile (Some p) (fold (\<lambda>q c. fst (tgen_load_profile q c)) history c) =
    tgen_load_profile (Some p) c"
  using tgen_loader.last_covering_load_wins [OF assms, of history c]
  by (simp add: tgen_loader.after_history_def)

definition sample_profile :: "string \<Rightarrow> profile" where
  "sample_profile rate =
     [''common'' \<mapsto> [''suspend-traffic'' \<mapsto> ''false''],
      ''udp'' \<mapsto> [''send-rate'' \<mapsto> rate, ''socket-read-buf-size'' \<mapsto> ''524288'',
                ''packet-size'' \<mapsto> ''1000'', ''packet-timeout'' \<mapsto> ''5'', ''redial-timeout'' \<mapsto> ''5'']]"

lemma sample_atoi [simp]:
  "go_atoi ''524288'' = Inr 524288" "go_atoi ''1000'' = Inr 1000" "go_atoi ''5'' = Inr 5"
  "go_atoi ''500'' = Inr 500"
  by (simp_all add: go_atoi_def digit_val_def atoi_range_def minInt64_def maxInt64_def)

lemma sample_profile_covers [simp]: "tgen_covers (sample_profile ''500'')"
  by (auto simp: tgen_covers_def sample_profile_def udp_protocol_str_def parse_bool_def
      intro: exI [of _ False])

theorem tgen_complete_profile_recovers_witness:
  "tgen_load_profile (Some (sample_profile ''500''))
     (fst (tgen_load_profile (Some (sample_profile ''x'')) tgen_initial_config)) =
   tgen_load_profile (Some (sample_profile ''500'')) tgen_initial_config"
  using tgen_complete_profile_recovers [OF sample_profile_covers,
      of "[Some (sample_profile ''x'')]" tgen_initial_config]
  by simp

text \<open>
  A profile whose send rate is not an integer is refused, but the running
  configuration is already changed: the send rate has become \<open>-1\<close>.
\<close>

theorem invalid_send_rate_is_written:
  assumes "p udp_protocol_str = Some e" and "suspend_ok p" and "int_ok e ''socket-read-buf-size''"
    and "e ''send-rate'' = Some v" and "go_atoi v = Inl err"
  shows "\<exists>c' msg. tgen_load_profile (Some p) c = (c', Some msg) \<and> send_rate c' = -1 \<and>
    packet_size c' = packet_size c \<and> packet_timeout c' = packet_timeout c \<and>
    redial_timeout c' = redial_timeout c"
proof -
  let ?c1 = "c\<lparr>suspend_traffic := profile_suspend p (suspend_traffic c)\<rparr>"
  let ?c2 = "?c1\<lparr>socket_read_buf_size := profile_int e ''socket-read-buf-size'' (512 * 1024)\<rparr>"
  have s1: "load_suspend p (\<lambda>b c. c\<lparr>suspend_traffic := b\<rparr>) c = (?c1, None)"
    using assms(2) by (simp only: load_suspend_iff simp_thms)
  have s2: "load_int_default e ''socket-read-buf-size'' ''parsing udp-socket-read-buf-size failed: err ''
      (\<lambda>n c. c\<lparr>socket_read_buf_size := n\<rparr>) (512 * 1024) ?c1 = (?c2, None)"
    using assms(3) by (simp only: load_int_default_iff simp_thms)
  have s3: "load_int e ''send-rate'' ''parsing udp-send-rate failed: err ''
      (\<lambda>n c. c\<lparr>send_rate := n\<rparr>) ?c2 =
      (?c2\<lparr>send_rate := -1\<rparr>, Some (wrap_error ''parsing udp-send-rate failed: err '' err))"
    using assms(4,5) by (simp add: load_int_def parse_int_value_def)
  have "tgen_load_profile (Some p) c =
      (?c2\<lparr>send_rate := -1\<rparr>, Some (wrap_error ''parsing udp-send-rate failed: err '' err))"
    by (simp only: tgen_load_profile_def assms(1) option.case prod.case tgen_udp_steps_def
        seq_steps.simps s1 s2 s3)
  then show ?thesis by simp
qed

theorem invalid_send_rate_is_written_witness:
  "\<exists>c' msg. tgen_load_profile (Some (sample_profile ''fast'')) tgen_initial_config = (c', Some msg) \<and>
    send_rate c' = -1 \<and> packet_size c' = 1000"
proof -
  let ?e = "[''send-rate'' \<mapsto> ''fast'', ''socket-read-buf-size'' \<mapsto> ''524288'',
      ''packet-size'' \<mapsto> ''1000'', ''packet-timeout'' \<mapsto> ''5'', ''redial-timeout'' \<mapsto> ''5'']"
  have e: "sample_profile ''fast'' udp_protocol_str = Some ?e"
    by (simp add: sample_profile_def udp_protocol_str_def)
  have su: "suspend_ok (sample_profile ''fast'')"
    by (auto simp: suspend_ok_def sample_profile_def parse_bool_def intro: exI [of _ False])
  have ok: "int_ok ?e ''socket-read-buf-size''"
    by (simp add: int_ok_def parse_int_value_def)
  have v: "?e ''send-rate'' = Some ''fast''" by simp
  obtain err where err: "go_atoi ''fast'' = Inl err"
    by (simp add: go_atoi_def digit_val_def)
  have "packet_size tgen_initial_config = 1000" by (simp add: tgen_initial_config_def)
  then show ?thesis
    using invalid_send_rate_is_written [OF e su ok v err, of tgen_initial_config] by auto
qed

end
