(* ===== verification/GoJson.thy ===== *)
theory GoJson
  imports GoStrings
begin

section \<open>\<open>encoding/json\<close>\<close>

text \<open>
  The reader and the writer of \<open>encoding/json\<close>, as far as the sources use them: the check of
  the syntax (numbers, escapes, literals, the nesting limit), the decoding of string
  literals, and the writer of strings.  As there, the text is first scanned as a whole, a
  literal at a time, by a machine that looks at each byte once, and the tokens are checked by
  a machine with a stack.  Text is valid UTF-8; a byte that is not is kept here, where the
  library would put the replacement character.
\<close>

subsection \<open>Tokens\<close>

datatype jtoken = TLBrace | TRBrace | TLBrack | TRBrack | TColon | TComma
  | TStr string \<comment> \<open>what stands between the quotes\<close>
  | TNum | TTrue | TFalse | TNull

datatype num_state = NumNeg | NumZero | NumInt | NumDot | NumFrac | NumE | NumSign | NumExp

text \<open>
  The scanner between two bytes: between tokens, inside a string (read so far, in reverse),
  after its backslash, with some digits of a code to come, inside a number, or inside a
  literal name of which some bytes are to come.
\<close>

datatype lex_state = LxNone | LxStr string | LxEsc string | LxHex string nat | LxNum num_state
  | LxLit string jtoken

definition is_digit :: "char \<Rightarrow> bool" where
  "is_digit c \<longleftrightarrow> digit_val c \<noteq> None"

definition num_next :: "num_state \<Rightarrow> char \<Rightarrow> num_state option" where
  "num_next st c =
     (case st of
        NumNeg \<Rightarrow> if c = CHR ''0'' then Some NumZero else if is_digit c then Some NumInt else None
      | NumZero \<Rightarrow> if c = CHR ''.'' then Some NumDot
                   else if c = CHR ''e'' \<or> c = CHR ''E'' then Some NumE else None
      | NumInt \<Rightarrow> if is_digit c then Some NumInt else if c = CHR ''.'' then Some NumDot
                  else if c = CHR ''e'' \<or> c = CHR ''E'' then Some NumE else None
      | NumDot \<Rightarrow> if is_digit c then Some NumFrac else None
      | NumFrac \<Rightarrow> if is_digit c then Some NumFrac
                   else if c = CHR ''e'' \<or> c = CHR ''E'' then Some NumE else None
      | NumE \<Rightarrow> if c = CHR ''+'' \<or> c = CHR ''-'' then Some NumSign
                else if is_digit c then Some NumExp else None
      | NumSign \<Rightarrow> if is_digit c then Some NumExp else None
      | NumExp \<Rightarrow> if is_digit c then Some NumExp else None)"

definition num_final :: "num_state \<Rightarrow> bool" where
  "num_final st \<longleftrightarrow> st \<in> {NumZero, NumInt, NumFrac, NumExp}"

definition json_space :: "char \<Rightarrow> bool" where
  "json_space c \<longleftrightarrow> c \<in> {CHR 0x20, CHR 0x09, CHR 0x0A, CHR 0x0D}"

text \<open>The first byte of a token.\<close>

definition lex_start :: "char \<Rightarrow> (jtoken list \<times> lex_state) option" where
  "lex_start c =
     (if json_space c then Some ([], LxNone)
      else if c = CHR 0x7B then Some ([TLBrace], LxNone)
      else if c = CHR 0x7D then Some ([TRBrace], LxNone)
      else if c = CHR 0x5B then Some ([TLBrack], LxNone)
      else if c = CHR 0x5D then Some ([TRBrack], LxNone)
      else if c = CHR 0x3A then Some ([TColon], LxNone)
      else if c = CHR 0x2C then Some ([TComma], LxNone)
      else if c = CHR 0x22 then Some ([], LxStr [])
      else if c = CHR ''-'' then Some ([], LxNum NumNeg)
      else if c = CHR ''0'' then Some ([], LxNum NumZero)
      else if is_digit c then Some ([], LxNum NumInt)
      else if c = CHR ''t'' then Some ([], LxLit ''rue'' TTrue)
      else if c = CHR ''f'' then Some ([], LxLit ''alse'' TFalse)
      else if c = CHR ''n'' then Some ([], LxLit ''ull'' TNull)
      else None)"

definition lex_step :: "lex_state \<Rightarrow> char \<Rightarrow> (jtoken list \<times> lex_state) option" where
  "lex_step st c =
     (case st of
        LxNone \<Rightarrow> lex_start c
      | LxStr acc \<Rightarrow>
          if c = CHR 0x22 then Some ([TStr (rev acc)], LxNone)
          else if c = CHR 0x5C then Some ([], LxEsc (c # acc))
          else if of_char c < (32 :: nat) then None
          else Some ([], LxStr (c # acc))
      | LxEsc acc \<Rightarrow>
          if c \<in> {CHR ''b'', CHR ''f'', CHR ''n'', CHR ''r'', CHR ''t'', CHR 0x5C, CHR ''/'', CHR 0x22}
          then Some ([], LxStr (c # acc))
          else if c = CHR ''u'' then Some ([], LxHex (c # acc) 3) else None
      | LxHex acc k \<Rightarrow>
          if hex_val c = None then None
          else if k = 0 then Some ([], LxStr (c # acc)) else Some ([], LxHex (c # acc) (k - 1))
      | LxNum nst \<Rightarrow>
          (case num_next nst c of
             Some nst' \<Rightarrow> Some ([], LxNum nst')
           | None \<Rightarrow> if num_final nst then map_option (apfst (Cons TNum)) (lex_start c) else None)
      | LxLit rest tok \<Rightarrow>
          (case rest of
             [] \<Rightarrow> None
           | r # rs \<Rightarrow> if c = r then Some (if rs = [] then ([tok], LxNone) else ([], LxLit rs tok)) else None))"

fun json_lex :: "lex_state \<Rightarrow> string \<Rightarrow> jtoken list option" where
  "json_lex st [] =
     (case st of LxNone \<Rightarrow> Some [] | LxNum nst \<Rightarrow> if num_final nst then Some [TNum] else None | _ \<Rightarrow> None)"
| "json_lex st (c # cs) =
     (case lex_step st c of
        None \<Rightarrow> None
      | Some (ts, st') \<Rightarrow> map_option ((@) ts) (json_lex st' cs))"

subsection \<open>String literals\<close>

text \<open>\<open>utf8.EncodeRune\<close>.\<close>

definition utf8_encode :: "nat \<Rightarrow> string" where
  "utf8_encode n =
     (if n < 128 then [char_of n]
      else if n < 2048 then [char_of (192 + n div 64), char_of (128 + n mod 64)]
      else if n < 65536 then
        [char_of (224 + n div 4096), char_of (128 + n div 64 mod 64), char_of (128 + n mod 64)]
      else [char_of (240 + n div 262144), char_of (128 + n div 4096 mod 64),
            char_of (128 + n div 64 mod 64), char_of (128 + n mod 64)])"

text \<open>\<open>getu4\<close>: four hexadecimal digits after a backslash and a \<open>u\<close>.\<close>

definition hex4 :: "char \<Rightarrow> char \<Rightarrow> char \<Rightarrow> char \<Rightarrow> nat option" where
  "hex4 a b c d =
     (case (hex_val a, hex_val b, hex_val c, hex_val d) of
        (Some w, Some x, Some y, Some z) \<Rightarrow> Some (4096 * w + 256 * x + 16 * y + z)
      | _ \<Rightarrow> None)"

definition escaped_char :: "char \<Rightarrow> char" where
  "escaped_char e =
     (if e = CHR ''b'' then CHR 0x08 else if e = CHR ''f'' then CHR 0x0C
      else if e = CHR ''n'' then CHR 0x0A else if e = CHR ''r'' then CHR 0x0D
      else if e = CHR ''t'' then CHR 0x09 else e)"

text \<open>The second half of a surrogate pair: its code, when the text goes on with one.\<close>

definition low_surrogate :: "string \<Rightarrow> nat option" where
  "low_surrogate s =
     (case s of
        b # u # g1 # g2 # g3 # g4 # _ \<Rightarrow>
          if b = CHR 0x5C \<and> u = CHR ''u'' then
            (case hex4 g1 g2 g3 g4 of
               Some n \<Rightarrow> if 56320 \<le> n \<and> n < 57344 then Some n else None
             | None \<Rightarrow> None)
          else None
      | _ \<Rightarrow> None)"

definition unquote_code :: "nat \<Rightarrow> string \<Rightarrow> nat \<times> nat" where
  "unquote_code r rest =
     (if 55296 \<le> r \<and> r < 57344 then
        (case low_surrogate rest of
           Some l \<Rightarrow> if r < 56320 then (65536 + 1024 * (r - 55296) + (l - 56320), 6) else (65533, 0)
         | None \<Rightarrow> (65533, 0))
      else (r, 0))"

text \<open>\<open>unquote\<close>, on what the scanner accepted.\<close>

function unquote :: "string \<Rightarrow> string" where
  "unquote s =
     (case s of
        [] \<Rightarrow> []
      | c # cs \<Rightarrow>
          if c \<noteq> CHR 0x5C then c # unquote cs
          else (case cs of
             [] \<Rightarrow> []
           | e # es \<Rightarrow>
               if e \<noteq> CHR ''u'' then escaped_char e # unquote es
               else (case es of
                  h1 # h2 # h3 # h4 # rest \<Rightarrow>
                    (case hex4 h1 h2 h3 h4 of
                       None \<Rightarrow> []
                     | Some r \<Rightarrow>
                         utf8_encode (fst (unquote_code r rest)) @
                         unquote (drop (snd (unquote_code r rest)) rest))
                | _ \<Rightarrow> [])))"
  by pat_completeness auto
termination by (relation "measure length") auto

declare unquote.simps [simp del]

subsection \<open>Values\<close>

text \<open>A value; of a number only its being there matters.\<close>

datatype json = JNull | JBool bool | JNum | JStr string | JArr "json list"
  | JObj "(string \<times> json) list"

datatype json_frame = FArr "json list" | FObj "(string \<times> json) list" string

text \<open>What may come next, with the arrays and objects that are open.\<close>

datatype json_state =
    PValue "json_frame list"
  | PArrStart "json_frame list"
  | PArrNext "json list" "json_frame list"
  | PObjStart "json_frame list"
  | PObjKey "(string \<times> json) list" "json_frame list"
  | PObjColon "(string \<times> json) list" string "json_frame list"
  | PObjNext "(string \<times> json) list" "json_frame list"
  | PDone json

definition json_close :: "json \<Rightarrow> json_frame list \<Rightarrow> json_state" where
  "json_close v st =
     (case st of
        [] \<Rightarrow> PDone v
      | FArr vs # st' \<Rightarrow> PArrNext (vs @ [v]) st'
      | FObj ms k # st' \<Rightarrow> PObjNext (ms @ [(k, v)]) st')"

definition json_max_depth :: int where "json_max_depth = 10000"

definition json_value :: "json_frame list \<Rightarrow> jtoken \<Rightarrow> json_state option" where
  "json_value st t =
     (case t of
        TLBrace \<Rightarrow> if int (length st) < json_max_depth then Some (PObjStart st) else None
      | TLBrack \<Rightarrow> if int (length st) < json_max_depth then Some (PArrStart st) else None
      | TStr s \<Rightarrow> Some (json_close (JStr (unquote s)) st)
      | TNum \<Rightarrow> Some (json_close JNum st)
      | TTrue \<Rightarrow> Some (json_close (JBool True) st)
      | TFalse \<Rightarrow> Some (json_close (JBool False) st)
      | TNull \<Rightarrow> Some (json_close JNull st)
      | _ \<Rightarrow> None)"

definition json_step :: "json_state \<Rightarrow> jtoken \<Rightarrow> json_state option" where
  "json_step ps t =
     (case ps of
        PValue st \<Rightarrow> json_value st t
      | PArrStart st \<Rightarrow>
          if t = TRBrack then Some (json_close (JArr []) st) else json_value (FArr [] # st) t
      | PArrNext vs st \<Rightarrow>
          if t = TRBrack then Some (json_close (JArr vs) st)
          else if t = TComma then Some (PValue (FArr vs # st)) else None
      | PObjStart st \<Rightarrow>
          if t = TRBrace then Some (json_close (JObj []) st)
          else (case t of TStr k \<Rightarrow> Some (PObjColon [] (unquote k) st) | _ \<Rightarrow> None)
      | PObjKey ms st \<Rightarrow> (case t of TStr k \<Rightarrow> Some (PObjColon ms (unquote k) st) | _ \<Rightarrow> None)
      | PObjColon ms k st \<Rightarrow> if t = TColon then Some (PValue (FObj ms k # st)) else None
      | PObjNext ms st \<Rightarrow>
          if t = TRBrace then Some (json_close (JObj ms) st)
          else if t = TComma then Some (PObjKey ms st) else None
      | PDone v \<Rightarrow> None)"

fun json_run :: "json_state \<Rightarrow> jtoken list \<Rightarrow> json_state option" where
  "json_run ps [] = Some ps"
| "json_run ps (t # ts) = (case json_step ps t of None \<Rightarrow> None | Some ps' \<Rightarrow> json_run ps' ts)"

definition json_parse :: "string \<Rightarrow> json option" where
  "json_parse s =
     (case json_lex LxNone s of
        None \<Rightarrow> None
      | Some ts \<Rightarrow> (case json_run (PValue []) ts of Some (PDone v) \<Rightarrow> Some v | _ \<Rightarrow> None))"

subsection \<open>Writing strings\<close>

text \<open>The escapes of \<open>json.Marshal\<close> (text without line or paragraph separator characters).\<close>

definition hex_digit :: "nat \<Rightarrow> char" where
  "hex_digit n = ''0123456789abcdef'' ! (n mod 16)"

definition json_char :: "char \<Rightarrow> string" where
  "json_char c =
     (if c = CHR 0x22 \<or> c = CHR 0x5C then [CHR 0x5C, c]
      else if c = CHR 0x0A then [CHR 0x5C, CHR ''n'']
      else if c = CHR 0x0D then [CHR 0x5C, CHR ''r'']
      else if c = CHR 0x09 then [CHR 0x5C, CHR ''t'']
      else if of_char c < (32 :: nat) \<or> c \<in> {CHR ''<'', CHR ''>'', CHR ''&''}
      then CHR 0x5C # ''u00'' @ [hex_digit (of_char c div 16), hex_digit (of_char c)]
      else [c])"

definition json_escape :: "string \<Rightarrow> string" where
  "json_escape s = concat (map json_char s)"

definition json_string :: "string \<Rightarrow> string" where
  "json_string s = CHR 0x22 # json_escape s @ [CHR 0x22]"

subsection \<open>Reading what was written\<close>

lemma hex_val_digit: "hex_val (hex_digit n) = Some (n mod 16)"
proof -
  have "\<forall>k < 16. hex_val (''0123456789abcdef'' ! k) = Some k" by code_simp
  then show ?thesis by (simp add: hex_digit_def)
qed

lemma hex_digit_range: "hex_digit n \<noteq> CHR 0x22" "hex_digit n \<noteq> CHR 0x5C"
  using hex_val_digit [of n] by (auto simp: hex_val_def)

text \<open>One written character is read as part of the literal, and stands for itself.\<close>

lemma map_option_append_Nil [simp]: "map_option ((@) []) x = x"
  by (cases x) simp_all

lemma append_singleton: "(@) [t] = Cons t" "(@) (t # ts) = (\<lambda>us. t # ts @ us)"
  by auto

lemma lex_plain:
  "c \<noteq> CHR 0x22 \<Longrightarrow> c \<noteq> CHR 0x5C \<Longrightarrow> (32 :: nat) \<le> of_char c \<Longrightarrow>
     json_lex (LxStr acc) (c # cs) = json_lex (LxStr (c # acc)) cs"
  by (simp add: lex_step_def)

lemma lex_escape:
  "e \<in> {CHR 0x22, CHR 0x5C, CHR ''n'', CHR ''r'', CHR ''t''} \<Longrightarrow>
     json_lex (LxStr acc) (CHR 0x5C # e # cs) = json_lex (LxStr (e # CHR 0x5C # acc)) cs"
  by (auto simp: lex_step_def)

lemma lex_code:
  assumes "hex_val h1 \<noteq> None" "hex_val h2 \<noteq> None" "hex_val h3 \<noteq> None" "hex_val h4 \<noteq> None"
  shows "json_lex (LxStr acc) (CHR 0x5C # CHR ''u'' # h1 # h2 # h3 # h4 # cs) =
    json_lex (LxStr (h4 # h3 # h2 # h1 # CHR ''u'' # CHR 0x5C # acc)) cs"
  using assms by (auto simp: lex_step_def)

lemma json_char_cases:
  obtains (plain) "json_char c = [c]" "c \<noteq> CHR 0x22" "c \<noteq> CHR 0x5C" "(32 :: nat) \<le> of_char c"
  | (escape) e where "json_char c = [CHR 0x5C, e]" "escaped_char e = c" "e \<noteq> CHR ''u''"
      "e \<in> {CHR 0x22, CHR 0x5C, CHR ''n'', CHR ''r'', CHR ''t''}"
  | (code) "json_char c = [CHR 0x5C, CHR ''u'', CHR ''0'', CHR ''0'',
        hex_digit (of_char c div 16), hex_digit (of_char c)]" "of_char c < (128 :: nat)"
proof (cases "c \<in> {CHR 0x22, CHR 0x5C, CHR 0x0A, CHR 0x0D, CHR 0x09}")
  case True
  then consider "c = CHR 0x22" | "c = CHR 0x5C" | "c = CHR 0x0A" | "c = CHR 0x0D" | "c = CHR 0x09"
    by blast
  then show thesis
    by cases (rule escape [of "json_char c ! 1"]; simp add: json_char_def escaped_char_def)+
next
  case False
  show thesis
  proof (cases "of_char c < (32 :: nat) \<or> c \<in> {CHR ''<'', CHR ''>'', CHR ''&''}")
    case True
    then have "json_char c = [CHR 0x5C, CHR ''u'', CHR ''0'', CHR ''0'',
        hex_digit (of_char c div 16), hex_digit (of_char c)]"
      using False by (simp add: json_char_def)
    moreover have "of_char c < (128 :: nat)" using True by auto
    ultimately show thesis by (rule code)
  next
    case no: False
    then have "json_char c = [c]" using False by (simp add: json_char_def)
    then show thesis by (rule plain) (use False no in auto)
  qed
qed

lemma lex_json_char:
  "json_lex (LxStr acc) (json_char c @ cs) = json_lex (LxStr (rev (json_char c) @ acc)) cs"
proof (cases c rule: json_char_cases)
  case plain
  then show ?thesis by (simp add: lex_plain del: json_lex.simps)
next
  case (escape e)
  then show ?thesis by (simp only: append.simps rev.simps lex_escape)
next
  case code
  have "hex_val CHR ''0'' \<noteq> None" by (simp add: hex_val_def)
  then show ?thesis by (simp only: code(1) append.simps rev.simps lex_code hex_val_digit option.distinct simp_thms)
qed

lemma lex_json_escape:
  "json_lex (LxStr acc) (json_escape s @ cs) = json_lex (LxStr (rev (json_escape s) @ acc)) cs"
  by (induction s arbitrary: acc) (simp_all add: json_escape_def lex_json_char del: json_lex.simps)

lemma lex_json_string:
  "json_lex LxNone (json_string s @ cs) =
     map_option (Cons (TStr (json_escape s))) (json_lex LxNone cs)"
proof -
  have "json_lex LxNone (json_string s @ cs) = json_lex (LxStr []) (json_escape s @ CHR 0x22 # cs)"
    by (simp add: json_string_def lex_step_def lex_start_def json_space_def)
  then show ?thesis by (simp add: lex_json_escape del: json_lex.simps) (simp add: lex_step_def append_singleton)
qed

lemma unquote_Nil [simp]: "unquote [] = []"
  by (simp add: unquote.simps)

lemma unquote_plain: "c \<noteq> CHR 0x5C \<Longrightarrow> unquote (c # cs) = c # unquote cs"
  by (subst unquote.simps) simp

lemma unquote_escaped: "e \<noteq> CHR ''u'' \<Longrightarrow> unquote (CHR 0x5C # e # cs) = escaped_char e # unquote cs"
  by (subst unquote.simps) simp

lemma unquote_coded:
  "hex4 a b c d = Some r \<Longrightarrow> r < 128 \<Longrightarrow>
     unquote (CHR 0x5C # CHR ''u'' # a # b # c # d # rest) = char_of r # unquote rest"
  by (subst unquote.simps) (simp add: unquote_code_def utf8_encode_def)

lemma unquote_json_char: "unquote (json_char c @ cs) = c # unquote cs"
proof (cases c rule: json_char_cases)
  case plain
  then show ?thesis by (simp add: unquote_plain)
next
  case (escape e)
  then show ?thesis by (simp add: unquote_escaped)
next
  case code
  have "hex_val CHR ''0'' = Some 0" by (simp add: hex_val_def)
  then have "hex4 CHR ''0'' CHR ''0'' (hex_digit (of_char c div 16)) (hex_digit (of_char c)) =
      Some (16 * (of_char c div 16 mod 16) + of_char c mod 16)"
    by (simp only: hex4_def hex_val_digit) simp
  moreover have "16 * (of_char c div 16 mod 16) + of_char c mod 16 = (of_char c :: nat)"
    using code(2) by simp
  ultimately show ?thesis using code by (simp add: unquote_coded)
qed

lemma unquote_json_escape [simp]: "unquote (json_escape s) = s"
  by (induction s) (simp_all add: json_escape_def unquote_json_char)

text \<open>An object of strings, with the given texts between keys, values and members.\<close>

definition json_field_with :: "string \<Rightarrow> string \<Rightarrow> string \<Rightarrow> string" where
  "json_field_with col k v = json_string k @ col @ json_string v"

definition json_object_with :: "string \<Rightarrow> string \<Rightarrow> (string \<times> string) list \<Rightarrow> string" where
  "json_object_with col sep kvs =
     ''{'' @ go_join sep (map (\<lambda>(k, v). json_field_with col k v) kvs) @ ''}''"

text \<open>White space around the punctuation does not matter.\<close>

definition lexes_as :: "string \<Rightarrow> jtoken \<Rightarrow> bool" where
  "lexes_as t tok \<longleftrightarrow> (\<forall>cs. json_lex LxNone (t @ cs) = map_option (Cons tok) (json_lex LxNone cs))"

fun field_tokens :: "(string \<times> string) list \<Rightarrow> jtoken list" where
  "field_tokens [] = []"
| "field_tokens [(k, v)] = [TStr (json_escape k), TColon, TStr (json_escape v)]"
| "field_tokens ((k, v) # kv # kvs) =
     TStr (json_escape k) # TColon # TStr (json_escape v) # TComma # field_tokens (kv # kvs)"

lemma lex_punctuation:
  "json_lex LxNone (CHR 0x7B # cs) = map_option (Cons TLBrace) (json_lex LxNone cs)"
  "json_lex LxNone (CHR 0x7D # cs) = map_option (Cons TRBrace) (json_lex LxNone cs)"
  "json_lex LxNone (CHR 0x3A # cs) = map_option (Cons TColon) (json_lex LxNone cs)"
  "json_lex LxNone (CHR 0x2C # cs) = map_option (Cons TComma) (json_lex LxNone cs)"
  "json_lex LxNone (CHR 0x20 # cs) = json_lex LxNone cs"
  by (simp_all add: lex_step_def lex_start_def json_space_def)
    (cases "json_lex LxNone cs"; simp)+

lemma lexes_as_punctuation:
  "lexes_as '':'' TColon" "lexes_as '': '' TColon" "lexes_as '','' TComma" "lexes_as '', '' TComma"
  by (simp_all add: lexes_as_def lex_punctuation del: json_lex.simps)

lemma lex_field:
  assumes "lexes_as col TColon"
  shows "json_lex LxNone (json_field_with col k v @ cs) =
     map_option ((@) [TStr (json_escape k), TColon, TStr (json_escape v)]) (json_lex LxNone cs)"
  using assms
  by (cases "json_lex LxNone cs")
    (simp_all add: json_field_with_def lex_json_string lexes_as_def del: json_lex.simps)

lemma lex_fields:
  assumes "lexes_as col TColon" and "lexes_as sep TComma"
  shows "json_lex LxNone (go_join sep (map (\<lambda>(k, v). json_field_with col k v) kvs) @ cs) =
     map_option ((@) (field_tokens kvs)) (json_lex LxNone cs)"
proof (induction kvs rule: field_tokens.induct)
  case (3 k v kv kvs)
  then show ?case
    using assms(2)
    by (cases "json_lex LxNone cs")
      (simp_all add: lex_field [OF assms(1)] lexes_as_def case_prod_unfold del: json_lex.simps)
qed (cases "json_lex LxNone cs"; simp add: lex_field [OF assms(1)] del: json_lex.simps)+

lemma run_fields:
  "json_run (PObjKey ms st) (field_tokens (kv # kvs) @ TRBrace # ts) =
     json_run (json_close (JObj (ms @ map (apsnd JStr) (kv # kvs))) st) ts"
proof (induction kvs arbitrary: ms kv)
  case Nil
  then show ?case by (cases kv) (simp add: json_step_def json_value_def json_close_def)
next
  case (Cons kv' kvs)
  obtain k v where kv: "kv = (k, v)" by fastforce
  have "json_run (PObjKey ms st) (field_tokens (kv # kv' # kvs) @ TRBrace # ts) =
      json_run (PObjKey (ms @ [(k, JStr v)]) st) (field_tokens (kv' # kvs) @ TRBrace # ts)"
    by (simp add: kv json_step_def json_value_def json_close_def)
  then show ?case using Cons [of "ms @ [(k, JStr v)]" kv'] by (simp add: kv)
qed

lemma json_parse_object:
  assumes "kvs \<noteq> []" and "lexes_as col TColon" and "lexes_as sep TComma"
  shows "json_parse (json_object_with col sep kvs) = Some (JObj (map (apsnd JStr) kvs))"
proof -
  obtain kv kvs' where kvs: "kvs = kv # kvs'" using assms(1) by (cases kvs) auto
  have l: "json_lex LxNone (json_object_with col sep kvs) = Some (TLBrace # field_tokens kvs @ [TRBrace])"
    by (simp add: json_object_with_def lex_punctuation lex_fields [OF assms(2,3)] del: json_lex.simps)
      (simp add: lex_punctuation)
  have "json_run (PValue []) (TLBrace # field_tokens kvs @ [TRBrace]) =
      json_run (PObjKey [] []) (field_tokens kvs @ [TRBrace])"
    using kvs by (cases kv; cases kvs')
      (auto simp: json_step_def json_value_def json_max_depth_def)
  then show ?thesis using run_fields [of "[]" "[]" kv kvs' "[]"] l kvs
    by (simp add: json_parse_def json_close_def)
qed

text \<open>Text without characters that are escaped is written as it is.\<close>

definition json_plain :: "char \<Rightarrow> bool" where
  "json_plain c \<longleftrightarrow> (32 :: nat) \<le> of_char c \<and> c \<notin> {CHR 0x22, CHR 0x5C, CHR ''<'', CHR ''>'', CHR ''&''}"

lemma json_char_plain:
  assumes "json_plain c"
  shows "json_char c = [c]"
proof -
  have "c \<noteq> CHR 0x0A \<and> c \<noteq> CHR 0x0D \<and> c \<noteq> CHR 0x09"
    using assms by (intro conjI notI) (simp_all add: json_plain_def)
  moreover have "c \<noteq> CHR 0x22" "c \<noteq> CHR 0x5C" "\<not> (of_char c < (32 :: nat) \<or> c \<in> {CHR ''<'', CHR ''>'', CHR ''&''})"
    using assms by (simp_all add: json_plain_def)
  ultimately show ?thesis unfolding json_char_def by (simp only: if_False simp_thms)
qed

lemma json_escape_plain: "list_all json_plain s \<Longrightarrow> json_escape s = s"
proof (induction s)
  case (Cons c s)
  then show ?case by (simp add: json_escape_def json_char_plain)
qed (simp add: json_escape_def)

end
