(* ===== verification/SourceJson.thy ===== *)
theory SourceJson
  imports Util GoJson
begin

section \<open>The source of a pair as JSON\<close>

text \<open>
  What \<open>encoding/json\<close> does with the struct \<open>Source\<close> of \<open>pkg/util/util.go\<close> and its tags:
  \<open>json.Unmarshal\<close> into an empty one, in \<open>pkg/tgc/tgc.go\<close>, and \<open>json.Marshal\<close> of one, for
  the metrics label in \<open>pkg/tgen/udp.go\<close>.
\<close>

definition source_keys :: "string list" where
  "source_keys = [''type'', ''ns'', ''name'', ''net'', ''interface'', ''ip'']"

definition empty_source :: source where
  "empty_source =
     \<lparr>src_type = [], src_namespace = [], src_name = [], src_net = [], src_interface = [], src_ip = []\<rparr>"

text \<open>The field a key stands for: the exact key, or else one that differs in letter case.\<close>

definition find_source_key :: "string \<Rightarrow> string option" where
  "find_source_key k =
     (if k \<in> set source_keys then Some k else find (\<lambda>f. equal_fold f k) source_keys)"

definition set_source_key :: "string \<Rightarrow> string \<Rightarrow> source \<Rightarrow> source" where
  "set_source_key f v src =
     (if f = ''type'' then src\<lparr>src_type := v\<rparr>
      else if f = ''ns'' then src\<lparr>src_namespace := v\<rparr>
      else if f = ''name'' then src\<lparr>src_name := v\<rparr>
      else if f = ''net'' then src\<lparr>src_net := v\<rparr>
      else if f = ''interface'' then src\<lparr>src_interface := v\<rparr>
      else src\<lparr>src_ip := v\<rparr>)"

text \<open>
  One member: unknown keys are passed over, \<open>null\<close> leaves the field, another value than a
  string is an error that is kept while the decoding goes on.
\<close>

definition decode_member :: "string \<times> json \<Rightarrow> source \<times> bool \<Rightarrow> source \<times> bool" where
  "decode_member m sb =
     (case find_source_key (fst m) of
        None \<Rightarrow> sb
      | Some f \<Rightarrow>
          (case snd m of
             JStr v \<Rightarrow> (set_source_key f v (fst sb), snd sb)
           | JNull \<Rightarrow> sb
           | _ \<Rightarrow> (fst sb, True)))"

definition json_unmarshal_source :: "string \<Rightarrow> source result" where
  "json_unmarshal_source s =
     (case json_parse s of
        None \<Rightarrow> Inl (GoError ''invalid JSON'')
      | Some JNull \<Rightarrow> Inr empty_source
      | Some (JObj ms) \<Rightarrow>
          (case fold decode_member ms (empty_source, False) of
             (src, bad) \<Rightarrow> if bad then Inl (GoError ''json: cannot unmarshal into Go struct field'') else Inr src)
      | Some _ \<Rightarrow> Inl (GoError ''json: cannot unmarshal into Go value''))"

text \<open>The fields of the struct in order, the \<open>omitempty\<close> ones only when they are not empty.\<close>

definition source_members :: "source \<Rightarrow> (string \<times> string) list" where
  "source_members src =
     [(''type'', src_type src), (''ns'', src_namespace src), (''name'', src_name src)] @
     filter (\<lambda>m. snd m \<noteq> [])
       [(''net'', src_net src), (''interface'', src_interface src), (''ip'', src_ip src)]"

definition json_source :: "source \<Rightarrow> string" where
  "json_source src = json_object_with '':'' '','' (source_members src)"

subsection \<open>Reading a source that was written\<close>

definition put_members :: "(string \<times> string) list \<Rightarrow> source \<Rightarrow> source" where
  "put_members ms = fold (\<lambda>m. set_source_key (fst m) (snd m)) ms"

lemma unmarshal_object:
  assumes "ms \<noteq> []" and "fst ` set ms \<subseteq> set source_keys"
    and "lexes_as col TColon" and "lexes_as sep TComma"
  shows "json_unmarshal_source (json_object_with col sep ms) = Inr (put_members ms empty_source)"
proof -
  have "fold decode_member (map (apsnd JStr) ms) (src, False) = (put_members ms src, False)"
    if "fst ` set ms \<subseteq> set source_keys" for ms src
    using that
    by (induction ms arbitrary: src) (auto simp: decode_member_def find_source_key_def put_members_def)
  then show ?thesis
    using assms(2) by (simp add: json_unmarshal_source_def json_parse_object [OF assms(1,3,4)])
qed

lemma put_source_members: "put_members (source_members src) empty_source = src"
  by (cases src) (simp add: put_members_def source_members_def set_source_key_def empty_source_def)

lemma unmarshal_json_source: "json_unmarshal_source (json_source src) = Inr src"
proof -
  have "fst ` set (source_members src) \<subseteq> set source_keys"
    by (auto simp: source_members_def source_keys_def)
  moreover have "source_members src \<noteq> []" by (simp add: source_members_def)
  ultimately show ?thesis
    unfolding json_source_def
    by (simp add: unmarshal_object lexes_as_punctuation put_source_members)
qed

end
