(* ===== verification/TgenStream.thy ===== *)
theory TgenStream
  imports TgenConfig SourceJson
begin

section \<open>A UDP client stream: state, setup, metrics, redial (\<open>pkg/tgen/udp.go\<close>)\<close>

text \<open>
  \<open>udpStream\<close>, its construction and \<open>SetupConnection\<close>, the metrics it registers, removes
  and registers again under new labels, the redial and the two halves of the teardown.  The
  network calls are the fields of \<open>client_net\<close>.  Operations that write through the
  receiver and may stop in the middle (an error, or a panic of \<open>MustRegister\<close> that
  \<open>SetupConnection\<close> recovers) return the state they leave together with the error.
\<close>

subsection \<open>The network as the client calls it\<close>

record udp_addr =
  ua_ip :: string
  ua_port :: int64

text \<open>A connection object: what \<open>DialUDP\<close> gave, and whether the code has closed it.\<close>

record udp_conn =
  uc_local :: "udp_addr option"
  uc_remote :: udp_addr
  uc_closed :: bool

record client_net =
  cn_lookup :: "string \<Rightarrow> string \<Rightarrow> udp_addr result" \<comment> \<open>of a host and a port\<close>
  cn_dial :: "udp_addr option \<Rightarrow> udp_addr \<Rightarrow> go_error option"
  cn_set_read_buffer :: "int64 \<Rightarrow> go_error option"

definition cn_resolve :: "client_net \<Rightarrow> string \<Rightarrow> udp_addr result" where
  "cn_resolve net = resolve_udp_addr (cn_lookup net)"

definition close_conn :: "udp_conn option \<Rightarrow> udp_conn option" where
  "close_conn c = map_option (\<lambda>u. u\<lparr>uc_closed := True\<rparr>) c"

definition new_conn :: "udp_addr option \<Rightarrow> udp_addr \<Rightarrow> udp_conn" where
  "new_conn laddr raddr = \<lparr>uc_local = laddr, uc_remote = raddr, uc_closed = False\<rparr>"

subsection \<open>State\<close>

text \<open>
  The fields of \<open>udpStream\<close>.  The pair and the module's configuration are shared by
  pointer: the pair is part of this state (no other goroutine touches it while the stream
  lives), the configuration is an argument of every operation that reads it.  A metric
  that is not set yet is the nil interface; only \<open>trafficNotStarted\<close> can be used before it
  is set.  The amounts are whole numbers (see \<open>Util\<close>).
\<close>

record stream =
  st_is_stopped :: int
  st_connection :: "udp_conn option"
  st_local_addr :: "udp_addr option"
  st_pair :: bat_pair
  st_read_buffer_size :: int64
  st_packet_sequence :: int64
  st_msg_header_length :: int64
  st_stop :: bool
  st_stream_metrics :: "metric list"
  st_metric_labels :: labels
  st_traffic_not_started :: "metric option"
  st_packet_sent :: metric
  st_packet_sent_val :: int
  st_packet_send_failed :: metric
  st_packet_send_failed_val :: int
  st_packet_received :: metric
  st_packet_received_val :: int
  st_packet_dropped :: metric
  st_packet_dropped_val :: int
  st_round_trip :: metric
  st_round_trip_val :: int
  st_latency :: metric

definition no_metric :: metric where
  "no_metric = new_counter [] [] [] [] []"

text \<open>\<open>newStream\<close>: a header that cannot be encoded panics.\<close>

definition new_stream :: "codec \<Rightarrow> bat_pair \<Rightarrow> int64 \<Rightarrow> stream go" where
  "new_stream cd p read_buffer_size =
     (case get_message_header_length cd of
        Inl (GoError e) \<Rightarrow> Inl (LibPanic e)
      | Inr n \<Rightarrow>
          Inr \<lparr>st_is_stopped = 3, st_connection = None, st_local_addr = None, st_pair = p,
               st_read_buffer_size = read_buffer_size, st_packet_sequence = 0,
               st_msg_header_length = n, st_stop = False, st_stream_metrics = [],
               st_metric_labels = [], st_traffic_not_started = None,
               st_packet_sent = no_metric, st_packet_sent_val = 0,
               st_packet_send_failed = no_metric, st_packet_send_failed_val = 0,
               st_packet_received = no_metric, st_packet_received_val = 0,
               st_packet_dropped = no_metric, st_packet_dropped_val = 0,
               st_round_trip = no_metric, st_round_trip_val = 0, st_latency = no_metric\<rparr>)"

text \<open>\<open>CreateClient\<close> of the module: it never returns an error.\<close>

definition create_client :: "codec \<Rightarrow> bat_pair \<Rightarrow> int64 \<Rightarrow> stream result go" where
  "create_client cd p read_buffer_size = bindS (new_stream cd p read_buffer_size) (\<lambda>s. Inr (Inr s))"

subsection \<open>Stream metrics\<close>

type_synonym 'r stream_reg = "stream \<times> 'r"

definition register_metric ::
  "'r prom \<Rightarrow> metric \<Rightarrow> 'r stream_reg \<Rightarrow> 'r stream_reg \<times> go_panic option" where
  "register_metric pr m sr =
     (case prom_register pr (snd sr) m of
        Inl msg \<Rightarrow> (sr, Some (LibPanic msg))
      | Inr reg \<Rightarrow>
          (((fst sr)\<lparr>st_stream_metrics := st_stream_metrics (fst sr) @ [m]\<rparr>, reg), None))"

text \<open>
  One counter: created with the current labels, registered, and, when the stream has
  already counted something, brought to the value kept beside it.
\<close>

definition register_counter ::
  "'r prom \<Rightarrow> string \<Rightarrow> string \<Rightarrow> (stream \<Rightarrow> int) \<Rightarrow> (metric \<Rightarrow> stream \<Rightarrow> stream)
    \<Rightarrow> 'r stream_reg \<Rightarrow> 'r stream_reg \<times> go_panic option" where
  "register_counter pr name help val put sr =
     (let s = fst sr;
          m = new_counter prom_namespace (bp_traffic_profile (st_pair s)) name help
                (st_metric_labels s)
      in case register_metric pr m (put m s, snd sr) of
           (sr1, Some p) \<Rightarrow> (sr1, Some p)
         | ((s1, reg1), None) \<Rightarrow>
             if 0 < val s1
             then (case metric_add pr (val s1) m of
                     Inl p \<Rightarrow> ((s1, reg1), Some p)
                   | Inr m1 \<Rightarrow> ((put m1 s1, reg1), None))
             else ((s1, reg1), None))"

definition register_latency ::
  "'r prom \<Rightarrow> 'r stream_reg \<Rightarrow> 'r stream_reg \<times> go_panic option" where
  "register_latency pr sr =
     (let s = fst sr;
          m = new_summary prom_namespace (bp_traffic_profile (st_pair s)) ''latency''
                ''latency statistics'' (st_metric_labels s)
                [(500, 50), (900, 20), (950, 10), (990, 5)]
      in register_metric pr m (s\<lparr>st_latency := m\<rparr>, snd sr))"

definition stream_metric_steps ::
  "'r prom \<Rightarrow> ('r stream_reg \<Rightarrow> 'r stream_reg \<times> go_panic option) list" where
  "stream_metric_steps pr =
     [register_counter pr ''packets_sent'' ''total packet sent'' st_packet_sent_val
        (\<lambda>m s. s\<lparr>st_packet_sent := m\<rparr>),
      register_counter pr ''packet_send_failed'' ''total packet send failed''
        st_packet_send_failed_val (\<lambda>m s. s\<lparr>st_packet_send_failed := m\<rparr>),
      register_counter pr ''packets_received'' ''total packet received'' st_packet_received_val
        (\<lambda>m s. s\<lparr>st_packet_received := m\<rparr>),
      register_counter pr ''packets_dropped'' ''total packet dropped'' st_packet_dropped_val
        (\<lambda>m s. s\<lparr>st_packet_dropped := m\<rparr>),
      register_counter pr ''total_round_trip_time'' ''total round trip time'' st_round_trip_val
        (\<lambda>m s. s\<lparr>st_round_trip := m\<rparr>),
      register_latency pr]"

definition register_stream_metrics ::
  "'r prom \<Rightarrow> 'r stream_reg \<Rightarrow> 'r stream_reg \<times> go_panic option" where
  "register_stream_metrics pr = seq_steps (stream_metric_steps pr)"

definition deregister_stream_metrics :: "'r prom \<Rightarrow> 'r stream_reg \<Rightarrow> 'r stream_reg" where
  "deregister_stream_metrics pr sr =
     (fst sr, fold (\<lambda>m reg. prom_unregister pr reg m) (st_stream_metrics (fst sr)) (snd sr))"

definition reregister_stream_metrics ::
  "'r prom \<Rightarrow> 'r stream_reg \<Rightarrow> 'r stream_reg \<times> go_panic option" where
  "reregister_stream_metrics pr sr = register_stream_metrics pr (deregister_stream_metrics pr sr)"

subsection \<open>\<open>SetupConnection\<close>\<close>

definition stream_labels :: "tgen_config \<Rightarrow> bat_pair \<Rightarrow> labels" where
  "stream_labels conf p =
     AList.update ''source'' (json_source (bp_source p))
       (AList.update ''packet_rate'' (go_itoa (send_rate conf))
         (AList.update ''packet_size'' (go_itoa (packet_size conf))
           (AList.update ''scenario'' (bp_traffic_scenario p)
             (AList.update ''destination'' (rem_name (bp_destination p)) []))))"

definition set_destination :: "(remote \<Rightarrow> remote) \<Rightarrow> stream \<Rightarrow> stream" where
  "set_destination f s =
     s\<lparr>st_pair := (st_pair s)\<lparr>bp_destination := f (bp_destination (st_pair s))\<rparr>\<rparr>"

text \<open>The destination's address: IPv6 in brackets, and a name that is no address is marked.\<close>

definition mark_destination :: "stream \<Rightarrow> stream" where
  "mark_destination s =
     (let n = rem_name (bp_destination (st_pair s))
      in if \<not> is_ipv6 n \<and> \<not> is_ipv4 n
         then set_destination (\<lambda>d. d\<lparr>rem_is_dn := True\<rparr>) s else s)"

definition destination_address :: "string \<Rightarrow> string" where
  "destination_address n =
     (if is_ipv6 n then ''['' @ n @ '']:'' @ go_itoa udp_server_port
      else n @ '':'' @ go_itoa udp_server_port)"

text \<open>The errors of this part count as traffic not started, except the last one.\<close>

definition not_started :: "stream \<Rightarrow> stream" where
  "not_started s = s\<lparr>st_traffic_not_started := map_option metric_inc (st_traffic_not_started s)\<rparr>"

definition connect_stream ::
  "client_net \<Rightarrow> tgen_config \<Rightarrow> stream \<Rightarrow> stream \<times> go_error option" where
  "connect_stream net conf s =
     (let s1 = mark_destination s;
          n = rem_name (bp_destination (st_pair s))
      in case cn_resolve net (destination_address n) of
           Inl e \<Rightarrow> (not_started s1, Some e)
         | Inr raddr \<Rightarrow>
           (let s2 = set_destination (\<lambda>d. d\<lparr>rem_ip := ua_ip raddr\<rparr>) s1
            in case get_resolvable_address (src_ip (bp_source (st_pair s2))) of
                 Inl e \<Rightarrow> (not_started s2, Some e)
               | Inr src_address \<Rightarrow>
                 (case cn_resolve net src_address of
                    Inl e \<Rightarrow> (not_started s2, Some e)
                  | Inr laddr \<Rightarrow>
                    (case cn_dial net (Some laddr) raddr of
                       Some e \<Rightarrow> (not_started s2, Some e)
                     | None \<Rightarrow>
                       (case cn_set_read_buffer net (socket_read_buf_size conf) of
                          Some e \<Rightarrow> (s2, Some e)
                        | None \<Rightarrow>
                            (s2\<lparr>st_connection := Some (new_conn (Some laddr) raddr),
                                 st_local_addr := Some laddr\<rparr>, None))))))"

definition clear_server_labels :: "labels \<Rightarrow> labels" where
  "clear_server_labels ls =
     AList.update ''server_node'' [] (AList.update ''server_pod'' []
       (AList.update ''server_namespace'' [] ls))"

definition panic_text :: "go_panic \<Rightarrow> string" where
  "panic_text p = (case p of LibPanic msg \<Rightarrow> msg | _ \<Rightarrow> ''runtime error'')"

definition setup_connection ::
  "'r prom \<Rightarrow> client_net \<Rightarrow> tgen_config \<Rightarrow> 'r stream_reg
    \<Rightarrow> 'r stream_reg \<times> go_error option" where
  "setup_connection pr net conf sr =
     (let ls = stream_labels conf (st_pair (fst sr));
          m = new_counter prom_namespace (bp_traffic_profile (st_pair (fst sr)))
                ''traffic_not_started'' ''traffic not started'' ls;
          s1 = (fst sr)\<lparr>st_metric_labels := ls, st_traffic_not_started := Some m\<rparr>
      in case prom_register pr (snd sr) m of
           Inl msg \<Rightarrow> ((s1, snd sr), Some (GoError msg))
         | Inr reg \<Rightarrow>
           (case connect_stream net conf s1 of
              (s2, Some e) \<Rightarrow> ((s2, reg), Some e)
            | (s2, None) \<Rightarrow>
              (case register_stream_metrics pr
                      (s2\<lparr>st_metric_labels := clear_server_labels (st_metric_labels s2)\<rparr>, reg) of
                 (sr3, Some p) \<Rightarrow> (sr3, Some (GoError (panic_text p)))
               | (sr3, None) \<Rightarrow> (sr3, None))))"

subsection \<open>\<open>redialDestination\<close>\<close>

definition redial_local_addr ::
  "client_net \<Rightarrow> bool \<Rightarrow> stream \<Rightarrow> udp_addr option result" where
  "redial_local_addr net force s =
     (if force then
        (case get_resolvable_address (src_ip (bp_source (st_pair s))) of
           Inl e \<Rightarrow> Inl e
         | Inr a \<Rightarrow> (case cn_resolve net a of Inl e \<Rightarrow> Inl e | Inr laddr \<Rightarrow> Inr (Some laddr)))
      else Inr (st_local_addr s))"

definition redial_destination ::
  "client_net \<Rightarrow> tgen_config \<Rightarrow> bool \<Rightarrow> stream \<Rightarrow> stream \<times> go_error option" where
  "redial_destination net conf force s =
     (case cn_resolve net (rem_name (bp_destination (st_pair s)) @ '':'' @ go_itoa udp_server_port) of
        Inl e \<Rightarrow> (s, Some e)
      | Inr raddr \<Rightarrow>
          if ua_ip raddr = rem_ip (bp_destination (st_pair s)) \<and> \<not> force then (s, None)
          else (case redial_local_addr net force s of
             Inl e \<Rightarrow> (s, Some e)
           | Inr laddr \<Rightarrow>
             (let s1 = s\<lparr>st_local_addr := laddr, st_connection := close_conn (st_connection s)\<rparr>
              in case cn_dial net laddr raddr of
                   Some e \<Rightarrow> (s1, Some e)
                 | None \<Rightarrow>
                   (case cn_set_read_buffer net (socket_read_buf_size conf) of
                      Some e \<Rightarrow> (s1, Some e)
                    | None \<Rightarrow>
                        (set_destination (\<lambda>d. d\<lparr>rem_ip := ua_ip raddr\<rparr>)
                           (s1\<lparr>st_connection := Some (new_conn laddr raddr)\<rparr>), None)))))"

subsection \<open>\<open>TearDownConnection\<close>\<close>

text \<open>
  Up to its wait, and after it.  Unregistering the nil metric of a stream that was never
  set up panics.
\<close>

definition teardown_begin :: "'r prom \<Rightarrow> 'r stream_reg \<Rightarrow> 'r stream_reg go" where
  "teardown_begin pr sr =
     (case st_traffic_not_started (fst sr) of
        None \<Rightarrow> Inl NilDereference
      | Some m \<Rightarrow>
          (let reg = prom_unregister pr (snd sr) m
           in if st_connection (fst sr) = None then Inr (fst sr, reg)
              else Inr ((fst sr)\<lparr>st_stop := True,
                          st_connection := close_conn (st_connection (fst sr))\<rparr>, reg)))"

definition teardown_finish :: "'r prom \<Rightarrow> 'r stream_reg \<Rightarrow> 'r stream_reg" where
  "teardown_finish pr sr =
     (if st_connection (fst sr) = None then sr else deregister_stream_metrics pr sr)"

subsection \<open>What the operations leave alone\<close>

text \<open>
  The part of a stream its goroutines account in: everything but the connection, the
  addresses, the labels and the list of registered metrics.
\<close>

definition core :: "stream \<Rightarrow> stream" where
  "core s = s\<lparr>st_connection := None, st_local_addr := None, st_metric_labels := [],
      st_stream_metrics := [],
      st_pair := (st_pair s)\<lparr>bp_destination := \<lparr>rem_is_dn = False, rem_name = [], rem_ip = []\<rparr>\<rparr>\<rparr>"

lemma core_fields:
  assumes "core s = core t"
  shows "st_is_stopped s = st_is_stopped t" "st_stop s = st_stop t"
    "st_packet_sequence s = st_packet_sequence t"
    "bp_pending (st_pair s) = bp_pending (st_pair t)"
    "st_read_buffer_size s = st_read_buffer_size t"
    "st_msg_header_length s = st_msg_header_length t"
    "st_packet_sent s = st_packet_sent t" "st_packet_sent_val s = st_packet_sent_val t"
    "st_packet_send_failed s = st_packet_send_failed t"
    "st_packet_send_failed_val s = st_packet_send_failed_val t"
    "st_packet_received s = st_packet_received t"
    "st_packet_received_val s = st_packet_received_val t"
    "st_packet_dropped s = st_packet_dropped t"
    "st_packet_dropped_val s = st_packet_dropped_val t"
    "st_round_trip s = st_round_trip t" "st_round_trip_val s = st_round_trip_val t"
    "st_traffic_not_started s = st_traffic_not_started t"
  using arg_cong [OF assms, of st_is_stopped] arg_cong [OF assms, of st_stop]
    arg_cong [OF assms, of st_packet_sequence] arg_cong [OF assms, of "bp_pending \<circ> st_pair"]
    arg_cong [OF assms, of st_read_buffer_size] arg_cong [OF assms, of st_msg_header_length]
    arg_cong [OF assms, of st_packet_sent] arg_cong [OF assms, of st_packet_sent_val]
    arg_cong [OF assms, of st_packet_send_failed] arg_cong [OF assms, of st_packet_send_failed_val]
    arg_cong [OF assms, of st_packet_received] arg_cong [OF assms, of st_packet_received_val]
    arg_cong [OF assms, of st_packet_dropped] arg_cong [OF assms, of st_packet_dropped_val]
    arg_cong [OF assms, of st_round_trip] arg_cong [OF assms, of st_round_trip_val]
    arg_cong [OF assms, of st_traffic_not_started]
  by (simp_all add: core_def)

lemma core_updates [simp]:
  "core (s\<lparr>st_connection := c\<rparr>) = core s" "core (s\<lparr>st_local_addr := a\<rparr>) = core s"
  "core (s\<lparr>st_metric_labels := ls\<rparr>) = core s" "core (s\<lparr>st_stream_metrics := ms\<rparr>) = core s"
  "core (set_destination f s) = core s"
  by (simp_all add: core_def set_destination_def)

lemma redial_core:
  "redial_destination net conf force s = (s', err) \<Longrightarrow> core s' = core s"
  by (auto simp: redial_destination_def Let_def split: sum.splits if_splits option.splits)

lemma register_metric_ok:
  "register_metric pr m sr = (sr', None) \<Longrightarrow>
     \<exists>ms. fst sr' = (fst sr)\<lparr>st_stream_metrics := ms\<rparr>"
  by (auto simp: register_metric_def split: sum.splits)

text \<open>A counter that was registered stands at the value kept beside it.\<close>

lemma register_counter_ok:
  assumes "register_counter pr name help val put sr = (sr', None)"
    and put: "\<And>m m0 ms s. put m ((put m0 s)\<lparr>st_stream_metrics := ms\<rparr>) =
        (put m s)\<lparr>st_stream_metrics := ms\<rparr>"
    and val: "\<And>m ms s. val ((put m s)\<lparr>st_stream_metrics := ms\<rparr>) = val s"
  obtains m ms where "fst sr' = (put m (fst sr))\<lparr>st_stream_metrics := ms\<rparr>"
    "mt_total m = max 0 (val (fst sr))"
proof -
  let ?m = "new_counter prom_namespace (bp_traffic_profile (st_pair (fst sr))) name help
      (st_metric_labels (fst sr))"
  obtain s1 reg1 where reg: "register_metric pr ?m (put ?m (fst sr), snd sr) = ((s1, reg1), None)"
    using assms(1) by (auto simp: register_counter_def Let_def split: prod.splits option.splits)
  obtain ms where s1: "s1 = (put ?m (fst sr))\<lparr>st_stream_metrics := ms\<rparr>"
    using register_metric_ok [OF reg] by auto
  show ?thesis
  proof (cases "0 < val (fst sr)")
    case True
    then obtain m1 where m1: "metric_add pr (val (fst sr)) ?m = Inr m1" "fst sr' = put m1 s1"
      using assms(1) reg s1 val by (auto simp: register_counter_def Let_def split: sum.splits)
    then show ?thesis
      using True metric_add_total [OF m1(1)] s1 put
      by (intro that [where m = m1 and ms = ms]) (auto simp: max_def)
  next
    case False
    then have "sr' = (s1, reg1)"
      using assms(1) reg s1 val by (simp add: register_counter_def Let_def)
    then show ?thesis using False s1 by (intro that [where m = ?m and ms = ms]) (auto simp: max_def)
  qed
qed

lemma seq_steps_six_ok:
  assumes "seq_steps [f1, f2, f3, f4, f5, f6] c = (c', None)"
  obtains d1 d2 d3 d4 d5 where "f1 c = (d1, None)" "f2 d1 = (d2, None)" "f3 d2 = (d3, None)"
    "f4 d3 = (d4, None)" "f5 d4 = (d5, None)" "f6 d5 = (c', None)"
  using assms by (auto split: prod.splits option.splits)

lemma register_stream_metrics_ok:
  assumes "register_stream_metrics pr sr = (sr', None)"
  obtains m1 m2 m3 m4 m5 l ms where
    "fst sr' = (fst sr)\<lparr>st_packet_sent := m1, st_packet_send_failed := m2,
       st_packet_received := m3, st_packet_dropped := m4, st_round_trip := m5,
       st_latency := l, st_stream_metrics := ms\<rparr>"
    "mt_total m1 = max 0 (st_packet_sent_val (fst sr))"
    "mt_total m2 = max 0 (st_packet_send_failed_val (fst sr))"
    "mt_total m3 = max 0 (st_packet_received_val (fst sr))"
    "mt_total m4 = max 0 (st_packet_dropped_val (fst sr))"
    "mt_total m5 = max 0 (st_round_trip_val (fst sr))"
proof -
  obtain a b c d e where a: "register_counter pr ''packets_sent'' ''total packet sent''
      st_packet_sent_val (\<lambda>m s. s\<lparr>st_packet_sent := m\<rparr>) sr = (a, None)"
    and b: "register_counter pr ''packet_send_failed'' ''total packet send failed''
      st_packet_send_failed_val (\<lambda>m s. s\<lparr>st_packet_send_failed := m\<rparr>) a = (b, None)"
    and c: "register_counter pr ''packets_received'' ''total packet received''
      st_packet_received_val (\<lambda>m s. s\<lparr>st_packet_received := m\<rparr>) b = (c, None)"
    and d: "register_counter pr ''packets_dropped'' ''total packet dropped''
      st_packet_dropped_val (\<lambda>m s. s\<lparr>st_packet_dropped := m\<rparr>) c = (d, None)"
    and e: "register_counter pr ''total_round_trip_time'' ''total round trip time''
      st_round_trip_val (\<lambda>m s. s\<lparr>st_round_trip := m\<rparr>) d = (e, None)"
    and f: "register_latency pr e = (sr', None)"
    by (rule seq_steps_six_ok
        [OF assms [unfolded register_stream_metrics_def stream_metric_steps_def]])
  obtain m1 u1 where m1: "fst a = (fst sr)\<lparr>st_packet_sent := m1, st_stream_metrics := u1\<rparr>"
    "mt_total m1 = max 0 (st_packet_sent_val (fst sr))"
    by (rule register_counter_ok [OF a]) simp_all
  obtain m2 u2 where m2: "fst b = (fst a)\<lparr>st_packet_send_failed := m2, st_stream_metrics := u2\<rparr>"
    "mt_total m2 = max 0 (st_packet_send_failed_val (fst a))"
    by (rule register_counter_ok [OF b]) simp_all
  obtain m3 u3 where m3: "fst c = (fst b)\<lparr>st_packet_received := m3, st_stream_metrics := u3\<rparr>"
    "mt_total m3 = max 0 (st_packet_received_val (fst b))"
    by (rule register_counter_ok [OF c]) simp_all
  obtain m4 u4 where m4: "fst d = (fst c)\<lparr>st_packet_dropped := m4, st_stream_metrics := u4\<rparr>"
    "mt_total m4 = max 0 (st_packet_dropped_val (fst c))"
    by (rule register_counter_ok [OF d]) simp_all
  obtain m5 u5 where m5: "fst e = (fst d)\<lparr>st_round_trip := m5, st_stream_metrics := u5\<rparr>"
    "mt_total m5 = max 0 (st_round_trip_val (fst d))"
    by (rule register_counter_ok [OF e]) simp_all
  obtain l u6 where "fst sr' = (fst e)\<lparr>st_latency := l, st_stream_metrics := u6\<rparr>"
    using register_metric_ok [OF f [unfolded register_latency_def Let_def]] by auto
  then have "fst sr' = (fst sr)\<lparr>st_packet_sent := m1, st_packet_send_failed := m2,
       st_packet_received := m3, st_packet_dropped := m4, st_round_trip := m5,
       st_latency := l, st_stream_metrics := u6\<rparr>"
    using m1(1) m2(1) m3(1) m4(1) m5(1) by simp
  then show ?thesis
    using m1 m2 m3 m4 m5 by (intro that [where ?m1.0 = m1 and ?m2.0 = m2 and ?m3.0 = m3 and ?m4.0 = m4 and ?m5.0 = m5
          and l = l and ms = u6]) simp_all
qed

text \<open>What a successful setup leaves.\<close>

lemma mark_destination_core [simp]: "core (mark_destination s) = core s"
  by (simp add: mark_destination_def Let_def)

lemma connect_stream_ok:
  "connect_stream net conf s = (s', None) \<Longrightarrow>
     core s' = core s \<and> (\<exists>u. st_connection s' = Some u \<and> \<not> uc_closed u)"
  by (auto simp: connect_stream_def Let_def new_conn_def
      split: sum.splits option.splits)

definition fresh_stream :: "stream \<Rightarrow> bool" where
  "fresh_stream s \<longleftrightarrow>
     st_is_stopped s = 3 \<and> \<not> st_stop s \<and> st_packet_sequence s = 0 \<and>
     st_packet_sent_val s = 0 \<and> st_packet_send_failed_val s = 0 \<and>
     st_packet_received_val s = 0 \<and> st_packet_dropped_val s = 0 \<and> st_round_trip_val s = 0"

lemma new_stream_fresh:
  "new_stream cd p n = Inr s \<Longrightarrow> fresh_stream s \<and> st_pair s = p \<and> st_read_buffer_size s = n \<and>
     get_message_header_length cd = Inr (st_msg_header_length s)"
  by (auto simp: new_stream_def fresh_stream_def split: sum.splits go_error.splits)

lemma setup_connection_ok:
  assumes "setup_connection pr net conf (s, reg) = ((s', reg'), None)"
    and "fresh_stream s"
  shows "fresh_stream s'" "bp_pending (st_pair s') = bp_pending (st_pair s)"
    "\<exists>u. st_connection s' = Some u \<and> \<not> uc_closed u" "st_traffic_not_started s' \<noteq> None"
    "mt_total (st_packet_sent s') = 0" "mt_total (st_packet_send_failed s') = 0"
    "mt_total (st_packet_received s') = 0" "mt_total (st_packet_dropped s') = 0"
    "mt_total (st_round_trip s') = 0" "st_read_buffer_size s' = st_read_buffer_size s"
    "st_msg_header_length s' = st_msg_header_length s"
    "\<exists>ls. st_metric_labels s' = clear_server_labels ls"
proof -
  let ?ls = "stream_labels conf (st_pair s)"
  let ?m = "new_counter prom_namespace (bp_traffic_profile (st_pair s))
      ''traffic_not_started'' ''traffic not started'' ?ls"
  let ?s1 = "s\<lparr>st_metric_labels := ?ls, st_traffic_not_started := Some ?m\<rparr>"
  obtain reg1 s2 where con: "connect_stream net conf ?s1 = (s2, None)"
    and reg: "register_stream_metrics pr
        (s2\<lparr>st_metric_labels := clear_server_labels (st_metric_labels s2)\<rparr>, reg1) = ((s', reg'), None)"
    using assms(1)
    by (auto simp: setup_connection_def Let_def split: sum.splits prod.splits option.splits)
  note c = connect_stream_ok [OF con]
  note cf = core_fields [OF conjunct1 [OF c]]
  let ?s3 = "s2\<lparr>st_metric_labels := clear_server_labels (st_metric_labels s2)\<rparr>"
  obtain m1 m2 m3 m4 m5 l ms where r: "s' = ?s3\<lparr>st_packet_sent := m1, st_packet_send_failed := m2,
       st_packet_received := m3, st_packet_dropped := m4, st_round_trip := m5,
       st_latency := l, st_stream_metrics := ms\<rparr>"
    "mt_total m1 = max 0 (st_packet_sent_val ?s3)"
    "mt_total m2 = max 0 (st_packet_send_failed_val ?s3)"
    "mt_total m3 = max 0 (st_packet_received_val ?s3)"
    "mt_total m4 = max 0 (st_packet_dropped_val ?s3)"
    "mt_total m5 = max 0 (st_round_trip_val ?s3)"
    by (rule register_stream_metrics_ok [OF reg]) (simp only: fst_conv)
  show "fresh_stream s'" "bp_pending (st_pair s') = bp_pending (st_pair s)"
    "\<exists>u. st_connection s' = Some u \<and> \<not> uc_closed u" "st_traffic_not_started s' \<noteq> None"
    "mt_total (st_packet_sent s') = 0" "mt_total (st_packet_send_failed s') = 0"
    "mt_total (st_packet_received s') = 0" "mt_total (st_packet_dropped s') = 0"
    "mt_total (st_round_trip s') = 0" "st_read_buffer_size s' = st_read_buffer_size s"
    "st_msg_header_length s' = st_msg_header_length s"
    "\<exists>ls. st_metric_labels s' = clear_server_labels ls"
    using assms(2) r c cf by (auto simp: fresh_stream_def)
qed

end
