(* ===== verification/TgenLoops.thy ===== *)
theory TgenLoops
  imports TgenStream
begin

section \<open>The three goroutines of a client stream (\<open>pkg/tgen/udp.go\<close>)\<close>

text \<open>
  \<open>StartPackets\<close>, \<open>SocketRead\<close> and \<open>HandleTimeouts\<close> as they are scheduled: a goroutine is
  a program counter and its local variables, and one step runs it to the next point where
  another goroutine can be observed.  What is done while the mutex is held is one step;
  the statements outside it that touch the shared counters are steps of their own.  Clock
  readings, random draws and the results of the socket calls are inputs.
\<close>

subsection \<open>\<open>SocketRead\<close>: one datagram\<close>

definition server_changed :: "pod_info \<Rightarrow> labels \<Rightarrow> bool" where
  "server_changed info ls \<longleftrightarrow>
     pod_namespace info \<noteq> label_get ls ''server_namespace'' \<or>
     pod_name info \<noteq> label_get ls ''server_pod'' \<or>
     worker_name info \<noteq> label_get ls ''server_node''"

definition set_server_labels :: "pod_info \<Rightarrow> labels \<Rightarrow> labels" where
  "set_server_labels info ls =
     AList.update ''server_node'' (worker_name info)
       (AList.update ''server_pod'' (pod_name info)
         (AList.update ''server_namespace'' (pod_namespace info) ls))"

definition set_pending :: "((int64 \<rightharpoonup> int64) \<Rightarrow> (int64 \<rightharpoonup> int64)) \<Rightarrow> stream \<Rightarrow> stream" where
  "set_pending f s = s\<lparr>st_pair := (st_pair s)\<lparr>bp_pending := f (bp_pending (st_pair s))\<rparr>\<rparr>"

text \<open>The reply of a pending packet, accounted for.\<close>

definition count_reply :: "int \<Rightarrow> int64 \<Rightarrow> metric \<Rightarrow> stream \<Rightarrow> stream" where
  "count_reply rtt seq m s =
     set_pending (\<lambda>p. p(seq := None))
       (s\<lparr>st_round_trip := m, st_round_trip_val := st_round_trip_val s + rtt,
          st_latency := metric_observe rtt (st_latency s),
          st_packet_received := metric_inc (st_packet_received s),
          st_packet_received_val := st_packet_received_val s + 1\<rparr>)"

definition follow_server :: "'r prom \<Rightarrow> pod_info \<Rightarrow> 'r stream_reg \<Rightarrow> 'r stream_reg go" where
  "follow_server pr info sr =
     (if server_changed info (st_metric_labels (fst sr))
      then (case reregister_stream_metrics pr
                   ((fst sr)\<lparr>st_metric_labels := set_server_labels info (st_metric_labels (fst sr))\<rparr>,
                    snd sr) of
              (_, Some p) \<Rightarrow> Inl p
            | (sr', None) \<Rightarrow> Inr sr')
      else Inr sr)"

text \<open>The critical section.\<close>

definition receive_reply ::
  "'r prom \<Rightarrow> int64 \<Rightarrow> message \<Rightarrow> pod_info \<Rightarrow> 'r stream_reg \<Rightarrow> 'r stream_reg go" where
  "receive_reply pr now msg info sr =
     (let s = fst sr in
      case bp_pending (st_pair s) (sequence_number msg) of
        None \<Rightarrow> Inr sr
      | Some _ \<Rightarrow>
          (let rtt = sint (now - send_time_stamp msg)
           in bindS (metric_add pr rtt (st_round_trip s)) (\<lambda>m.
                follow_server pr info (count_reply rtt (sequence_number msg) m s, snd sr))))"

definition client_handle ::
  "codec \<Rightarrow> 'r prom \<Rightarrow> int64 \<Rightarrow> udp_read \<Rightarrow> byte list \<Rightarrow> 'r stream_reg \<Rightarrow> (byte list \<times> 'r stream_reg) go" where
  "client_handle cd pr now rd buf sr =
     (case rd of
        ReadFailed \<Rightarrow> Inr (buf, sr)
      | Datagram data _ \<Rightarrow>
          (let buf1 = go_copy buf data; hl = st_msg_header_length (fst sr)
           in if 0 < min (length data) (length buf) then
                bindS (go_slice buf1 0 (sint hl)) (\<lambda>hdr.
                  (let (msg, err) = unmarshal_msg cd hdr
                   in bindS (go_slice buf1 (sint hl) (sint (hl + server_info_length msg))) (\<lambda>tl.
                        (let (info, err1) = unmarshal_pod cd tl
                         in if err \<noteq> None \<or> err1 \<noteq> None then Inr (buf1, sr)
                            else if sequence_number msg = -1 then Inr (buf1, sr)
                            else bindS (receive_reply pr now msg info sr) (\<lambda>sr'. Inr (buf1, sr'))))))
              else Inr (buf1, sr)))"

subsection \<open>\<open>HandleTimeouts\<close>\<close>

datatype scan_pc = TimInit | TimHead | TimScan | TimLookup | TimRedial | TimDone

record scanner =
  tm_pc :: scan_pc
  tm_seq :: int64
  tm_timedout_pkt_count :: int64
  tm_start_timeout :: int64
  tm_packet_timeout_micros :: int64
  tm_redial_timeout_micros :: int64
  tm_redial_successive :: int64

definition new_scanner :: scanner where
  "new_scanner =
     \<lparr>tm_pc = TimInit, tm_seq = 1, tm_timedout_pkt_count = 0, tm_start_timeout = 0,
      tm_packet_timeout_micros = 0, tm_redial_timeout_micros = 0, tm_redial_successive = 0\<rparr>"

text \<open>The settings are read once, when the goroutine starts.\<close>

definition scan_init :: "tgen_config \<Rightarrow> scanner \<Rightarrow> scanner" where
  "scan_init conf t =
     t\<lparr>tm_packet_timeout_micros := sec_to_micro_sec (packet_timeout conf),
       tm_redial_timeout_micros := sec_to_micro_sec (redial_timeout conf),
       tm_redial_successive := packet_timeout conf * send_rate conf, tm_pc := TimHead\<rparr>"

definition packet_timed_out :: "int64 \<Rightarrow> int64 \<Rightarrow> scanner \<Rightarrow> bool" where
  "packet_timed_out now ts t \<longleftrightarrow> tm_packet_timeout_micros t <s now - ts"

definition count_dropped :: "int64 \<Rightarrow> stream \<Rightarrow> stream" where
  "count_dropped seq s =
     set_pending (\<lambda>p. p(seq := None))
       (s\<lparr>st_packet_dropped := metric_inc (st_packet_dropped s),
          st_packet_dropped_val := st_packet_dropped_val s + 1\<rparr>)"

definition note_timeout :: "int64 \<Rightarrow> scanner \<Rightarrow> scanner" where
  "note_timeout now t =
     (if tm_start_timeout t = 0 then t\<lparr>tm_start_timeout := now\<rparr>
      else if tm_start_timeout t = -1
      then t\<lparr>tm_timedout_pkt_count := tm_timedout_pkt_count t + 1\<rparr> else t)"

text \<open>The body of the scan loop, up to the redial, for the clock readings \<open>now1\<close> and \<open>now2\<close>.\<close>

definition scan_lookup :: "int64 \<Rightarrow> int64 \<Rightarrow> scanner \<times> stream \<Rightarrow> scanner \<times> stream" where
  "scan_lookup now1 now2 ts =
     (let (t, s) = ts; seq = tm_seq t in
      case bp_pending (st_pair s) seq of
        Some sent \<Rightarrow>
          if packet_timed_out now1 sent t
          then ((note_timeout now2 (t\<lparr>tm_seq := seq + 1\<rparr>))\<lparr>tm_pc := TimRedial\<rparr>, count_dropped seq s)
          else (t\<lparr>tm_pc := TimHead\<rparr>, s)
      | None \<Rightarrow>
          (let t1 = (if 0 <s tm_timedout_pkt_count t then t\<lparr>tm_timedout_pkt_count := 0\<rparr> else t);
               t2 = t1\<lparr>tm_seq := seq + 1\<rparr>
           in (t2\<lparr>tm_pc := (if seq + 1 = st_packet_sequence s then TimHead else TimScan)\<rparr>, s)))"

definition redial_due :: "int64 \<Rightarrow> scanner \<Rightarrow> stream \<Rightarrow> bool" where
  "redial_due now t s \<longleftrightarrow>
     rem_is_dn (bp_destination (st_pair s)) \<and>
     ((0 <s tm_start_timeout t \<and> tm_redial_timeout_micros t <s now - tm_start_timeout t) \<or>
      tm_redial_successive t <s tm_timedout_pkt_count t)"

definition scan_redial ::
  "client_net \<Rightarrow> tgen_config \<Rightarrow> int64 \<Rightarrow> scanner \<times> stream \<Rightarrow> scanner \<times> stream" where
  "scan_redial net conf now ts =
     (let (t, s) = ts; t1 = t\<lparr>tm_pc := TimScan\<rparr> in
      if redial_due now t s
      then (let (s1, err) = redial_destination net conf False s
            in (t1\<lparr>tm_start_timeout := (if err = None then -1 else 0), tm_timedout_pkt_count := 0\<rparr>, s1))
      else (t1, s))"

subsection \<open>\<open>StartPackets\<close>\<close>

text \<open>
  The program counter carries the target of the burst that is running.  \<open>SndStore\<close> to
  \<open>SndVal\<close> are the steps of one packet: enter it as pending, write it, and count it as
  sent, or take it back and count it as failed.
\<close>

datatype send_pc =
    SndInit | SndDummyInit | SndDummy nat | SndHead | SndPace
  | SndBurst int64 | SndStore int64 | SndWrite int64 | SndUnstore int64
  | SndFailInc int64 | SndFailVal int64 | SndInc int64 | SndVal int64
  | SndDone

record sender =
  sd_pc :: send_pc
  sd_payload :: "byte list"
  sd_base_msg :: message
  sd_base_bytes :: "byte list"
  sd_test_bytes :: "byte list"
  sd_interval :: int64
  sd_start :: int64
  sd_pause_period :: int64

definition new_sender :: sender where
  "new_sender =
     \<lparr>sd_pc = SndInit, sd_payload = [], sd_base_msg = new_message 0 0 0, sd_base_bytes = [],
      sd_test_bytes = [], sd_interval = 0, sd_start = 0, sd_pause_period = 0\<rparr>"

definition payload_size :: "tgen_config \<Rightarrow> int64 \<Rightarrow> int64" where
  "payload_size conf hl =
     (let n = packet_size conf - hl in if n <s 0 then hl + 1 else n)"

text \<open>
  Up to the dummy packets: the sender, or \<open>None\<close> when the base message cannot be encoded.
  (\<open>GetPaddingPayload\<close> never returns an error, so its error branch has no counterpart.)
\<close>

definition send_init :: "codec \<Rightarrow> tgen_config \<Rightarrow> int64 \<Rightarrow> int64 \<Rightarrow> sender \<Rightarrow> sender option go" where
  "send_init cd conf hl now d =
     bindS (get_padding_payload (payload_size conf hl)) (\<lambda>payload.
       (let base = new_message 0 0 (packet_size conf) in
        case marshal_msg cd base of
          Inl e \<Rightarrow> Inr None
        | Inr bs \<Rightarrow>
            bindS (go_div (sec_to_micro_sec 1) (send_rate conf)) (\<lambda>interval.
              Inr (Some (d\<lparr>sd_payload := payload, sd_base_msg := base,
                           sd_base_bytes := bs @ payload, sd_interval := interval,
                           sd_start := now, sd_pause_period := 0, sd_pc := SndDummyInit\<rparr>)))))"

definition to_service :: "stream \<Rightarrow> bool" where
  "to_service s \<longleftrightarrow> go_contains (to_lower (bp_traffic_scenario (st_pair s))) ''service''"

text \<open>\<open>sendDummyPackets\<close>: its preparation, and one packet with the forced redial.\<close>

definition dummy_init ::
  "codec \<Rightarrow> tgen_config \<Rightarrow> int64 \<Rightarrow> nat result \<Rightarrow> stream \<Rightarrow> sender \<Rightarrow> sender" where
  "dummy_init cd conf now draw s d =
     (if \<not> to_service s then d\<lparr>sd_pc := SndHead\<rparr>
      else (case marshal_msg cd (new_message (-1) now (packet_size conf)) of
              Inl e \<Rightarrow> d\<lparr>sd_pc := SndHead\<rparr>
            | Inr bs \<Rightarrow>
                (case draw of
                   Inl e \<Rightarrow> d\<lparr>sd_pc := SndHead\<rparr>
                 | Inr count \<Rightarrow>
                     d\<lparr>sd_test_bytes := bs @ sd_payload d,
                       sd_pc := (if count = 0 then SndHead else SndDummy count)\<rparr>)))"

definition dummy_packet ::
  "client_net \<Rightarrow> tgen_config \<Rightarrow> go_error option \<Rightarrow> nat
    \<Rightarrow> sender \<times> stream \<Rightarrow> sender \<times> stream" where
  "dummy_packet net conf write_err k ds =
     (let (d, s) = ds in
      if write_err \<noteq> None then (d\<lparr>sd_pc := SndHead\<rparr>, s)
      else (let (s1, err) = redial_destination net conf True s
            in (d\<lparr>sd_pc := (if err = None \<and> 1 < k then SndDummy (k - 1) else SndHead)\<rparr>, s1)))"

text \<open>The head of the loop after its stop check: pause, or set the target of the next burst.\<close>

definition send_target :: "tgen_config \<Rightarrow> int64 \<Rightarrow> sender \<Rightarrow> int64" where
  "send_target conf now d =
     word_of_int (sint ((now - sd_start d - sd_pause_period d) * send_rate conf) sdiv 1000000)"

definition send_pace :: "tgen_config \<Rightarrow> int64 \<Rightarrow> int64 \<Rightarrow> sender \<Rightarrow> sender" where
  "send_pace conf now1 now2 d =
     (if suspend_traffic conf
      then d\<lparr>sd_pause_period := sd_pause_period d + (now2 - now1), sd_pc := SndHead\<rparr>
      else d\<lparr>sd_pc := SndBurst (send_target conf now1 d)\<rparr>)"

text \<open>The next packet of a burst: its number, its time, and its bytes.\<close>

definition send_burst :: "codec \<Rightarrow> int64 \<Rightarrow> int64 \<Rightarrow> sender \<times> stream \<Rightarrow> sender \<times> stream" where
  "send_burst cd target now ds =
     (let (d, s) = ds in
      if st_packet_sequence s <s target then
        (let seq = st_packet_sequence s + 1;
             s1 = s\<lparr>st_packet_sequence := seq\<rparr>;
             msg = (sd_base_msg d)\<lparr>sequence_number := seq, send_time_stamp := now\<rparr>;
             d1 = d\<lparr>sd_base_msg := msg\<rparr>
         in case marshal_msg cd msg of
              Inl e \<Rightarrow> (d1\<lparr>sd_pc := SndFailInc target\<rparr>, s1)
            | Inr bs \<Rightarrow> (d1\<lparr>sd_base_bytes := go_copy (sd_base_bytes d1) bs, sd_pc := SndStore target\<rparr>, s1))
      else (d\<lparr>sd_pc := SndHead\<rparr>, s))"

definition send_store :: "int64 \<Rightarrow> sender \<times> stream \<Rightarrow> sender \<times> stream" where
  "send_store target ds =
     (let (d, s) = ds
      in (d\<lparr>sd_pc := SndWrite target\<rparr>,
          set_pending (\<lambda>p. p(st_packet_sequence s \<mapsto> send_time_stamp (sd_base_msg d))) s))"

definition send_unstore :: "int64 \<Rightarrow> sender \<times> stream \<Rightarrow> sender \<times> stream" where
  "send_unstore target ds =
     (let (d, s) = ds
      in (d\<lparr>sd_pc := SndFailInc target\<rparr>, set_pending (\<lambda>p. p(st_packet_sequence s := None)) s))"

end
