(* ===== verification/TgenSystem.thy ===== *)
theory TgenSystem
  imports TgenLoops Workers
begin

section \<open>A running client stream\<close>

text \<open>
  The stream, the shared configuration, the metric registry and the three goroutines.
  \<open>client_step\<close> interleaves them; a panic ends the process.  \<open>client_reachable\<close> starts
  from what \<open>newStream\<close> and a successful \<open>SetupConnection\<close> leave, and besides the
  goroutines lets the controller change the configuration and the other owners of the
  registry change the registry at any time, and the controller begin the teardown.  A closed socket neither delivers nor accepts a packet.
\<close>

datatype read_pc = RdInit | RdHead | RdBody | RdDone

record 'r client_sys =
  cs_stream :: stream
  cs_conf :: tgen_config
  cs_registry :: 'r
  cs_sender :: sender
  cs_scanner :: scanner
  cs_reader :: read_pc
  cs_buffer :: "byte list"
  cs_panic :: "go_panic option"
  cs_written :: "byte list list"

definition client_start :: "stream \<Rightarrow> tgen_config \<Rightarrow> 'r \<Rightarrow> 'r client_sys" where
  "client_start s conf reg =
     \<lparr>cs_stream = s, cs_conf = conf, cs_registry = reg, cs_sender = new_sender,
      cs_scanner = new_scanner, cs_reader = RdInit, cs_buffer = [], cs_panic = None,
      cs_written = []\<rparr>"

text \<open>\<open>isStopped.Done()\<close>, then the goroutine returns.\<close>

definition client_done :: "('r client_sys \<Rightarrow> 'r client_sys) \<Rightarrow> 'r client_sys \<Rightarrow> 'r client_sys" where
  "client_done upd sy =
     (case wg_done (st_is_stopped (cs_stream sy)) of
        Inl p \<Rightarrow> sy\<lparr>cs_panic := Some p\<rparr>
      | Inr w \<Rightarrow> upd (sy\<lparr>cs_stream := (cs_stream sy)\<lparr>st_is_stopped := w\<rparr>\<rparr>))"

subsection \<open>Steps\<close>

definition socket_read_step ::
  "codec \<Rightarrow> 'r prom \<Rightarrow> int64 \<Rightarrow> udp_read \<Rightarrow> 'r client_sys \<Rightarrow> 'r client_sys" where
  "socket_read_step cd pr now rd sy =
     (case cs_reader sy of
        RdInit \<Rightarrow>
          (if st_read_buffer_size (cs_stream sy) <s 0 then sy\<lparr>cs_panic := Some MakeSliceRange\<rparr>
           else sy\<lparr>cs_buffer := replicate (nat (sint (st_read_buffer_size (cs_stream sy)))) 0,
                   cs_reader := RdHead\<rparr>)
      | RdHead \<Rightarrow>
          (if st_stop (cs_stream sy) then client_done (\<lambda>sy. sy\<lparr>cs_reader := RdDone\<rparr>) sy
           else sy\<lparr>cs_reader := RdBody\<rparr>)
      | RdBody \<Rightarrow>
          (case client_handle cd pr now rd (cs_buffer sy) (cs_stream sy, cs_registry sy) of
             Inl p \<Rightarrow> sy\<lparr>cs_panic := Some p\<rparr>
           | Inr (buf, s, reg) \<Rightarrow>
               sy\<lparr>cs_buffer := buf, cs_stream := s, cs_registry := reg, cs_reader := RdHead\<rparr>)
      | RdDone \<Rightarrow> sy)"

definition put_scan :: "scanner \<times> stream \<Rightarrow> 'r client_sys \<Rightarrow> 'r client_sys" where
  "put_scan ts sy = sy\<lparr>cs_scanner := fst ts, cs_stream := snd ts\<rparr>"

definition at_scan :: "scan_pc \<Rightarrow> 'r client_sys \<Rightarrow> 'r client_sys" where
  "at_scan pc sy = sy\<lparr>cs_scanner := (cs_scanner sy)\<lparr>tm_pc := pc\<rparr>\<rparr>"

definition timeouts_step ::
  "client_net \<Rightarrow> int64 \<Rightarrow> int64 \<Rightarrow> 'r client_sys \<Rightarrow> 'r client_sys" where
  "timeouts_step net now1 now2 sy =
     (let t = cs_scanner sy; s = cs_stream sy in
      case tm_pc t of
        TimInit \<Rightarrow> put_scan (scan_init (cs_conf sy) t, s) sy
      | TimHead \<Rightarrow> if st_stop s then client_done (at_scan TimDone) sy else at_scan TimScan sy
      | TimScan \<Rightarrow>
          if tm_seq t <s st_packet_sequence s
          then (if st_stop s then client_done (at_scan TimDone) sy else at_scan TimLookup sy)
          else at_scan TimHead sy
      | TimLookup \<Rightarrow> put_scan (scan_lookup now1 now2 (t, s)) sy
      | TimRedial \<Rightarrow> put_scan (scan_redial net (cs_conf sy) now1 (t, s)) sy
      | TimDone \<Rightarrow> sy)"

definition put_send :: "sender \<times> stream \<Rightarrow> 'r client_sys \<Rightarrow> 'r client_sys" where
  "put_send ds sy = sy\<lparr>cs_sender := fst ds, cs_stream := snd ds\<rparr>"

definition at_send :: "send_pc \<Rightarrow> 'r client_sys \<Rightarrow> 'r client_sys" where
  "at_send pc sy = sy\<lparr>cs_sender := (cs_sender sy)\<lparr>sd_pc := pc\<rparr>\<rparr>"

record send_in =
  si_now1 :: int64
  si_now2 :: int64
  si_write_err :: "go_error option"
  si_draw :: "nat result"
  si_net :: client_net

definition start_packets_step ::
  "codec \<Rightarrow> send_in \<Rightarrow> 'r client_sys \<Rightarrow> 'r client_sys" where
  "start_packets_step cd i sy =
     (let d = cs_sender sy; s = cs_stream sy in
      case sd_pc d of
        SndInit \<Rightarrow>
          (case send_init cd (cs_conf sy) (st_msg_header_length s) (si_now1 i) d of
             Inl p \<Rightarrow> sy\<lparr>cs_panic := Some p\<rparr>
           | Inr None \<Rightarrow>
               client_done (\<lambda>sy. at_send SndDone (sy\<lparr>cs_stream := not_started (cs_stream sy)\<rparr>)) sy
           | Inr (Some d') \<Rightarrow> put_send (d', s) sy)
      | SndDummyInit \<Rightarrow> put_send (dummy_init cd (cs_conf sy) (si_now1 i) (si_draw i) s d, s) sy
      | SndDummy k \<Rightarrow>
          put_send (dummy_packet (si_net i) (cs_conf sy) (si_write_err i) k (d, s))
            (sy\<lparr>cs_written := cs_written sy @ (if si_write_err i = None then [sd_test_bytes d] else [])\<rparr>)
      | SndHead \<Rightarrow> if st_stop s then client_done (at_send SndDone) sy else at_send SndPace sy
      | SndPace \<Rightarrow> put_send (send_pace (cs_conf sy) (si_now1 i) (si_now2 i) d, s) sy
      | SndBurst n \<Rightarrow> put_send (send_burst cd n (si_now1 i) (d, s)) sy
      | SndStore n \<Rightarrow> put_send (send_store n (d, s)) sy
      | SndWrite n \<Rightarrow>
          (if si_write_err i = None
           then at_send (SndInc n) (sy\<lparr>cs_written := cs_written sy @ [sd_base_bytes d]\<rparr>)
           else at_send (SndUnstore n) sy)
      | SndUnstore n \<Rightarrow> put_send (send_unstore n (d, s)) sy
      | SndFailInc n \<Rightarrow>
          at_send (SndFailVal n)
            (sy\<lparr>cs_stream := s\<lparr>st_packet_send_failed := metric_inc (st_packet_send_failed s)\<rparr>\<rparr>)
      | SndFailVal n \<Rightarrow>
          at_send (SndBurst n)
            (sy\<lparr>cs_stream := s\<lparr>st_packet_send_failed_val := st_packet_send_failed_val s + 1\<rparr>\<rparr>)
      | SndInc n \<Rightarrow>
          at_send (SndVal n) (sy\<lparr>cs_stream := s\<lparr>st_packet_sent := metric_inc (st_packet_sent s)\<rparr>\<rparr>)
      | SndVal n \<Rightarrow>
          at_send (SndBurst n) (sy\<lparr>cs_stream := s\<lparr>st_packet_sent_val := st_packet_sent_val s + 1\<rparr>\<rparr>)
      | SndDone \<Rightarrow> sy)"

definition socket_open :: "stream \<Rightarrow> bool" where
  "socket_open s \<longleftrightarrow> (case st_connection s of None \<Rightarrow> False | Some u \<Rightarrow> \<not> uc_closed u)"

inductive client_step ::
  "codec \<Rightarrow> 'r prom \<Rightarrow> 'r client_sys \<Rightarrow> 'r client_sys \<Rightarrow> bool"
  for cd :: codec and pr :: "'r prom" where
  reader: "cs_panic sy = None \<Longrightarrow> cs_reader sy \<noteq> RdDone \<Longrightarrow>
    (rd \<noteq> ReadFailed \<longrightarrow> socket_open (cs_stream sy)) \<Longrightarrow>
    client_step cd pr sy (socket_read_step cd pr now rd sy)"
| timeouts: "cs_panic sy = None \<Longrightarrow> tm_pc (cs_scanner sy) \<noteq> TimDone \<Longrightarrow>
    client_step cd pr sy (timeouts_step net now1 now2 sy)"
| sender: "cs_panic sy = None \<Longrightarrow> sd_pc (cs_sender sy) \<noteq> SndDone \<Longrightarrow>
    (si_write_err i = None \<longrightarrow> socket_open (cs_stream sy)) \<Longrightarrow>
    (\<forall>n. si_draw i = Inr n \<longrightarrow> n < 10) \<Longrightarrow>
    client_step cd pr sy (start_packets_step cd i sy)"

inductive client_reachable ::
  "codec \<Rightarrow> 'r prom \<Rightarrow> 'r client_sys \<Rightarrow> bool"
  for cd :: codec and pr :: "'r prom" where
  start: "new_stream cd p n = Inr s \<Longrightarrow> bp_pending p = Map.empty \<Longrightarrow>
    setup_connection pr net conf0 (s, reg0) = ((s', reg), None) \<Longrightarrow>
    client_reachable cd pr (client_start s' conf reg)"
| work: "client_reachable cd pr sy \<Longrightarrow> client_step cd pr sy sy' \<Longrightarrow>
    client_reachable cd pr sy'"
| environment: "client_reachable cd pr sy \<Longrightarrow>
    client_reachable cd pr (sy\<lparr>cs_conf := conf, cs_registry := reg\<rparr>)"
| teardown: "client_reachable cd pr sy \<Longrightarrow>
    teardown_begin pr (cs_stream sy, cs_registry sy) = Inr (s, reg) \<Longrightarrow>
    client_reachable cd pr (sy\<lparr>cs_stream := s, cs_registry := reg\<rparr>)"

end
