(* ===== verification/TgenAccounts.thy ===== *)
theory TgenAccounts
  imports TgenSystem Samples
begin

section \<open>Accounting for every packet of a client stream\<close>

text \<open>
  The invariant of a running stream: every number given to a packet is sent, failed or in
  the sender's hands, every packet entered as pending is received, dropped or still
  pending, and the timeout scan never passes a pending packet.  The exported counters of
  what the mutex protects agree with the values kept beside them.
\<close>

subsection \<open>The invariant\<close>

definition in_flight :: "send_pc \<Rightarrow> int" where
  "in_flight pc =
     (case pc of SndStore _ \<Rightarrow> 1 | SndWrite _ \<Rightarrow> 1 | SndUnstore _ \<Rightarrow> 1 | SndFailInc _ \<Rightarrow> 1
      | SndFailVal _ \<Rightarrow> 1 | SndInc _ \<Rightarrow> 1 | SndVal _ \<Rightarrow> 1 | _ \<Rightarrow> 0)"

definition entered :: "send_pc \<Rightarrow> int" where
  "entered pc =
     (case pc of SndWrite _ \<Rightarrow> 1 | SndUnstore _ \<Rightarrow> 1 | SndInc _ \<Rightarrow> 1 | SndVal _ \<Rightarrow> 1 | _ \<Rightarrow> 0)"

definition not_entered :: "send_pc \<Rightarrow> int" where
  "not_entered pc = (case pc of SndStore _ \<Rightarrow> 1 | _ \<Rightarrow> 0)"

lemmas pc_weights = in_flight_def entered_def not_entered_def

lemma pc_weights_bounds: "0 \<le> not_entered pc" "0 \<le> entered pc" "in_flight pc \<le> 1" "0 \<le> in_flight pc"
  by (simp_all add: pc_weights split: send_pc.splits)

definition pending :: "stream \<Rightarrow> (int64 \<rightharpoonup> int64)" where
  "pending s = bp_pending (st_pair s)"

definition accounted :: "stream \<Rightarrow> int" where
  "accounted s = st_packet_received_val s + st_packet_dropped_val s + int (card (dom (pending s)))"

definition vals_nonneg :: "stream \<Rightarrow> bool" where
  "vals_nonneg s \<longleftrightarrow> 0 \<le> st_packet_sent_val s \<and> 0 \<le> st_packet_send_failed_val s \<and>
     0 \<le> st_packet_received_val s \<and> 0 \<le> st_packet_dropped_val s \<and> 0 \<le> st_round_trip_val s"

definition stream_inv :: "stream \<Rightarrow> send_pc \<Rightarrow> scanner \<Rightarrow> bool" where
  "stream_inv s pc t \<longleftrightarrow>
     finite (dom (pending s)) \<and> vals_nonneg s \<and>
     st_packet_sent_val s + st_packet_send_failed_val s + in_flight pc = sint (st_packet_sequence s) \<and>
     accounted s + not_entered pc \<le> sint (st_packet_sequence s) \<and>
     st_packet_sent_val s + entered pc \<le> accounted s \<and>
     (\<forall>k v. pending s k = Some v \<longrightarrow> sint (tm_seq t) \<le> sint k \<and>
        sint k + not_entered pc \<le> sint (st_packet_sequence s)) \<and>
     1 \<le> sint (tm_seq t) \<and> sint (tm_seq t) \<le> max 1 (sint (st_packet_sequence s)) \<and>
     (tm_pc t = TimLookup \<longrightarrow> sint (tm_seq t) < sint (st_packet_sequence s))"

definition exports_inv :: "stream \<Rightarrow> send_pc \<Rightarrow> bool" where
  "exports_inv s pc \<longleftrightarrow>
     mt_total (st_packet_received s) = st_packet_received_val s \<and>
     mt_total (st_packet_dropped s) = st_packet_dropped_val s \<and>
     mt_total (st_round_trip s) = st_round_trip_val s \<and>
     mt_total (st_packet_sent s) \<le> st_packet_sent_val s + (case pc of SndVal _ \<Rightarrow> 1 | _ \<Rightarrow> 0) \<and>
     mt_total (st_packet_send_failed s) \<le>
       st_packet_send_failed_val s + (case pc of SndFailVal _ \<Rightarrow> 1 | _ \<Rightarrow> 0)"

lemma core_inv:
  assumes "core s = core t"
  shows "stream_inv s pc sc = stream_inv t pc sc" "exports_inv s pc = exports_inv t pc"
    "pending s = pending t"
  using core_fields [OF assms]
  by (simp_all add: stream_inv_def exports_inv_def pending_def accounted_def vals_nonneg_def)

lemma pending_set [simp]: "pending (set_pending f s) = f (pending s)"
  by (simp add: pending_def set_pending_def)

lemma card_delete: "finite (dom p) \<Longrightarrow> p k = Some v \<Longrightarrow> int (card (dom (p(k := None)))) = int (card (dom p)) - 1"
proof -
  assume "finite (dom p)" "p k = Some v"
  then have "k \<in> dom p" "0 < card (dom p)" by (auto simp: card_gt_0_iff)
  then show ?thesis using \<open>finite (dom p)\<close> by (simp add: of_nat_diff)
qed

lemma card_insert_fresh: "finite (dom p) \<Longrightarrow> p k = None \<Longrightarrow> int (card (dom (p(k \<mapsto> v)))) = int (card (dom p)) + 1"
  by (simp add: domIff)

subsection \<open>The reader's critical section\<close>

lemma count_reply_inv:
  assumes "stream_inv s pc t" and "pending s k = Some v" and "0 \<le> rtt"
  shows "stream_inv (count_reply rtt k m s) pc t"
proof -
  have p: "pending (count_reply rtt k m s) = (pending s)(k := None)"
    by (simp add: count_reply_def pending_def set_pending_def)
  have "accounted (count_reply rtt k m s) = accounted s"
    using assms(1,2) card_delete [of "pending s" k v]
    by (simp add: accounted_def p stream_inv_def) (simp add: count_reply_def set_pending_def)
  then show ?thesis
    using assms unfolding stream_inv_def p
    by (auto simp: vals_nonneg_def count_reply_def set_pending_def)
qed

lemma count_reply_exports:
  assumes "exports_inv s pc" and "metric_add pr rtt (st_round_trip s) = Inr m"
  shows "exports_inv (count_reply rtt k m s) pc"
  using assms metric_add_total [OF assms(2)]
  by (simp add: exports_inv_def count_reply_def set_pending_def)

lemma follow_server_ok:
  assumes "follow_server pr info sr = Inr sr'"
  shows "stream_inv (fst sr') pc t = stream_inv (fst sr) pc t"
    "exports_inv (fst sr) pc \<Longrightarrow> vals_nonneg (fst sr) \<Longrightarrow> exports_inv (fst sr') pc"
    "st_is_stopped (fst sr') = st_is_stopped (fst sr)" "st_stop (fst sr') = st_stop (fst sr)"
    "st_packet_sequence (fst sr') = st_packet_sequence (fst sr)"
    "st_msg_header_length (fst sr') = st_msg_header_length (fst sr)"
proof -
  have "(stream_inv (fst sr') pc t = stream_inv (fst sr) pc t) \<and>
    (exports_inv (fst sr) pc \<longrightarrow> vals_nonneg (fst sr) \<longrightarrow> exports_inv (fst sr') pc) \<and>
    st_is_stopped (fst sr') = st_is_stopped (fst sr) \<and> st_stop (fst sr') = st_stop (fst sr) \<and>
    st_packet_sequence (fst sr') = st_packet_sequence (fst sr) \<and>
    st_msg_header_length (fst sr') = st_msg_header_length (fst sr)"
  proof (cases "server_changed info (st_metric_labels (fst sr))")
    case False
    then show ?thesis using assms by (simp add: follow_server_def)
  next
    case True
    let ?s = "(fst sr)\<lparr>st_metric_labels := set_server_labels info (st_metric_labels (fst sr))\<rparr>"
    have reg: "register_stream_metrics pr (deregister_stream_metrics pr (?s, snd sr)) = (sr', None)"
      using assms True by (auto simp: follow_server_def reregister_stream_metrics_def
          split: prod.splits option.splits)
    have de: "fst (deregister_stream_metrics pr (?s, snd sr)) = ?s"
      by (simp add: deregister_stream_metrics_def)
    obtain m1 m2 m3 m4 m5 l ms where r: "fst sr' = ?s\<lparr>st_packet_sent := m1,
         st_packet_send_failed := m2, st_packet_received := m3, st_packet_dropped := m4,
         st_round_trip := m5, st_latency := l, st_stream_metrics := ms\<rparr>"
      "mt_total m1 = max 0 (st_packet_sent_val ?s)"
      "mt_total m2 = max 0 (st_packet_send_failed_val ?s)"
      "mt_total m3 = max 0 (st_packet_received_val ?s)"
      "mt_total m4 = max 0 (st_packet_dropped_val ?s)"
      "mt_total m5 = max 0 (st_round_trip_val ?s)"
      by (rule register_stream_metrics_ok [OF reg]) (simp only: de)
    show ?thesis
      unfolding r(1) using r(2-)
      by (simp add: stream_inv_def exports_inv_def vals_nonneg_def accounted_def pending_def
          split: send_pc.splits)
  qed
  then show "stream_inv (fst sr') pc t = stream_inv (fst sr) pc t"
    "exports_inv (fst sr) pc \<Longrightarrow> vals_nonneg (fst sr) \<Longrightarrow> exports_inv (fst sr') pc"
    "st_is_stopped (fst sr') = st_is_stopped (fst sr)" "st_stop (fst sr') = st_stop (fst sr)"
    "st_packet_sequence (fst sr') = st_packet_sequence (fst sr)"
    "st_msg_header_length (fst sr') = st_msg_header_length (fst sr)"
    by simp_all
qed

lemma receive_reply_inv:
  assumes "receive_reply pr now msg info sr = Inr sr'" and "stream_inv (fst sr) pc t"
    and "exports_inv (fst sr) pc" and "add_panics_on_negative pr"
  shows "stream_inv (fst sr') pc t \<and> exports_inv (fst sr') pc \<and>
    st_is_stopped (fst sr') = st_is_stopped (fst sr) \<and> st_stop (fst sr') = st_stop (fst sr)"
proof (cases "pending (fst sr) (sequence_number msg)")
  case None
  then show ?thesis using assms by (simp add: receive_reply_def pending_def Let_def)
next
  case (Some v)
  let ?rtt = "sint (now - send_time_stamp msg)"
  obtain m where m: "metric_add pr ?rtt (st_round_trip (fst sr)) = Inr m"
    and f: "follow_server pr info
      (count_reply ?rtt (sequence_number msg) m (fst sr), snd sr) = Inr sr'"
    using assms(1) Some by (auto simp: receive_reply_def pending_def Let_def bindS_Inr_iff)
  have rtt: "0 \<le> ?rtt"
    using m assms(4) by (auto simp: metric_add_def add_panics_on_negative_def split: if_splits)
  note inv = count_reply_inv [OF assms(2) Some rtt, of m]
  have "vals_nonneg (count_reply ?rtt (sequence_number msg) m (fst sr))"
    using inv by (simp add: stream_inv_def)
  then show ?thesis
    using follow_server_ok [OF f] inv count_reply_exports [OF assms(3) m]
    by (simp add: count_reply_def set_pending_def)
qed

lemma client_handle_cases:
  assumes "client_handle cd pr now rd buf sr = Inr (buf', sr')"
  obtains "sr' = sr" | msg info where "receive_reply pr now msg info sr = Inr sr'"
  using assms
  by (auto simp: client_handle_def Let_def bindS_def
      split: udp_read.splits if_splits prod.splits sum.splits)

subsection \<open>The timeout scan\<close>

lemma count_dropped_inv:
  assumes "stream_inv s pc t" and "pending s k = Some v"
  shows "stream_inv (count_dropped k s) pc t"
proof -
  have p: "pending (count_dropped k s) = (pending s)(k := None)"
    by (simp add: count_dropped_def pending_def set_pending_def)
  have "accounted (count_dropped k s) = accounted s"
    using assms(1,2) card_delete [of "pending s" k v]
    by (simp add: accounted_def p stream_inv_def) (simp add: count_dropped_def set_pending_def)
  then show ?thesis
    using assms unfolding stream_inv_def p
    by (auto simp: vals_nonneg_def count_dropped_def set_pending_def)
qed

lemma count_dropped_exports: "exports_inv s pc \<Longrightarrow> exports_inv (count_dropped k s) pc"
  by (simp add: exports_inv_def count_dropped_def set_pending_def)

text \<open>The scan moves on only past a number that is not pending.\<close>

lemma scan_advance_inv:
  assumes "stream_inv s pc t" and "tm_pc t = TimLookup" and "pending s (tm_seq t) = None"
    and "tm_seq t' = tm_seq t + 1" and "tm_pc t' \<noteq> TimLookup"
  shows "stream_inv s pc t'"
proof -
  have lt: "tm_seq t <s st_packet_sequence s"
    using assms(1,2) by (simp add: stream_inv_def word_sless_alt)
  have Suc: "sint (tm_seq t') = sint (tm_seq t) + 1" "sint (tm_seq t') \<le> sint (st_packet_sequence s)"
    using sint64_Suc_less [OF lt] assms(4) by simp_all
  have "sint (tm_seq t') \<le> sint k" if "pending s k = Some v" for k v
  proof -
    have "sint (tm_seq t) \<le> sint k" "k \<noteq> tm_seq t"
      using assms(1,3) that by (auto simp: stream_inv_def)
    then show ?thesis using Suc(1) by (metis sint64_eq_iff order_le_less zless_imp_add1_zle)
  qed
  then show ?thesis
    using assms(1,5) Suc unfolding stream_inv_def by auto
qed

lemma stream_inv_scanner:
  "stream_inv s pc t \<Longrightarrow> tm_seq t' = tm_seq t \<Longrightarrow> tm_pc t' \<noteq> TimLookup \<Longrightarrow> stream_inv s pc t'"
  by (simp add: stream_inv_def)

lemma stream_inv_lookup:
  "stream_inv s pc t \<Longrightarrow> tm_seq t <s st_packet_sequence s \<Longrightarrow> stream_inv s pc (t\<lparr>tm_pc := TimLookup\<rparr>)"
  by (simp add: stream_inv_def word_sless_alt)

lemma note_timeout_simps [simp]:
  "tm_seq (note_timeout now t) = tm_seq t" "tm_pc (note_timeout now t) = tm_pc t"
  by (simp_all add: note_timeout_def)

lemma scan_lookup_inv:
  assumes "stream_inv s pc t" and "exports_inv s pc" and "tm_pc t = TimLookup"
    and "scan_lookup now1 now2 (t, s) = (t', s')"
  shows "stream_inv s' pc t' \<and> exports_inv s' pc \<and>
    st_is_stopped s' = st_is_stopped s \<and> st_stop s' = st_stop s"
proof (cases "pending s (tm_seq t)")
  case None
  then have "s' = s" "tm_seq t' = tm_seq t + 1" "tm_pc t' \<noteq> TimLookup"
    using assms(4) by (auto simp: scan_lookup_def pending_def Let_def split: if_splits)
  then show ?thesis using scan_advance_inv [OF assms(1,3) None] assms(2) by simp
next
  case (Some sent)
  show ?thesis
  proof (cases "packet_timed_out now1 sent t")
    case True
    then have "s' = count_dropped (tm_seq t) s" "tm_seq t' = tm_seq t + 1" "tm_pc t' \<noteq> TimLookup"
      using Some assms(4) by (auto simp: scan_lookup_def pending_def Let_def)
    moreover have "pending (count_dropped (tm_seq t) s) (tm_seq t) = None"
      by (simp add: count_dropped_def pending_def set_pending_def)
    ultimately show ?thesis
      using scan_advance_inv [OF count_dropped_inv [OF assms(1) Some] assms(3)]
        count_dropped_exports [OF assms(2)]
      by (simp add: count_dropped_def set_pending_def)
  next
    case False
    then have "s' = s" "tm_seq t' = tm_seq t" "tm_pc t' \<noteq> TimLookup"
      using Some assms(4) by (auto simp: scan_lookup_def pending_def Let_def)
    then show ?thesis using assms stream_inv_scanner [OF assms(1)] by simp
  qed
qed

lemma scan_redial_inv:
  assumes "stream_inv s pc t" and "exports_inv s pc"
    and "scan_redial net conf now (t, s) = (t', s')"
  shows "stream_inv s' pc t' \<and> exports_inv s' pc \<and>
    st_is_stopped s' = st_is_stopped s \<and> st_stop s' = st_stop s"
proof -
  have "core s' = core s" "tm_seq t' = tm_seq t" "tm_pc t' \<noteq> TimLookup"
    using assms(3) redial_core by (fastforce simp: scan_redial_def Let_def split: if_splits prod.splits)+
  then show ?thesis
    using assms stream_inv_scanner [OF assms(1)] core_inv core_fields(1,2) by metis
qed

subsection \<open>The sender\<close>

lemma send_burst_inv:
  assumes "stream_inv s (SndBurst n) t" and "exports_inv s (SndBurst n)"
    and "send_burst cd n now (d, s) = (d', s')"
  shows "stream_inv s' (sd_pc d') t \<and> exports_inv s' (sd_pc d') \<and>
    st_is_stopped s' = st_is_stopped s \<and> st_stop s' = st_stop s"
proof (cases "st_packet_sequence s <s n")
  case True
  have Suc: "sint (st_packet_sequence s + 1) = sint (st_packet_sequence s) + 1"
    using sint64_Suc_less [OF True] by simp
  have s': "s' = s\<lparr>st_packet_sequence := st_packet_sequence s + 1\<rparr>"
    and pc: "sd_pc d' = SndFailInc n \<or> sd_pc d' = SndStore n"
    using True assms(3) by (auto simp: send_burst_def Let_def split: sum.splits)
  have p: "pending s' = pending s" "accounted s' = accounted s"
    by (simp_all add: s' pending_def accounted_def)
  have "stream_inv s' (sd_pc d') t"
    using assms(1) pc unfolding stream_inv_def p
    by (auto simp: s' Suc vals_nonneg_def pc_weights)
  moreover have "exports_inv s' (sd_pc d')"
    using assms(2) pc by (auto simp: exports_inv_def s')
  ultimately show ?thesis by (simp add: s')
next
  case False
  then show ?thesis
    using assms by (auto simp: send_burst_def stream_inv_def exports_inv_def pc_weights)
qed

lemma send_store_inv:
  assumes "stream_inv s (SndStore n) t" and "exports_inv s (SndStore n)"
    and "send_store n (d, s) = (d', s')"
  shows "stream_inv s' (sd_pc d') t \<and> exports_inv s' (sd_pc d') \<and>
    st_is_stopped s' = st_is_stopped s \<and> st_stop s' = st_stop s"
proof -
  let ?q = "st_packet_sequence s"
  have s': "s' = set_pending (\<lambda>p. p(?q \<mapsto> send_time_stamp (sd_base_msg d))) s"
    and pc: "sd_pc d' = SndWrite n"
    using assms(3) by (auto simp: send_store_def Let_def)
  have p: "pending s' = (pending s)(?q \<mapsto> send_time_stamp (sd_base_msg d))"
    unfolding s' by (rule pending_set)
  have "sint k \<noteq> sint ?q" if "pending s k = Some v" for k v
    using assms(1) that by (fastforce simp: stream_inv_def pc_weights)
  then have "pending s ?q = None" by (cases "pending s ?q") auto
  then have a: "accounted s' = accounted s + 1"
    using assms(1) card_insert_fresh [of "pending s" ?q]
    by (simp add: accounted_def p stream_inv_def) (simp add: s' set_pending_def)
  have "0 \<le> st_packet_sent_val s" "0 \<le> st_packet_send_failed_val s"
    using assms(1) by (simp_all add: stream_inv_def vals_nonneg_def)
  then have "stream_inv s' (sd_pc d') t"
    using assms(1) unfolding stream_inv_def p a pc
    by (auto simp: vals_nonneg_def pc_weights s' set_pending_def)
  moreover have "exports_inv s' (sd_pc d')"
    using assms(2) pc by (simp add: exports_inv_def s' set_pending_def)
  ultimately show ?thesis by (simp add: s' set_pending_def)
qed

lemma send_unstore_inv:
  assumes "stream_inv s (SndUnstore n) t" and "exports_inv s (SndUnstore n)"
    and "send_unstore n (d, s) = (d', s')"
  shows "stream_inv s' (sd_pc d') t \<and> exports_inv s' (sd_pc d') \<and>
    st_is_stopped s' = st_is_stopped s \<and> st_stop s' = st_stop s"
proof -
  let ?q = "st_packet_sequence s"
  have s': "s' = set_pending (\<lambda>p. p(?q := None)) s" and pc: "sd_pc d' = SndFailInc n"
    using assms(3) by (auto simp: send_unstore_def Let_def)
  have p: "pending s' = (pending s)(?q := None)" unfolding s' by (rule pending_set)
  have "accounted s - 1 \<le> accounted s' \<and> accounted s' \<le> accounted s"
  proof (cases "pending s ?q")
    case None
    then have "(pending s)(?q := None) = pending s" by (simp add: fun_upd_idem)
    then show ?thesis by (simp add: accounted_def p) (simp add: s' set_pending_def)
  next
    case (Some v)
    then show ?thesis
      using assms(1) card_delete [of "pending s" ?q]
      by (simp add: accounted_def p stream_inv_def) (simp add: s' set_pending_def)
  qed
  then have "stream_inv s' (sd_pc d') t"
    using assms(1) unfolding stream_inv_def p pc
    by (auto simp: vals_nonneg_def pc_weights s' set_pending_def)
  moreover have "exports_inv s' (sd_pc d')"
    using assms(2) pc by (simp add: exports_inv_def s' set_pending_def)
  ultimately show ?thesis by (simp add: s' set_pending_def)
qed

lemma send_count_inv:
  assumes "stream_inv s pc t" and "exports_inv s pc"
  shows "pc = SndFailInc n \<Longrightarrow> s' = s\<lparr>st_packet_send_failed := metric_inc (st_packet_send_failed s)\<rparr> \<Longrightarrow>
      stream_inv s' (SndFailVal n) t \<and> exports_inv s' (SndFailVal n)"
    and "pc = SndFailVal n \<Longrightarrow> s' = s\<lparr>st_packet_send_failed_val := st_packet_send_failed_val s + 1\<rparr> \<Longrightarrow>
      stream_inv s' (SndBurst n) t \<and> exports_inv s' (SndBurst n)"
    and "pc = SndInc n \<Longrightarrow> s' = s\<lparr>st_packet_sent := metric_inc (st_packet_sent s)\<rparr> \<Longrightarrow>
      stream_inv s' (SndVal n) t \<and> exports_inv s' (SndVal n)"
    and "pc = SndVal n \<Longrightarrow> s' = s\<lparr>st_packet_sent_val := st_packet_sent_val s + 1\<rparr> \<Longrightarrow>
      stream_inv s' (SndBurst n) t \<and> exports_inv s' (SndBurst n)"
  using assms
  by (auto simp: stream_inv_def exports_inv_def vals_nonneg_def accounted_def pending_def
      pc_weights)

text \<open>Outside a packet the program counter does not matter.\<close>

lemma stream_inv_pc:
  "stream_inv s pc t \<Longrightarrow> in_flight pc = 0 \<Longrightarrow> in_flight pc' = 0 \<Longrightarrow> stream_inv s pc' t"
  "exports_inv s pc \<Longrightarrow> in_flight pc = 0 \<Longrightarrow> in_flight pc' = 0 \<Longrightarrow> exports_inv s pc'"
  by (auto simp: stream_inv_def exports_inv_def pc_weights split: send_pc.splits)

lemma dummy_init_pc: "in_flight (sd_pc (dummy_init cd conf now draw s d)) = 0"
  by (simp add: dummy_init_def in_flight_def split: sum.splits)

lemma dummy_packet_ok:
  "dummy_packet net conf e k (d, s) = (d', s') \<Longrightarrow> in_flight (sd_pc d') = 0 \<and> core s' = core s"
  by (auto simp: dummy_packet_def in_flight_def dest: redial_core split: if_splits prod.splits)

lemma send_pace_pc: "in_flight (sd_pc (send_pace conf now1 now2 d)) = 0"
  by (simp add: send_pace_def in_flight_def)

lemma send_init_pc:
  "send_init cd conf hl now d = Inr (Some d') \<Longrightarrow> in_flight (sd_pc d') = 0"
  by (auto simp: send_init_def bindS_def in_flight_def Let_def split: sum.splits)

subsection \<open>The invariant of the system\<close>

definition client_running :: "'r client_sys \<Rightarrow> int" where
  "client_running sy = of_bool (cs_reader sy \<noteq> RdDone) +
     of_bool (tm_pc (cs_scanner sy) \<noteq> TimDone) + of_bool (sd_pc (cs_sender sy) \<noteq> SndDone)"

definition client_inv :: "'r client_sys \<Rightarrow> bool" where
  "client_inv sy \<longleftrightarrow>
     stream_inv (cs_stream sy) (sd_pc (cs_sender sy)) (cs_scanner sy) \<and>
     exports_inv (cs_stream sy) (sd_pc (cs_sender sy)) \<and>
     st_is_stopped (cs_stream sy) = client_running sy"

definition same_run :: "'r client_sys \<Rightarrow> 'r client_sys \<Rightarrow> bool" where
  "same_run sy sy' \<longleftrightarrow> st_stop (cs_stream sy') = st_stop (cs_stream sy)"

lemma stream_inv_wait [simp]:
  "stream_inv (s\<lparr>st_is_stopped := w\<rparr>) pc t = stream_inv s pc t"
  "exports_inv (s\<lparr>st_is_stopped := w\<rparr>) pc = exports_inv s pc"
  "stream_inv (not_started s) pc t = stream_inv s pc t"
  "exports_inv (not_started s) pc = exports_inv s pc"
  "stream_inv (s\<lparr>st_stop := b\<rparr>) pc t = stream_inv s pc t"
  "exports_inv (s\<lparr>st_stop := b\<rparr>) pc = exports_inv s pc"
  by (simp_all add: stream_inv_def exports_inv_def accounted_def pending_def vals_nonneg_def
      not_started_def)

lemma not_started_simps [simp]:
  "st_is_stopped (not_started s) = st_is_stopped s" "st_stop (not_started s) = st_stop s"
  by (simp_all add: not_started_def)

lemma client_done_pos:
  "0 < st_is_stopped (cs_stream sy) \<Longrightarrow> client_done upd sy =
     upd (sy\<lparr>cs_stream := (cs_stream sy)\<lparr>st_is_stopped := st_is_stopped (cs_stream sy) - 1\<rparr>\<rparr>)"
  by (simp add: client_done_def wg_done_pos)

lemma running_pos:
  "client_inv sy \<Longrightarrow> cs_reader sy \<noteq> RdDone \<Longrightarrow> 0 < st_is_stopped (cs_stream sy)"
  "client_inv sy \<Longrightarrow> tm_pc (cs_scanner sy) \<noteq> TimDone \<Longrightarrow> 0 < st_is_stopped (cs_stream sy)"
  "client_inv sy \<Longrightarrow> sd_pc (cs_sender sy) \<noteq> SndDone \<Longrightarrow> 0 < st_is_stopped (cs_stream sy)"
  by (simp_all add: client_inv_def client_running_def)

lemma reader_inv:
  assumes "client_inv sy" and "add_panics_on_negative pr" and "cs_reader sy \<noteq> RdDone"
  shows "client_inv (socket_read_step cd pr now rd sy) \<and>
    same_run sy (socket_read_step cd pr now rd sy)"
proof (cases "cs_reader sy")
  case RdInit
  then show ?thesis
    using assms(1) by (simp add: socket_read_step_def client_inv_def client_running_def same_run_def)
next
  case RdHead
  then show ?thesis
    using assms(1) client_done_pos [OF running_pos(1) [OF assms(1,3)]]
    by (simp add: socket_read_step_def client_inv_def client_running_def same_run_def)
next
  case RdBody
  show ?thesis
  proof (cases "client_handle cd pr now rd (cs_buffer sy) (cs_stream sy, cs_registry sy)")
    case (Inl p)
    then show ?thesis
      using assms(1) RdBody
      by (simp add: socket_read_step_def client_inv_def client_running_def same_run_def)
  next
    case (Inr res)
    obtain buf sr where res: "res = (buf, sr)" by (cases res)
    have "stream_inv (fst sr) (sd_pc (cs_sender sy)) (cs_scanner sy) \<and>
      exports_inv (fst sr) (sd_pc (cs_sender sy)) \<and>
      st_is_stopped (fst sr) = st_is_stopped (cs_stream sy) \<and>
      st_stop (fst sr) = st_stop (cs_stream sy)"
    proof (rule client_handle_cases [OF Inr [unfolded res]])
      assume "sr = (cs_stream sy, cs_registry sy)"
      then show ?thesis using assms(1) by (simp add: client_inv_def)
    next
      fix msg info
      assume "receive_reply pr now msg info (cs_stream sy, cs_registry sy) = Inr sr"
      note rr = receive_reply_inv [OF this _ _ assms(2)]
      show ?thesis
        using rr [of "sd_pc (cs_sender sy)" "cs_scanner sy"] assms(1) by (simp add: client_inv_def)
    qed
    then show ?thesis
      using assms(1) RdBody Inr res
      by (cases sr) (simp add: socket_read_step_def client_inv_def client_running_def same_run_def)
  qed
next
  case RdDone
  then show ?thesis using assms(3) by simp
qed

lemma timeouts_inv:
  assumes "client_inv sy" and "tm_pc (cs_scanner sy) \<noteq> TimDone"
  shows "client_inv (timeouts_step net now1 now2 sy) \<and>
    same_run sy (timeouts_step net now1 now2 sy)"
proof -
  note fin = client_done_pos [OF running_pos(2) [OF assms]]
  note defs = timeouts_step_def client_inv_def client_running_def same_run_def Let_def
    put_scan_def at_scan_def
  have inv: "stream_inv (cs_stream sy) (sd_pc (cs_sender sy)) (cs_scanner sy)"
    "exports_inv (cs_stream sy) (sd_pc (cs_sender sy))"
    using assms(1) by (simp_all add: client_inv_def)
  show ?thesis
  proof (cases "tm_pc (cs_scanner sy)")
    case TimInit
    then show ?thesis
      using assms(1) stream_inv_scanner [OF inv(1)] by (simp add: defs scan_init_def)
  next
    case TimHead
    then show ?thesis
      using assms(1) fin stream_inv_scanner [OF inv(1)] by (simp add: defs)
  next
    case TimScan
    then show ?thesis
      using assms(1) fin stream_inv_scanner [OF inv(1)] stream_inv_lookup [OF inv(1)]
      by (simp add: defs)
  next
    case TimLookup
    obtain t s where r: "scan_lookup now1 now2 (cs_scanner sy, cs_stream sy) = (t, s)"
      by fastforce
    have "tm_pc t \<noteq> TimDone"
      using r by (auto simp: scan_lookup_def Let_def split: option.splits if_splits)
    then show ?thesis
      using scan_lookup_inv [OF inv TimLookup r] assms(1) TimLookup r by (simp add: defs)
  next
    case TimRedial
    obtain t s where r: "scan_redial net (cs_conf sy) now1 (cs_scanner sy, cs_stream sy) = (t, s)"
      by fastforce
    have "tm_pc t \<noteq> TimDone"
      using r by (auto simp: scan_redial_def Let_def split: prod.splits if_splits)
    then show ?thesis
      using scan_redial_inv [OF inv r] assms(1) TimRedial r by (simp add: defs)
  next
    case TimDone
    then show ?thesis using assms(2) by simp
  qed
qed

lemma put_send_inv:
  assumes "client_inv sy" and "sd_pc (cs_sender sy) \<noteq> SndDone" and "sd_pc d \<noteq> SndDone"
    and "stream_inv s (sd_pc d) (cs_scanner sy)" and "exports_inv s (sd_pc d)"
    and "st_is_stopped s = st_is_stopped (cs_stream sy)" and "st_stop s = st_stop (cs_stream sy)"
  shows "client_inv (put_send (d, s) sy) \<and> same_run sy (put_send (d, s) sy)"
  using assms by (simp add: client_inv_def client_running_def same_run_def put_send_def)

lemma at_send_inv:
  assumes "client_inv sy" and "sd_pc (cs_sender sy) \<noteq> SndDone" and "pc \<noteq> SndDone"
    and "stream_inv s pc (cs_scanner sy)" and "exports_inv s pc"
    and "st_is_stopped s = st_is_stopped (cs_stream sy)" and "st_stop s = st_stop (cs_stream sy)"
  shows "client_inv (at_send pc (sy\<lparr>cs_stream := s\<rparr>)) \<and> same_run sy (at_send pc (sy\<lparr>cs_stream := s\<rparr>))"
  using assms by (simp add: client_inv_def client_running_def same_run_def at_send_def)

lemma send_pcs:
  "send_init cd conf hl now d = Inr (Some d') \<Longrightarrow> sd_pc d' \<noteq> SndDone"
  "sd_pc (dummy_init cd conf now draw s d) \<noteq> SndDone"
  "dummy_packet net conf e k (d, s) = (d', s') \<Longrightarrow> sd_pc d' \<noteq> SndDone"
  "sd_pc (send_pace conf now1 now2 d) \<noteq> SndDone"
  "send_burst cd n now (d, s) = (d', s') \<Longrightarrow> sd_pc d' \<noteq> SndDone"
  "send_store n (d, s) = (d', s') \<Longrightarrow> sd_pc d' \<noteq> SndDone"
  "send_unstore n (d, s) = (d', s') \<Longrightarrow> sd_pc d' \<noteq> SndDone"
  by (auto simp: send_init_def dummy_init_def dummy_packet_def send_pace_def send_burst_def
      send_store_def send_unstore_def bindS_def Let_def
      split: sum.splits if_splits prod.splits)

lemma sender_done_inv:
  assumes "client_inv sy" and "in_flight (sd_pc (cs_sender sy)) = 0"
    and "sd_pc (cs_sender sy) \<noteq> SndDone"
    and "\<And>s. f s = s \<or> f s = not_started s"
  shows "client_inv (client_done (\<lambda>sy. at_send SndDone (sy\<lparr>cs_stream := f (cs_stream sy)\<rparr>)) sy) \<and>
    same_run sy (client_done (\<lambda>sy. at_send SndDone (sy\<lparr>cs_stream := f (cs_stream sy)\<rparr>)) sy)"
proof -
  let ?s = "(cs_stream sy)\<lparr>st_is_stopped := st_is_stopped (cs_stream sy) - 1\<rparr>"
  have 0: "in_flight SndDone = 0" by (simp add: in_flight_def)
  have inv: "stream_inv (cs_stream sy) SndDone (cs_scanner sy)" "exports_inv (cs_stream sy) SndDone"
    using assms(1) stream_inv_pc(1) [OF _ assms(2) 0] stream_inv_pc(2) [OF _ assms(2) 0]
    by (simp_all add: client_inv_def)
  have "stream_inv (f ?s) SndDone (cs_scanner sy)" "exports_inv (f ?s) SndDone"
    "st_is_stopped (f ?s) = st_is_stopped (cs_stream sy) - 1" "st_stop (f ?s) = st_stop (cs_stream sy)"
    using assms(4) [of ?s] inv by auto
  then show ?thesis
    using assms(1,3) client_done_pos [OF running_pos(3) [OF assms(1,3)]]
    by (simp add: client_inv_def client_running_def same_run_def at_send_def)
qed

lemma sender_inv:
  assumes "client_inv sy" and "sd_pc (cs_sender sy) \<noteq> SndDone"
  shows "client_inv (start_packets_step cd i sy) \<and>
    same_run sy (start_packets_step cd i sy)"
proof -
  let ?d = "cs_sender sy" and ?s = "cs_stream sy" and ?t = "cs_scanner sy"
  have inv: "stream_inv ?s (sd_pc ?d) ?t" "exports_inv ?s (sd_pc ?d)"
    using assms(1) by (simp_all add: client_inv_def)
  note put = put_send_inv [OF assms] and at = at_send_inv [OF assms]
  note move = stream_inv_pc(1) [OF inv(1)] stream_inv_pc(2) [OF inv(2)]
  note step = start_packets_step_def Let_def
  show ?thesis
  proof (cases "sd_pc ?d")
    case SndInit
    have 0: "in_flight (sd_pc ?d) = 0" by (simp add: SndInit in_flight_def)
    show ?thesis
    proof (cases "send_init cd (cs_conf sy) (st_msg_header_length ?s) (si_now1 i) ?d")
      case (Inl p)
      then show ?thesis
        using assms(1) SndInit by (simp add: step client_inv_def client_running_def same_run_def)
    next
      case (Inr r)
      show ?thesis
      proof (cases r)
        case None
        then show ?thesis
          using sender_done_inv [OF assms(1) 0 assms(2), of not_started] SndInit Inr by (simp add: step)
      next
        case (Some d')
        then show ?thesis
          using Inr SndInit put [of d' ?s] send_pcs(1) send_init_pc move [OF 0] by (simp add: step)
      qed
    qed
  next
    case SndDummyInit
    have 0: "in_flight (sd_pc ?d) = 0" by (simp add: SndDummyInit in_flight_def)
    show ?thesis
      using SndDummyInit put [OF send_pcs(2)] move [OF 0 dummy_init_pc] by (simp add: step)
  next
    case (SndDummy k)
    have 0: "in_flight (sd_pc ?d) = 0" by (simp add: SndDummy in_flight_def)
    obtain d s where r: "dummy_packet (si_net i) (cs_conf sy) (si_write_err i) k (?d, ?s) = (d, s)"
      by fastforce
    note ok = dummy_packet_ok [OF r]
    have "stream_inv s (sd_pc d) ?t" "exports_inv s (sd_pc d)"
      using move [OF 0 conjunct1 [OF ok]] core_inv [OF conjunct2 [OF ok]] by simp_all
    then show ?thesis
      using put [OF send_pcs(3) [OF r]] core_fields [OF conjunct2 [OF ok]] SndDummy r
      by (simp add: step put_send_def client_inv_def client_running_def same_run_def)
  next
    case SndHead
    have 0: "in_flight (sd_pc ?d) = 0" by (simp add: SndHead in_flight_def)
    have 1: "in_flight SndPace = 0" by (simp add: in_flight_def)
    show ?thesis
      using sender_done_inv [OF assms(1) 0 assms(2), of "\<lambda>s. s"] SndHead
        at [of SndPace ?s] move [OF 0 1]
      by (simp add: step)
  next
    case SndPace
    have 0: "in_flight (sd_pc ?d) = 0" by (simp add: SndPace in_flight_def)
    show ?thesis
      using SndPace put [OF send_pcs(4)] move [OF 0 send_pace_pc] by (simp add: step)
  next
    case (SndBurst n)
    obtain d s where r: "send_burst cd n (si_now1 i) (?d, ?s) = (d, s)" by fastforce
    show ?thesis
      using put [OF send_pcs(5) [OF r], of s] send_burst_inv [OF inv [unfolded SndBurst] r] SndBurst r
      by (simp add: step)
  next
    case (SndStore n)
    obtain d s where r: "send_store n (?d, ?s) = (d, s)" by fastforce
    show ?thesis
      using put [OF send_pcs(6) [OF r], of s] send_store_inv [OF inv [unfolded SndStore] r] SndStore r
      by (simp add: step)
  next
    case (SndWrite n)
    have "stream_inv ?s (SndInc n) ?t \<and> exports_inv ?s (SndInc n) \<and>
      stream_inv ?s (SndUnstore n) ?t \<and> exports_inv ?s (SndUnstore n)"
      using inv by (simp add: stream_inv_def exports_inv_def pc_weights SndWrite)
    then show ?thesis
      using SndWrite assms(1)
      by (simp add: step at_send_def client_inv_def client_running_def same_run_def)
  next
    case (SndUnstore n)
    obtain d s where r: "send_unstore n (?d, ?s) = (d, s)" by fastforce
    show ?thesis
      using put [OF send_pcs(7) [OF r], of s] send_unstore_inv [OF inv [unfolded SndUnstore] r]
        SndUnstore r
      by (simp add: step)
  next
    case (SndFailInc n)
    then show ?thesis using at send_count_inv(1) [OF inv] by (simp add: step)
  next
    case (SndFailVal n)
    then show ?thesis using at send_count_inv(2) [OF inv] by (simp add: step)
  next
    case (SndInc n)
    then show ?thesis using at send_count_inv(3) [OF inv] by (simp add: step)
  next
    case (SndVal n)
    then show ?thesis using at send_count_inv(4) [OF inv] by (simp add: step)
  next
    case SndDone
    then show ?thesis using assms(2) by simp
  qed
qed

lemma client_step_inv:
  assumes "client_step cd pr sy sy'" and "add_panics_on_negative pr" and "client_inv sy"
  shows "client_inv sy' \<and> same_run sy sy'"
  using assms(1)
proof (cases rule: client_step.cases)
  case (reader rd now)
  then show ?thesis using reader_inv [OF assms(3,2)] by blast
next
  case (timeouts net now1 now2)
  then show ?thesis using timeouts_inv [OF assms(3)] by blast
next
  case (sender i)
  then show ?thesis using sender_inv [OF assms(3)] by blast
qed

lemma client_start_inv:
  assumes "new_stream cd p n = Inr s" and "bp_pending p = Map.empty"
    and "setup_connection pr net conf0 (s, reg0) = ((s', reg), None)"
  shows "client_inv (client_start s' conf reg)"
proof -
  have new: "fresh_stream s" "bp_pending (st_pair s) = Map.empty"
    using new_stream_fresh [OF assms(1)] assms(2) by simp_all
  note ok = setup_connection_ok [OF assms(3) new(1)]
  show ?thesis
    using ok(1,2,5-9) new(2)
    by (simp add: client_start_def client_inv_def stream_inv_def exports_inv_def accounted_def
        pending_def vals_nonneg_def fresh_stream_def client_running_def new_sender_def
        new_scanner_def pc_weights)
qed

lemma client_teardown_inv:
  assumes "client_inv sy" and "teardown_begin pr (cs_stream sy, cs_registry sy) = Inr (s, reg)"
  shows "client_inv (sy\<lparr>cs_stream := s, cs_registry := reg\<rparr>)"
proof -
  have "s = cs_stream sy \<or> (\<exists>c. s = (cs_stream sy)\<lparr>st_stop := True, st_connection := c\<rparr>)"
    using assms(2) by (auto simp: teardown_begin_def Let_def split: option.splits if_splits)
  then show ?thesis
    using assms(1) core_inv [of "s" "(cs_stream sy)\<lparr>st_stop := True\<rparr>"]
    by (auto simp: client_inv_def client_running_def)
qed

lemma client_reachable_inv:
  assumes "client_reachable cd pr sy" and "add_panics_on_negative pr"
  shows "client_inv sy"
  using assms(1)
proof (induction rule: client_reachable.induct)
  case (start p n s net conf0 reg0 s' reg conf)
  then show ?case by (intro client_start_inv)
next
  case (work sy sy')
  then show ?case using client_step_inv assms(2) by blast
next
  case (environment sy conf reg)
  then show ?case by (simp add: client_inv_def client_running_def)
next
  case (teardown sy s reg)
  then show ?case by (intro client_teardown_inv)
qed

text \<open>What the invariant says of the packets of a stream.\<close>

lemma client_inv_accounts:
  assumes "client_inv sy"
  shows "st_packet_sent_val (cs_stream sy) + st_packet_send_failed_val (cs_stream sy)
      + in_flight (sd_pc (cs_sender sy)) = sint (st_packet_sequence (cs_stream sy))"
    and "st_packet_sent_val (cs_stream sy) \<le> accounted (cs_stream sy)"
    and "accounted (cs_stream sy) \<le> sint (st_packet_sequence (cs_stream sy))"
  using assms pc_weights_bounds [of "sd_pc (cs_sender sy)"]
  by (auto simp: client_inv_def stream_inv_def)

end
