(* ===== verification/TgenSamples.thy ===== *)
theory TgenSamples
  imports TgenAccounts
begin

section \<open>A concrete client stream for the witnesses\<close>

text \<open>
  A pair to an IP address that is dialled on a network where every call succeeds, with the
  library values of \<open>Samples\<close>; the stream that \<open>newStream\<close> and \<open>SetupConnection\<close> make of
  it, and runs of its goroutines.
\<close>

definition sample_pair :: bat_pair where
  "sample_pair =
     \<lparr>bp_source = \<lparr>src_type = ''pod'', src_namespace = ''ns'', src_name = ''p'', src_net = [],
                    src_interface = ''eth0'', src_ip = ''10.0.0.1''\<rparr>,
      bp_destination = \<lparr>rem_is_dn = False, rem_name = ''10.0.0.2'', rem_ip = []\<rparr>,
      bp_traffic_profile = ''udp'', bp_traffic_scenario = ''pod-to-pod'',
      bp_pending = Map.empty, bp_client_connection = None\<rparr>"

definition sample_net :: client_net where
  "sample_net =
     \<lparr>cn_lookup = (\<lambda>host port. Inr \<lparr>ua_ip = host, ua_port = 7000\<rparr>), cn_dial = (\<lambda>_ _. None),
      cn_set_read_buffer = (\<lambda>_. None)\<rparr>"

definition sample_conf :: tgen_config where
  "sample_conf = tgen_initial_config\<lparr>packet_size := 320\<rparr>"

definition sample_new :: stream where
  "sample_new = (case new_stream bit_codec sample_pair 1000 of Inr s \<Rightarrow> s)"

lemma sample_new_stream: "new_stream bit_codec sample_pair 1000 = Inr sample_new"
proof -
  have "get_message_header_length bit_codec = Inr 320"
    using header_length_fixed [OF bit_codec_fixed_length] by simp
  then show ?thesis by (simp add: sample_new_def new_stream_def)
qed

definition sample_setup :: "(stream \<times> desc list) \<times> go_error option" where
  "sample_setup = setup_connection list_prom sample_net sample_conf (sample_new, [])"

definition sample_stream :: stream where "sample_stream = fst (fst sample_setup)"
definition sample_registry :: "desc list" where "sample_registry = snd (fst sample_setup)"

text \<open>In a registry that refuses only duplicates, new names register.\<close>

definition names :: "desc list \<Rightarrow> string set" where
  "names r = (\<lambda>(_, _, n, _). n) ` set r"

lemma list_prom_register:
  assumes "mt_name m \<notin> names r"
  shows "prom_register list_prom r m = Inr (desc_of m # r)"
    "names (desc_of m # r) = insert (mt_name m) (names r)"
  using assms by (auto simp: list_prom_def names_def desc_of_def image_iff)

lemma register_counter_list:
  assumes "name \<notin> names (snd sr)"
  obtains s' r' where "register_counter list_prom name help val put sr = ((s', r'), None)"
    "names r' = insert name (names (snd sr))"
proof -
  let ?m = "new_counter prom_namespace (bp_traffic_profile (st_pair (fst sr))) name help
      (st_metric_labels (fst sr))"
  have "mt_name ?m = name" by (simp add: new_counter_def)
  then have r: "prom_register list_prom (snd sr) ?m = Inr (desc_of ?m # snd sr)"
    "names (desc_of ?m # snd sr) = insert name (names (snd sr))"
    using list_prom_register [of ?m "snd sr"] assms by simp_all
  have "\<exists>s'. register_counter list_prom name help val put sr = ((s', desc_of ?m # snd sr), None)"
    using r(1) by (auto simp: register_counter_def register_metric_def Let_def metric_add_def)
      (simp_all add: list_prom_def)
  then show ?thesis using r(2) that by blast
qed

lemma register_latency_list:
  assumes "''latency'' \<notin> names (snd sr)"
  obtains s' r' where "register_latency list_prom sr = ((s', r'), None)"
  using list_prom_register(1) assms that
  by (auto simp: register_latency_def register_metric_def Let_def new_summary_def)

lemma register_stream_metrics_list:
  assumes "names (snd sr) \<subseteq> {''traffic_not_started''}"
  obtains sr' where "register_stream_metrics list_prom sr = (sr', None)"
proof -
  obtain s1 r1 where 1: "register_counter list_prom ''packets_sent'' ''total packet sent''
      st_packet_sent_val (\<lambda>m s. s\<lparr>st_packet_sent := m\<rparr>) sr = ((s1, r1), None)"
    "names r1 = insert ''packets_sent'' (names (snd sr))"
    by (rule register_counter_list [of "''packets_sent''" sr]) (use assms in auto)
  obtain s2 r2 where 2: "register_counter list_prom ''packet_send_failed''
      ''total packet send failed'' st_packet_send_failed_val
      (\<lambda>m s. s\<lparr>st_packet_send_failed := m\<rparr>) (s1, r1) = ((s2, r2), None)"
    "names r2 = insert ''packet_send_failed'' (names r1)"
    by (rule register_counter_list [of "''packet_send_failed''" "(s1, r1)"]) (use assms 1 in auto)
  obtain s3 r3 where 3: "register_counter list_prom ''packets_received''
      ''total packet received'' st_packet_received_val
      (\<lambda>m s. s\<lparr>st_packet_received := m\<rparr>) (s2, r2) = ((s3, r3), None)"
    "names r3 = insert ''packets_received'' (names r2)"
    by (rule register_counter_list [of "''packets_received''" "(s2, r2)"]) (use assms 1 2 in auto)
  obtain s4 r4 where 4: "register_counter list_prom ''packets_dropped''
      ''total packet dropped'' st_packet_dropped_val
      (\<lambda>m s. s\<lparr>st_packet_dropped := m\<rparr>) (s3, r3) = ((s4, r4), None)"
    "names r4 = insert ''packets_dropped'' (names r3)"
    by (rule register_counter_list [of "''packets_dropped''" "(s3, r3)"]) (use assms 1 2 3 in auto)
  obtain s5 r5 where 5: "register_counter list_prom ''total_round_trip_time''
      ''total round trip time'' st_round_trip_val
      (\<lambda>m s. s\<lparr>st_round_trip := m\<rparr>) (s4, r4) = ((s5, r5), None)"
    "names r5 = insert ''total_round_trip_time'' (names r4)"
    by (rule register_counter_list [of "''total_round_trip_time''" "(s4, r4)"])
      (use assms 1 2 3 4 in auto)
  obtain s6 r6 where 6: "register_latency list_prom (s5, r5) = ((s6, r6), None)"
    by (rule register_latency_list [of "(s5, r5)"]) (use assms 1 2 3 4 5 in auto)
  show ?thesis
    by (rule that [of "(s6, r6)"])
      (simp add: register_stream_metrics_def stream_metric_steps_def 1(1) 2(1) 3(1) 4(1) 5(1) 6)
qed

lemma sample_resolve:
  "get_resolvable_address ''10.0.0.1'' = Inr ''10.0.0.1:0''"
  "cn_resolve sample_net ''10.0.0.1:0'' = Inr \<lparr>ua_ip = ''10.0.0.1'', ua_port = 7000\<rparr>"
  "cn_resolve sample_net (destination_address ''10.0.0.2'') = Inr \<lparr>ua_ip = ''10.0.0.2'', ua_port = 7000\<rparr>"
  "cn_resolve sample_net (destination_address ''z'') = Inr \<lparr>ua_ip = ''z'', ua_port = 7000\<rparr>"
proof -
  have v6: "\<not> is_ipv6 ''10.0.0.1''" "\<not> is_ipv6 ''10.0.0.2''" "\<not> is_ipv6 ''z''"
    by (simp_all add: is_ipv6_def count_char_def)
  show src: "get_resolvable_address ''10.0.0.1'' = Inr ''10.0.0.1:0''"
    using v6 by (simp add: get_resolvable_address_def)
  show "cn_resolve sample_net ''10.0.0.1:0'' = Inr \<lparr>ua_ip = ''10.0.0.1'', ua_port = 7000\<rparr>"
    using resolvable_address_resolves [OF src] by (simp add: cn_resolve_def plain_host_def sample_net_def)
  show "cn_resolve sample_net (destination_address ''10.0.0.2'') = Inr \<lparr>ua_ip = ''10.0.0.2'', ua_port = 7000\<rparr>"
    "cn_resolve sample_net (destination_address ''z'') = Inr \<lparr>ua_ip = ''z'', ua_port = 7000\<rparr>"
    using v6 resolve_plain [of "''10.0.0.2''"] resolve_plain [of "''z''"]
    by (simp_all add: cn_resolve_def destination_address_def plain_host_def sample_net_def)
qed

lemma mark_destination_pair:
  "rem_name (bp_destination (st_pair (mark_destination s))) = rem_name (bp_destination (st_pair s))"
  "bp_source (st_pair (mark_destination s)) = bp_source (st_pair s)"
  by (simp_all add: mark_destination_def set_destination_def Let_def)

lemma sample_connect:
  assumes "src_ip (bp_source (st_pair s)) = ''10.0.0.1''"
    and "rem_name (bp_destination (st_pair s)) \<in> {''10.0.0.2'', ''z''}"
  obtains s' where "connect_stream sample_net conf s = (s', None)" "st_connection s' \<noteq> None"
proof -
  obtain raddr where r: "cn_resolve sample_net (destination_address
      (rem_name (bp_destination (st_pair s)))) = Inr raddr"
    using assms(2) sample_resolve(3,4) by auto
  have "src_ip (bp_source (st_pair (set_destination f (mark_destination s)))) = ''10.0.0.1''" for f
    using assms(1) mark_destination_pair(2) [of s] by (simp add: set_destination_def)
  moreover have "cn_dial sample_net l r = None" "cn_set_read_buffer sample_net n = None" for l r n
    by (simp_all add: sample_net_def)
  ultimately show ?thesis
    using that r sample_resolve(1,2) by (simp add: connect_stream_def Let_def mark_destination_pair)
qed

lemma sample_setup_ok: "snd sample_setup = None"
proof -
  have new: "st_pair sample_new = sample_pair"
    using new_stream_fresh [OF sample_new_stream] by simp
  let ?m = "new_counter prom_namespace (bp_traffic_profile sample_pair)
      ''traffic_not_started'' ''traffic not started'' (stream_labels sample_conf sample_pair)"
  have reg: "prom_register list_prom [] ?m = Inr [desc_of ?m]"
    "names [desc_of ?m] \<subseteq> {''traffic_not_started''}"
    using list_prom_register [of ?m "[]"] by (simp_all add: new_counter_def names_def)
  obtain s2 where con: "connect_stream sample_net sample_conf
      (sample_new\<lparr>st_metric_labels := stream_labels sample_conf sample_pair,
        st_traffic_not_started := Some ?m\<rparr>) = (s2, None)"
    by (rule sample_connect [of "sample_new\<lparr>st_metric_labels := stream_labels sample_conf sample_pair,
        st_traffic_not_started := Some ?m\<rparr>" sample_conf]) (use new in \<open>auto simp: sample_pair_def\<close>)
  obtain sr where "register_stream_metrics list_prom
      (s2\<lparr>st_metric_labels := clear_server_labels (st_metric_labels s2)\<rparr>, [desc_of ?m]) = (sr, None)"
    by (rule register_stream_metrics_list
        [of "(s2\<lparr>st_metric_labels := clear_server_labels (st_metric_labels s2)\<rparr>, [desc_of ?m])"])
      (use reg(2) in simp)
  then show ?thesis
    using reg(1) con by (simp add: sample_setup_def setup_connection_def Let_def new)
qed

lemma sample_setup_connection:
  "setup_connection list_prom sample_net sample_conf (sample_new, []) =
     ((sample_stream, sample_registry), None)"
  using sample_setup_ok
  by (simp add: sample_stream_def sample_registry_def sample_setup_def prod_eq_iff)

lemma sample_stream_fields [simp]:
  "fresh_stream sample_stream" "bp_pending (st_pair sample_stream) = Map.empty"
  "st_read_buffer_size sample_stream = 1000" "st_msg_header_length sample_stream = 320"
  "socket_open sample_stream" "st_packet_sequence sample_stream = 0" "\<not> st_stop sample_stream"
  "st_packet_sent_val sample_stream = 0" "st_is_stopped sample_stream = 3"
proof -
  have new: "fresh_stream sample_new" "st_pair sample_new = sample_pair"
    "st_read_buffer_size sample_new = 1000" "st_msg_header_length sample_new = 320"
    using new_stream_fresh [OF sample_new_stream] header_length_fixed [OF bit_codec_fixed_length]
    by simp_all
  note ok = setup_connection_ok [OF sample_setup_connection new(1)]
  show fresh: "fresh_stream sample_stream" by (rule ok(1))
  show "bp_pending (st_pair sample_stream) = Map.empty"
    "st_read_buffer_size sample_stream = 1000" "st_msg_header_length sample_stream = 320"
    "socket_open sample_stream"
    using ok(2,3,10,11) new by (auto simp: sample_pair_def socket_open_def)
  show "st_packet_sequence sample_stream = 0" "\<not> st_stop sample_stream"
    "st_packet_sent_val sample_stream = 0" "st_is_stopped sample_stream = 3"
    using fresh by (simp_all add: fresh_stream_def)
qed

lemma sample_stream_labels: "\<exists>ls. st_metric_labels sample_stream = clear_server_labels ls"
  using setup_connection_ok(12) [OF sample_setup_connection] new_stream_fresh [OF sample_new_stream]
  by blast

subsection \<open>A run: one packet sent\<close>

definition sample_in :: "int64 \<Rightarrow> send_in" where
  "sample_in now =
     \<lparr>si_now1 = now, si_now2 = now, si_write_err = None, si_draw = Inl (GoError []),
      si_net = sample_net\<rparr>"

definition send_run :: "int64 list \<Rightarrow> desc list client_sys \<Rightarrow> desc list client_sys" where
  "send_run = fold (\<lambda>now. start_packets_step bit_codec (sample_in now))"

definition sample_start :: "desc list client_sys" where
  "sample_start = client_start sample_stream sample_conf sample_registry"

lemma sample_start_reachable: "client_reachable bit_codec list_prom sample_start"
  unfolding sample_start_def
  by (rule client_reachable.start [OF sample_new_stream _ sample_setup_connection])
    (simp add: sample_pair_def)

text \<open>The sender after its initialization, and with a packet to send at time \<open>2000\<close>.\<close>

definition sample_sender :: sender where
  "sample_sender = new_sender
     \<lparr>sd_base_msg := new_message 0 0 320, sd_base_bytes := encode_msg (new_message 0 0 320),
      sd_interval := 2000, sd_pc := SndDummyInit\<rparr>"

lemma sample_send_init: "send_init bit_codec sample_conf 320 0 new_sender = Inr (Some sample_sender)"
  by (simp add: send_init_def payload_size_def sample_conf_def tgen_initial_config_def
      get_padding_payload_def bit_codec_def go_div_def sec_to_micro_sec_def sample_sender_def
      new_sender_def Let_def)

lemma dummy_init_no_draw: "dummy_init cd conf now (Inl e) s d = d\<lparr>sd_pc := SndHead\<rparr>"
  by (simp add: dummy_init_def split: sum.splits)

abbreviation sample_step :: "int64 \<Rightarrow> desc list client_sys \<Rightarrow> desc list client_sys" where
  "sample_step now \<equiv> start_packets_step bit_codec (sample_in now)"

text \<open>The system with the sender at a given point and the stream changed.\<close>

definition sending :: "send_pc \<Rightarrow> stream \<Rightarrow> sender \<Rightarrow> desc list client_sys" where
  "sending pc s d = sample_start\<lparr>cs_sender := d\<lparr>sd_pc := pc\<rparr>, cs_stream := s\<rparr>"

lemma sample_start_fields [simp]:
  "cs_stream sample_start = sample_stream" "cs_sender sample_start = new_sender"
  "cs_conf sample_start = sample_conf" "cs_panic sample_start = None"
  by (simp_all add: sample_start_def client_start_def)

lemma sending_fields [simp]:
  "cs_stream (sending pc s d) = s" "cs_sender (sending pc s d) = d\<lparr>sd_pc := pc\<rparr>"
  "cs_panic (sending pc s d) = None" "cs_conf (sending pc s d) = sample_conf"
  "put_send ds (sending pc s d) = sending (sd_pc (fst ds)) (snd ds) (fst ds)"
  "at_send pc' (sending pc s d) = sending pc' s d"
  "sending pc s (d\<lparr>sd_pc := pc'\<rparr>) = sending pc s d"
  by (simp_all add: sending_def put_send_def at_send_def)

lemma sample_run_init: "sample_step 0 sample_start = sending SndDummyInit sample_stream sample_sender"
  by (simp add: start_packets_step_def Let_def sample_in_def)
    (simp add: new_sender_def sample_send_init [unfolded new_sender_def] put_send_def sending_def
      sample_sender_def)

lemma sample_run_dummy:
  "sample_step 0 (sending SndDummyInit sample_stream sample_sender) =
     sending SndHead sample_stream sample_sender"
  by (simp add: start_packets_step_def Let_def sample_in_def dummy_init_no_draw)

lemma sample_run_head:
  "sample_step 0 (sending SndHead sample_stream sample_sender) =
     sending SndPace sample_stream sample_sender"
  by (simp add: start_packets_step_def Let_def)

lemma sample_run_pace:
  "sample_step 2000 (sending SndPace sample_stream sample_sender) =
     sending (SndBurst 1) sample_stream sample_sender"
proof -
  have "send_target sample_conf 2000 (sample_sender\<lparr>sd_pc := SndPace\<rparr>) = 1"
    by (simp add: send_target_def sample_sender_def new_sender_def sample_conf_def tgen_initial_config_def)
  then show ?thesis
    by (simp add: start_packets_step_def Let_def send_pace_def sample_in_def)
      (simp add: sample_conf_def tgen_initial_config_def)
qed

definition sample_sender1 :: sender where
  "sample_sender1 = sample_sender
     \<lparr>sd_base_msg := (sd_base_msg sample_sender)\<lparr>sequence_number := 1, send_time_stamp := 2000\<rparr>,
      sd_base_bytes := go_copy (sd_base_bytes sample_sender)
        (encode_msg ((sd_base_msg sample_sender)\<lparr>sequence_number := 1, send_time_stamp := 2000\<rparr>))\<rparr>"

definition sample_stream1 :: stream where
  "sample_stream1 = sample_stream\<lparr>st_packet_sequence := 1\<rparr>"

lemma sample_run_burst:
  "sample_step 2000 (sending (SndBurst 1) sample_stream sample_sender) =
     sending (SndStore 1) sample_stream1 sample_sender1"
proof -
  have enc: "marshal_msg bit_codec m = Inr (encode_msg m)" for m by (simp add: bit_codec_def)
  show ?thesis
    by (simp add: start_packets_step_def Let_def send_burst_def enc sample_in_def word_sless_alt
        sample_sender1_def sample_stream1_def sending_def put_send_def)
qed

definition sample_stream2 :: stream where
  "sample_stream2 = set_pending (\<lambda>p. p(1 \<mapsto> 2000)) sample_stream1"

lemma sample_run_store:
  "sample_step 0 (sending (SndStore 1) sample_stream1 sample_sender1) =
     sending (SndWrite 1) sample_stream2 sample_sender1"
  by (simp add: start_packets_step_def Let_def send_store_def sample_stream2_def)
    (simp add: sample_stream1_def sample_sender1_def)

definition sample_written :: "desc list client_sys \<Rightarrow> desc list client_sys" where
  "sample_written sy = sy\<lparr>cs_written := [sd_base_bytes sample_sender1]\<rparr>"

lemma sample_run_write:
  "sample_step 0 (sending (SndWrite 1) sample_stream2 sample_sender1) =
     sample_written (sending (SndInc 1) sample_stream2 sample_sender1)"
  by (simp add: start_packets_step_def Let_def sample_in_def sample_written_def)
    (simp add: sending_def at_send_def sample_start_def client_start_def)

definition sample_stream3 :: stream where
  "sample_stream3 = sample_stream2\<lparr>st_packet_sent := metric_inc (st_packet_sent sample_stream2)\<rparr>"

lemma sample_run_inc:
  "sample_step 0 (sample_written (sending (SndInc 1) sample_stream2 sample_sender1)) =
     sample_written (sending (SndVal 1) sample_stream3 sample_sender1)"
  by (simp add: start_packets_step_def Let_def sample_written_def sample_stream3_def)
    (simp add: sending_def at_send_def)

definition sample_stream4 :: stream where
  "sample_stream4 = sample_stream3\<lparr>st_packet_sent_val := 1\<rparr>"

lemma sample_run_val:
  "sample_step 0 (sample_written (sending (SndVal 1) sample_stream3 sample_sender1)) =
     sample_written (sending (SndBurst 1) sample_stream4 sample_sender1)"
proof -
  have "st_packet_sent_val sample_stream3 = 0"
    by (simp add: sample_stream3_def sample_stream2_def sample_stream1_def set_pending_def)
  then show ?thesis
    by (simp add: start_packets_step_def Let_def sample_written_def sample_stream4_def)
      (simp add: sending_def at_send_def)
qed

text \<open>All of these are reachable.\<close>

lemma sample_step_reachable:
  assumes "client_reachable bit_codec list_prom sy" and "cs_panic sy = None"
    and "sd_pc (cs_sender sy) \<noteq> SndDone" and "socket_open (cs_stream sy)"
  shows "client_reachable bit_codec list_prom (sample_step now sy)"
proof (rule client_reachable.work [OF assms(1)], rule client_step.sender)
  show "\<forall>n. si_draw (sample_in now) = Inr n \<longrightarrow> n < 10" by (simp add: sample_in_def)
qed (use assms in simp_all)

lemma sample_streams_fields [simp]:
  "socket_open sample_stream1" "socket_open sample_stream2" "socket_open sample_stream3"
  "socket_open sample_stream4"
  "pending sample_stream4 = [1 \<mapsto> 2000]" "pending sample_stream3 = [1 \<mapsto> 2000]"
  "st_packet_sequence sample_stream4 = 1" "st_packet_sent_val sample_stream4 = 1"
  "st_packet_sent_val sample_stream3 = 0"
  "st_packet_received_val sample_stream4 = 0" "st_packet_dropped_val sample_stream4 = 0"
  "st_packet_received_val sample_stream3 = 0" "st_packet_dropped_val sample_stream3 = 0"
proof -
  note defs = sample_stream1_def sample_stream2_def sample_stream3_def sample_stream4_def
    set_pending_def pending_def
  have f: "fresh_stream sample_stream" by simp
  show "socket_open sample_stream1" "socket_open sample_stream2" "socket_open sample_stream3"
    "socket_open sample_stream4"
    using sample_stream_fields(5) by (simp_all add: defs socket_open_def)
  show "pending sample_stream4 = [1 \<mapsto> 2000]" "pending sample_stream3 = [1 \<mapsto> 2000]"
    "st_packet_sequence sample_stream4 = 1" "st_packet_sent_val sample_stream4 = 1"
    "st_packet_sent_val sample_stream3 = 0"
    "st_packet_received_val sample_stream4 = 0" "st_packet_dropped_val sample_stream4 = 0"
    "st_packet_received_val sample_stream3 = 0" "st_packet_dropped_val sample_stream3 = 0"
    using f by (simp_all add: defs fresh_stream_def)
qed

lemma sample_written_fields [simp]:
  "cs_stream (sample_written sy) = cs_stream sy" "cs_sender (sample_written sy) = cs_sender sy"
  "cs_panic (sample_written sy) = cs_panic sy" "cs_scanner (sample_written sy) = cs_scanner sy"
  by (simp_all add: sample_written_def)

definition sample_counting :: "desc list client_sys" where
  "sample_counting = sample_written (sending (SndVal 1) sample_stream3 sample_sender1)"

definition sample_sent :: "desc list client_sys" where
  "sample_sent = sample_written (sending (SndBurst 1) sample_stream4 sample_sender1)"

lemma sample_write_reachable:
  "client_reachable bit_codec list_prom (sending (SndWrite 1) sample_stream2 sample_sender1)"
proof -
  note more = sample_step_reachable
  have 1: "client_reachable bit_codec list_prom (sending SndDummyInit sample_stream sample_sender)"
    using more [OF sample_start_reachable, of 0] by (simp add: sample_run_init) (simp add: new_sender_def)
  have 2: "client_reachable bit_codec list_prom (sending SndHead sample_stream sample_sender)"
    using more [OF 1, of 0] by (simp add: sample_run_dummy)
  have 3: "client_reachable bit_codec list_prom (sending SndPace sample_stream sample_sender)"
    using more [OF 2, of 0] by (simp add: sample_run_head)
  have 4: "client_reachable bit_codec list_prom (sending (SndBurst 1) sample_stream sample_sender)"
    using more [OF 3, of 2000] by (simp add: sample_run_pace)
  have 5: "client_reachable bit_codec list_prom (sending (SndStore 1) sample_stream1 sample_sender1)"
    using more [OF 4, of 2000] by (simp add: sample_run_burst)
  show ?thesis
    using more [OF 5, of 0] by (simp add: sample_run_store)
qed

lemma sample_counting_reachable: "client_reachable bit_codec list_prom sample_counting"
proof -
  have "client_reachable bit_codec list_prom
      (sample_written (sending (SndInc 1) sample_stream2 sample_sender1))"
    using sample_step_reachable [OF sample_write_reachable, of 0] by (simp add: sample_run_write)
  then show ?thesis
    using sample_step_reachable [of _ 0] by (fastforce simp: sample_run_inc sample_counting_def)
qed

lemma sample_sent_reachable: "client_reachable bit_codec list_prom sample_sent"
  using sample_step_reachable [OF sample_counting_reachable, of 0]
  by (simp add: sample_counting_def sample_run_val sample_sent_def)

end
