(* ===== verification/TgenReplies.thy ===== *)
theory TgenReplies
  imports TgenSamples
begin

section \<open>What the client does with a datagram\<close>

text \<open>
  \<open>SocketRead\<close> on one datagram: a reply to a pending packet is counted with its round-trip
  time, a reply to a test packet or to a packet that is no longer pending changes nothing,
  and two kinds of datagram end the process.
\<close>

text \<open>
  The hypotheses: MessagePack round-trips and is fixed-length, the stream was built with
  that header length, and the receive buffer holds a header.
\<close>

definition client_ready :: "codec \<Rightarrow> nat \<Rightarrow> stream \<Rightarrow> byte list \<Rightarrow> bool" where
  "client_ready cd n s buf \<longleftrightarrow>
     codec_roundtrip cd \<and> codec_fixed_length cd n \<and> 0 < n \<and>
     st_msg_header_length s = word_of_nat n \<and> n \<le> length buf \<and> int (length buf) \<le> maxInt64"

text \<open>A reply as the server builds it: the message, the server's description, padding.\<close>

definition reply_of :: "codec \<Rightarrow> message \<Rightarrow> pod_info \<Rightarrow> byte list \<Rightarrow> byte list \<Rightarrow> bool" where
  "reply_of cd m info data buf \<longleftrightarrow>
     (\<exists>bs ps rest. marshal_msg cd m = Inr bs \<and> marshal_pod cd info = Inr ps \<and>
        data = bs @ ps @ rest \<and> server_info_length m = word_of_nat (length ps) \<and>
        length (bs @ ps) \<le> length buf)"

lemma header_slice:
  assumes "n \<le> length xs" and "int (length xs) \<le> maxInt64"
  shows "go_slice xs 0 (sint (word_of_nat n :: int64)) = Inr (take n xs)"
proof -
  have "sint (word_of_nat n :: int64) = int n" using assms by (simp add: sint64_of_nat)
  then show ?thesis using assms(1) go_slice_prefix by simp
qed

lemma client_handle_reply:
  assumes "client_ready cd n (fst sr) buf" and "reply_of cd m info data buf"
  shows "client_handle cd pr now (Datagram data ip) buf sr =
    (if sequence_number m = -1 then Inr (go_copy buf data, sr)
     else bindS (receive_reply pr now m info sr) (\<lambda>sr'. Inr (go_copy buf data, sr')))"
proof -
  obtain bs ps rest where d: "marshal_msg cd m = Inr bs" "marshal_pod cd info = Inr ps"
    "data = bs @ ps @ rest" "server_info_length m = word_of_nat (length ps)"
    "length (bs @ ps) \<le> length buf"
    using assms(2) unfolding reply_of_def by blast
  have r: "codec_roundtrip cd" "codec_fixed_length cd n" "0 < n"
    "st_msg_header_length (fst sr) = word_of_nat n" "n \<le> length buf" "int (length buf) \<le> maxInt64"
    using assms(1) by (simp_all add: client_ready_def)
  have n: "length bs = n" using codec_fixed_lengthD [OF r(2) d(1)] .
  let ?buf = "go_copy buf data"
  have pre: "take n ?buf = bs" "take (length ps) (drop n ?buf) = ps"
    using d(3,5) n by (simp_all add: go_copy_def take_append drop_append min_def)
  have h: "go_slice ?buf 0 (sint (st_msg_header_length (fst sr))) = Inr bs"
    using header_slice [of n ?buf] r pre(1) by simp
  have ln: "int (n + length ps) \<le> maxInt64" using d(5) n r(6) by simp
  then have "word_of_nat n + word_of_nat (length ps) = (word_of_nat (n + length ps) :: int64)"
    by simp
  then have s: "sint (st_msg_header_length (fst sr)) = int n"
    "sint (st_msg_header_length (fst sr) + server_info_length m) = int (n + length ps)"
    using sint64_of_nat [OF ln] sint64_of_nat [of n] r ln d(4) by (simp_all del: of_nat_add)
  have t: "go_slice ?buf (int n) (int (n + length ps)) = Inr ps"
    using d(5) n pre(2) by (simp add: go_slice_def nat_add_distrib)
  have u: "unmarshal_msg cd bs = (m, None)" "unmarshal_pod cd ps = (info, None)"
    using r(1) d(1,2) by (simp_all add: codec_roundtrip_def)
  have "0 < min (length data) (length buf)" using n r(3,5) d(3) by auto
  then show ?thesis
    using h t u s by (simp add: client_handle_def Let_def)
qed

text \<open>The state a counted reply leaves.\<close>

definition after_reply :: "int64 \<Rightarrow> message \<Rightarrow> stream \<Rightarrow> stream" where
  "after_reply now m s =
     (let rtt = sint (now - send_time_stamp m)
      in count_reply rtt (sequence_number m)
           ((st_round_trip s)\<lparr>mt_total := mt_total (st_round_trip s) + rtt\<rparr>) s)"

lemma client_handle_counts:
  assumes "client_ready cd n s buf" and "reply_of cd m info data buf"
    and "sequence_number m \<noteq> -1" and "pending s (sequence_number m) = Some t"
    and "0 \<le> sint (now - send_time_stamp m)" and "add_panics_on_negative pr"
    and "\<not> server_changed info (st_metric_labels s)"
  shows "client_handle cd pr now (Datagram data ip) buf (s, reg) =
    Inr (go_copy buf data, (after_reply now m s, reg))"
proof -
  let ?rtt = "sint (now - send_time_stamp m)"
  let ?m = "(st_round_trip s)\<lparr>mt_total := mt_total (st_round_trip s) + ?rtt\<rparr>"
  have "metric_add pr ?rtt (st_round_trip s) = Inr ?m"
    using assms(5,6) by (simp add: metric_add_def add_panics_on_negative_def)
  moreover have "st_metric_labels (count_reply ?rtt (sequence_number m) ?m s) = st_metric_labels s"
    by (simp add: count_reply_def set_pending_def)
  ultimately have "receive_reply pr now m info (s, reg) = Inr (after_reply now m s, reg)"
    using assms(4,7) by (simp add: receive_reply_def pending_def follow_server_def Let_def after_reply_def)
  then show ?thesis
    using client_handle_reply [of cd n "(s, reg)" buf m info data] assms(1-3) by simp
qed

lemma after_reply_simps:
  "st_packet_received_val (after_reply now m s) = st_packet_received_val s + 1"
  "mt_total (st_packet_received (after_reply now m s)) = mt_total (st_packet_received s) + 1"
  "st_round_trip_val (after_reply now m s) = st_round_trip_val s + sint (now - send_time_stamp m)"
  "mt_total (st_round_trip (after_reply now m s)) =
     mt_total (st_round_trip s) + sint (now - send_time_stamp m)"
  "mt_observed (st_latency (after_reply now m s)) =
     mt_observed (st_latency s) @ [sint (now - send_time_stamp m)]"
  "pending (after_reply now m s) = (pending s)(sequence_number m := None)"
  "st_packet_sent_val (after_reply now m s) = st_packet_sent_val s"
  "st_packet_dropped_val (after_reply now m s) = st_packet_dropped_val s"
  "st_packet_sequence (after_reply now m s) = st_packet_sequence s"
  by (simp_all add: after_reply_def Let_def count_reply_def set_pending_def pending_def
      metric_observe_def)

text \<open>
  A reply to a pending packet, from the server the stream knows, is counted as
  received with the time since the packet was sent; the packet is no longer pending and
  nothing else of the accounting changes.
\<close>

theorem reply_is_counted:
  assumes "client_ready cd n s buf" and "reply_of cd m info data buf"
    and "sequence_number m \<noteq> -1" and "pending s (sequence_number m) = Some t"
    and "0 \<le> sint (now - send_time_stamp m)" and "add_panics_on_negative pr"
    and "\<not> server_changed info (st_metric_labels s)"
  shows "\<exists>s'. client_handle cd pr now (Datagram data ip) buf (s, reg) =
      Inr (go_copy buf data, (s', reg)) \<and>
    st_packet_received_val s' = st_packet_received_val s + 1 \<and>
    mt_total (st_packet_received s') = mt_total (st_packet_received s) + 1 \<and>
    st_round_trip_val s' = st_round_trip_val s + sint (now - send_time_stamp m) \<and>
    mt_total (st_round_trip s') = mt_total (st_round_trip s) + sint (now - send_time_stamp m) \<and>
    mt_observed (st_latency s') = mt_observed (st_latency s) @ [sint (now - send_time_stamp m)] \<and>
    pending s' = (pending s)(sequence_number m := None) \<and>
    st_packet_sent_val s' = st_packet_sent_val s \<and>
    st_packet_dropped_val s' = st_packet_dropped_val s \<and>
    st_packet_sequence s' = st_packet_sequence s"
  using client_handle_counts [OF assms] after_reply_simps by (intro exI [of _ "after_reply now m s"]) simp

text \<open>
  A reply to a test packet of the start-up phase (number \<open>-1\<close>), or to a packet that is
  not pending (it was answered or dropped before, or never sent), changes nothing.
\<close>

theorem stray_reply_is_ignored:
  assumes "client_ready cd n (fst sr) buf" and "reply_of cd m info data buf"
    and "sequence_number m = -1 \<or> pending (fst sr) (sequence_number m) = None"
  shows "client_handle cd pr now (Datagram data ip) buf sr = Inr (go_copy buf data, sr)"
  using client_handle_reply [OF assms(1,2)] assms(3)
  by (auto simp: receive_reply_def pending_def Let_def)

text \<open>
  C33: a datagram whose first bytes decode to a message that announces a negative server
  description length, or one that reaches beyond the receive buffer, ends the process,
  also when the decoder reported an error for those bytes.
\<close>

theorem client_panics_on_description_length:
  assumes "st_msg_header_length (fst sr) = word_of_nat n" and "n \<le> length buf"
    and "int (length buf) \<le> maxInt64" and "data \<noteq> []" and "buf \<noteq> []"
    and "unmarshal_msg cd (take n (go_copy buf data)) = (m, err)"
    and "sint (server_info_length m) < 0 \<or> int (length buf) < int n + sint (server_info_length m)"
  shows "client_handle cd pr now (Datagram data ip) buf sr = Inl SliceBounds"
proof -
  let ?buf = "go_copy buf data" and ?hl = "st_msg_header_length (fst sr)"
  let ?L = "sint (server_info_length m)"
  have hl: "sint ?hl = int n" using assms(1-3) by (simp add: sint64_of_nat)
  have h: "go_slice ?buf 0 (sint ?hl) = Inr (take n ?buf)"
    using header_slice [of n ?buf] assms(1-3) by simp
  have "sint (?hl + server_info_length m) < int n \<or>
      int (length buf) < sint (?hl + server_info_length m)"
  proof (cases "int n + ?L \<le> maxInt64")
    case True
    then have "sint (?hl + server_info_length m) = int n + ?L"
      using hl sint64_bounds [of "server_info_length m"]
      by (subst sint64_add) (simp_all add: minInt64_def)
    then show ?thesis using assms(7) by auto
  next
    case False
    then have "sint (?hl + server_info_length m) = int n + ?L - 2 ^ 64"
      using sint64_add_overflow [of ?hl "server_info_length m"] hl by simp
    then have "sint (?hl + server_info_length m) < int n"
      using sint64_bounds(2) [of "server_info_length m"] by (simp add: maxInt64_def)
    then show ?thesis ..
  qed
  then have "go_slice ?buf (sint ?hl) (sint (?hl + server_info_length m)) = Inl SliceBounds"
    using hl by (auto simp: go_slice_def)
  then show ?thesis
    using h assms(4-6) by (simp add: client_handle_def Let_def)
qed

text \<open>
  A reply to a pending packet whose send time lies after the client's clock (the time
  is taken from the reply, not from the record of the packet) ends the process: the
  counter of round-trip times refuses the negative amount.
\<close>

theorem client_panics_on_negative_round_trip:
  assumes "client_ready cd n (fst sr) buf" and "reply_of cd m info data buf"
    and "sequence_number m \<noteq> -1" and "pending (fst sr) (sequence_number m) = Some t"
    and "sint (now - send_time_stamp m) < 0" and "add_panics_on_negative pr"
  shows "client_handle cd pr now (Datagram data ip) buf sr =
    Inl (LibPanic ''counter cannot decrease in value'')"
proof -
  have "metric_add pr (sint (now - send_time_stamp m)) (st_round_trip (fst sr)) =
      Inl (LibPanic ''counter cannot decrease in value'')"
    using assms(5,6) by (simp add: metric_add_def add_panics_on_negative_def)
  then have "receive_reply pr now m info sr = Inl (LibPanic ''counter cannot decrease in value'')"
    using assms(4) by (simp add: receive_reply_def pending_def Let_def)
  then show ?thesis using client_handle_reply [OF assms(1,2)] assms(3) by simp
qed


subsection \<open>Witnesses\<close>

definition no_info :: pod_info where
  "no_info = \<lparr>pod_namespace = [], pod_name = [], worker_name = []\<rparr>"

definition sample_reply :: "int64 \<Rightarrow> int64 \<Rightarrow> message" where
  "sample_reply seq ts =
     \<lparr>sequence_number = seq, send_time_stamp = ts, respond_time_stamp = 2500,
      server_info_length = 3, msg_len = 320\<rparr>"

definition sample_data :: "int64 \<Rightarrow> int64 \<Rightarrow> byte list" where
  "sample_data seq ts = encode_msg (sample_reply seq ts) @ encode_pod no_info"

definition client_buffer :: "byte list" where
  "client_buffer = replicate 1000 0"

lemma length_encode_no_info [simp]: "length (encode_pod no_info) = 3"
  by (simp add: encode_pod_def no_info_def)

lemma sample_reply_of: "reply_of bit_codec (sample_reply seq ts) no_info (sample_data seq ts) client_buffer"
  unfolding reply_of_def
  by (intro exI [of _ "encode_msg (sample_reply seq ts)"] exI [of _ "encode_pod no_info"] exI [of _ "[]"])
    (simp add: bit_codec_def sample_data_def client_buffer_def sample_reply_def)

lemma sample_stream4_header: "st_msg_header_length sample_stream4 = 320"
  by (simp add: sample_stream4_def sample_stream3_def sample_stream2_def sample_stream1_def
      set_pending_def)

lemma sample_client_ready: "client_ready bit_codec 320 sample_stream4 client_buffer"
  by (simp add: client_ready_def sample_stream4_header client_buffer_def maxInt64_def)

lemma sample_not_changed: "\<not> server_changed no_info (st_metric_labels sample_stream4)"
proof -
  obtain ls where "st_metric_labels sample_stream = clear_server_labels ls"
    using sample_stream_labels by blast
  then have "st_metric_labels sample_stream4 = clear_server_labels ls"
    by (simp add: sample_stream4_def sample_stream3_def sample_stream2_def sample_stream1_def
        set_pending_def)
  then show ?thesis
    by (simp add: server_changed_def clear_server_labels_def label_get_update no_info_def)
qed

theorem reply_is_counted_witness:
  "\<exists>s'. client_handle bit_codec list_prom 3000 (Datagram (sample_data 1 2000) []) client_buffer
      (sample_stream4, []) = Inr (go_copy client_buffer (sample_data 1 2000), (s', [])) \<and>
    st_packet_received_val s' = 1 \<and> pending s' = Map.empty"
proof -
  have "sequence_number (sample_reply 1 2000) \<noteq> -1"
    "pending sample_stream4 (sequence_number (sample_reply 1 2000)) = Some 2000"
    "0 \<le> sint (3000 - send_time_stamp (sample_reply 1 2000))"
    by (simp_all add: sample_reply_def)
  from reply_is_counted [OF sample_client_ready sample_reply_of this list_prom_add sample_not_changed]
  obtain s' where "client_handle bit_codec list_prom 3000 (Datagram (sample_data 1 2000) []) client_buffer
      (sample_stream4, []) = Inr (go_copy client_buffer (sample_data 1 2000), (s', []))"
    "st_packet_received_val s' = st_packet_received_val sample_stream4 + 1"
    "pending s' = (pending sample_stream4)(1 := None)"
    by (fastforce simp: sample_reply_def)
  then show ?thesis by (intro exI [of _ s']) simp
qed

theorem stray_reply_is_ignored_witness:
  "client_handle bit_codec list_prom 3000 (Datagram (sample_data 7 2000) []) client_buffer
     (sample_stream4, []) = Inr (go_copy client_buffer (sample_data 7 2000), (sample_stream4, []))"
  by (rule stray_reply_is_ignored [where n = 320, OF _ sample_reply_of])
    (simp_all add: sample_client_ready sample_reply_def)

theorem client_panics_on_negative_round_trip_witness:
  "client_handle bit_codec list_prom 3000 (Datagram (sample_data 1 4000) []) client_buffer
     (sample_stream4, []) = Inl (LibPanic ''counter cannot decrease in value'')"
  by (rule client_panics_on_negative_round_trip [where n = 320 and t = 2000, OF _ sample_reply_of])
    (simp_all add: sample_client_ready sample_reply_def)

definition long_info :: message where
  "long_info = (sample_reply 1 2000)\<lparr>server_info_length := 681\<rparr>"

theorem client_panics_on_description_length_witness:
  "client_handle bit_codec list_prom 3000 (Datagram (encode_msg long_info) []) client_buffer
     (sample_stream4, []) = Inl SliceBounds"
proof (rule client_panics_on_description_length [where n = 320 and m = long_info and err = None])
  have "take 320 (go_copy client_buffer (encode_msg long_info)) = encode_msg long_info"
    by (simp add: go_copy_def client_buffer_def)
  then show "unmarshal_msg bit_codec (take 320 (go_copy client_buffer (encode_msg long_info))) =
      (long_info, None)"
    by (simp add: bit_codec_def)
  have "encode_msg long_info \<noteq> []" using length_encode_msg [of long_info] by fastforce
  then show "encode_msg long_info \<noteq> []" .
qed (simp_all add: sample_stream4_header client_buffer_def maxInt64_def long_info_def)


end
