(* ===== verification/TgenProps.thy ===== *)
theory TgenProps
  imports TgenReplies
begin

section \<open>What holds of a client stream in every schedule\<close>

text \<open>
  Consequences of the invariant of \<open>TgenAccounts\<close>, the counters that can fall behind it,
  the redial, and the shutdown of the three goroutines.
\<close>

subsection \<open>Accounting\<close>

text \<open>
  C2: whatever arrives and however the goroutines interleave, every sequence number used
  so far is a packet counted as sent, one counted as failed, or the one the sender is
  working on; and every packet sent is received, dropped or pending, with no packet
  counted twice.
\<close>

theorem every_packet_is_accounted:
  assumes "client_reachable cd pr sy" and "add_panics_on_negative pr"
  shows "st_packet_sent_val (cs_stream sy) + st_packet_send_failed_val (cs_stream sy)
      + in_flight (sd_pc (cs_sender sy)) = sint (st_packet_sequence (cs_stream sy)) \<and>
    st_packet_sent_val (cs_stream sy) \<le> st_packet_received_val (cs_stream sy)
      + st_packet_dropped_val (cs_stream sy) + int (card (dom (pending (cs_stream sy)))) \<and>
    st_packet_received_val (cs_stream sy) + st_packet_dropped_val (cs_stream sy)
      + int (card (dom (pending (cs_stream sy)))) \<le> sint (st_packet_sequence (cs_stream sy))"
  using client_inv_accounts [OF client_reachable_inv [OF assms]] by (simp add: accounted_def)

theorem every_packet_is_accounted_witness:
  "st_packet_sent_val (cs_stream sample_sent) = 1 \<and>
   1 \<le> st_packet_received_val (cs_stream sample_sent) + st_packet_dropped_val (cs_stream sample_sent)
     + int (card (dom (pending (cs_stream sample_sent))))"
  using every_packet_is_accounted [OF sample_sent_reachable list_prom_add]
  by (simp add: sample_sent_def)

text \<open>
  C19: the timeout scan never passes a packet that is still pending: every pending number
  lies between the scan's position and the last number used, so no pending packet is ever
  lost to the scan.
\<close>

theorem scan_never_passes_pending:
  assumes "client_reachable cd pr sy" and "add_panics_on_negative pr"
    and "pending (cs_stream sy) k = Some t"
  shows "sint (tm_seq (cs_scanner sy)) \<le> sint k \<and> sint k \<le> sint (st_packet_sequence (cs_stream sy))"
proof -
  have "sint (tm_seq (cs_scanner sy)) \<le> sint k \<and>
      sint k + not_entered (sd_pc (cs_sender sy)) \<le> sint (st_packet_sequence (cs_stream sy))"
    using client_reachable_inv [OF assms(1,2)] assms(3) by (simp add: client_inv_def stream_inv_def)
  then show ?thesis using pc_weights_bounds(1) [of "sd_pc (cs_sender sy)"] by auto
qed

theorem scan_never_passes_pending_witness:
  "sint (tm_seq (cs_scanner sample_sent)) \<le> 1"
proof -
  have "pending (cs_stream sample_sent) 1 = Some 2000" by (simp add: sample_sent_def)
  then show ?thesis
    using scan_never_passes_pending [OF sample_sent_reachable list_prom_add, of 1 2000] by simp
qed



subsection \<open>The sent counter can fall behind\<close>

text \<open>
  The sender increments the exported counter and the value beside it in two statements
  outside the mutex.  When a reply from a new server is processed between them, the counter
  is registered anew from the old value and that increment is lost.
\<close>

definition new_server_info :: pod_info where
  "new_server_info = \<lparr>pod_namespace = ''n'', pod_name = ''s'', worker_name = ''w''\<rparr>"

definition new_server_data :: "byte list" where
  "new_server_data =
     encode_msg ((sample_reply 1 2000)\<lparr>server_info_length := 9\<rparr>) @ encode_pod new_server_info"

lemma new_server_reply:
  "reply_of bit_codec ((sample_reply 1 2000)\<lparr>server_info_length := 9\<rparr>) new_server_info
     new_server_data client_buffer"
  unfolding reply_of_def
  by (intro exI [of _ "encode_msg ((sample_reply 1 2000)\<lparr>server_info_length := 9\<rparr>)"]
      exI [of _ "encode_pod new_server_info"] exI [of _ "[]"])
    (simp add: bit_codec_def new_server_data_def client_buffer_def encode_pod_def new_server_info_def)

lemma unregister_empty: "fold (\<lambda>m reg. prom_unregister list_prom reg m) ms [] = []"
  by (induction ms) (simp_all add: list_prom_def)

lemma sample_stream3_fields:
  "st_msg_header_length sample_stream3 = 320" "st_read_buffer_size sample_stream3 = 1000"
  "\<not> st_stop sample_stream3"
  by (simp_all add: sample_stream3_def sample_stream2_def sample_stream1_def set_pending_def)

lemma sample_labels3: "\<exists>ls. st_metric_labels sample_stream3 = clear_server_labels ls"
  using sample_stream_labels
  by (simp add: sample_stream3_def sample_stream2_def sample_stream1_def set_pending_def)

text \<open>What the reply of a new server does to the stream in that state.\<close>

lemma new_server_handled:
  obtains s reg where
    "client_handle bit_codec list_prom 3000 (Datagram new_server_data []) client_buffer
       (sample_stream3, []) = Inr (go_copy client_buffer new_server_data, (s, reg))"
    "mt_total (st_packet_sent s) = 0" "st_packet_sent_val s = 0"
proof -
  let ?m = "(sample_reply 1 2000)\<lparr>server_info_length := 9\<rparr>"
  have ready: "client_ready bit_codec 320 sample_stream3 client_buffer"
    by (simp add: client_ready_def sample_stream3_fields client_buffer_def maxInt64_def)
  obtain ls where ls: "st_metric_labels sample_stream3 = clear_server_labels ls"
    using sample_labels3 by blast
  obtain m where m: "metric_add list_prom 1000 (st_round_trip sample_stream3) = Inr m"
    by (simp add: metric_add_def list_prom_def)
  let ?s = "count_reply 1000 1 m sample_stream3"
  have changed: "server_changed new_server_info (st_metric_labels ?s)"
    by (simp add: server_changed_def count_reply_def set_pending_def ls clear_server_labels_def
        label_get_update new_server_info_def)
  let ?t = "?s\<lparr>st_metric_labels := set_server_labels new_server_info (st_metric_labels ?s)\<rparr>"
  have dereg: "deregister_stream_metrics list_prom (?t, []) = (?t, [])"
    by (simp add: deregister_stream_metrics_def unregister_empty)
  obtain sr where sr: "register_stream_metrics list_prom (?t, []) = (sr, None)"
    by (rule register_stream_metrics_list [of "(?t, [])"]) (simp add: names_def)
  have "follow_server list_prom new_server_info (?s, []) = Inr sr"
    using changed by (simp add: follow_server_def reregister_stream_metrics_def dereg sr)
  then have "receive_reply list_prom 3000 ?m new_server_info (sample_stream3, []) = Inr sr"
    using m by (simp add: receive_reply_def Let_def sample_reply_def
        sample_streams_fields(6) [unfolded pending_def])
  then have h: "client_handle bit_codec list_prom 3000 (Datagram new_server_data []) client_buffer
      (sample_stream3, []) = Inr (go_copy client_buffer new_server_data, sr)"
    using client_handle_reply [where cd = bit_codec and n = 320 and sr = "(sample_stream3, [])"
        and pr = list_prom and now = 3000 and ip = "[]", OF _ new_server_reply] ready
    by (simp add: sample_reply_def)
  obtain m1 m2 m3 m4 m5 l ms where r: "fst sr = ?t\<lparr>st_packet_sent := m1,
       st_packet_send_failed := m2, st_packet_received := m3, st_packet_dropped := m4,
       st_round_trip := m5, st_latency := l, st_stream_metrics := ms\<rparr>"
    "mt_total m1 = max 0 (st_packet_sent_val ?t)"
    by (rule register_stream_metrics_ok [OF sr]) (simp only: fst_conv)
  have v: "st_packet_sent_val ?t = 0"
    by (simp add: count_reply_def set_pending_def)
  show ?thesis
    by (rule that [of "fst sr" "snd sr"])
      (use h in \<open>simp only: prod.collapse\<close>, use r v in simp_all)
qed

text \<open>The reader handles it between the sender's two statements.\<close>

lemma counting_then_reply:
  obtains sy where "client_reachable bit_codec list_prom sy" "cs_panic sy = None"
    "sd_pc (cs_sender sy) = SndVal 1" "mt_total (st_packet_sent (cs_stream sy)) = 0"
    "st_packet_sent_val (cs_stream sy) = 0"
proof -
  let ?R = "client_reachable bit_codec list_prom"
  let ?read = "socket_read_step bit_codec list_prom 3000"
  let ?s0 = "sample_counting\<lparr>cs_conf := sample_conf, cs_registry := []\<rparr>"
  let ?d = "Datagram new_server_data []"
  have f: "cs_stream sample_counting = sample_stream3" "cs_panic sample_counting = None"
    "cs_reader sample_counting = RdInit" "cs_buffer sample_counting = []"
    "sd_pc (cs_sender sample_counting) = SndVal 1"
    by (simp_all add: sample_counting_def)
      (simp_all add: sample_written_def sending_def sample_start_def client_start_def)
  have r0: "?R ?s0" by (rule client_reachable.environment [OF sample_counting_reachable])
  let ?s1 = "?s0\<lparr>cs_buffer := client_buffer, cs_reader := RdHead\<rparr>"
  have "?read ReadFailed ?s0 = ?s1"
    by (simp add: socket_read_step_def f sample_stream3_fields client_buffer_def word_sless_alt)
  then have r1: "?R ?s1"
    using client_reachable.work [OF r0 client_step.reader [where sy = ?s0 and rd = ReadFailed
          and now = 3000]] f by simp
  let ?s2 = "?s1\<lparr>cs_reader := RdBody\<rparr>"
  have "?read ReadFailed ?s1 = ?s2"
    by (simp add: socket_read_step_def f sample_stream3_fields)
  then have r2: "?R ?s2"
    using client_reachable.work [OF r1 client_step.reader [where sy = ?s1 and rd = ReadFailed
          and now = 3000]] f by simp
  obtain s reg where h: "client_handle bit_codec list_prom 3000 ?d client_buffer (sample_stream3, []) =
      Inr (go_copy client_buffer new_server_data, (s, reg))"
    "mt_total (st_packet_sent s) = 0" "st_packet_sent_val s = 0"
    by (rule new_server_handled)
  let ?s3 = "?s2\<lparr>cs_buffer := go_copy client_buffer new_server_data, cs_stream := s,
      cs_registry := reg, cs_reader := RdHead\<rparr>"
  have "?read ?d ?s2 = ?s3"
    by (simp add: socket_read_step_def f h(1))
  then have r3: "?R ?s3"
    using client_reachable.work [OF r2 client_step.reader [where sy = ?s2 and rd = ?d
          and now = 3000]] f by simp
  show ?thesis by (rule that [OF r3]) (simp_all add: f h)
qed

text \<open>
  C32: there is a run of a client stream, with nothing but a reply from a server that was
  not seen before, after which one packet has been sent and accounted for and the exported
  counter of sent packets still reads zero.
\<close>

theorem sent_counter_falls_behind:
  "\<exists>sy. client_reachable bit_codec list_prom sy \<and> cs_panic sy = None \<and>
     in_flight (sd_pc (cs_sender sy)) = 0 \<and> st_packet_sent_val (cs_stream sy) = 1 \<and>
     mt_total (st_packet_sent (cs_stream sy)) = 0"
proof -
  obtain sy where sy: "client_reachable bit_codec list_prom sy" "cs_panic sy = None"
    "sd_pc (cs_sender sy) = SndVal 1" "mt_total (st_packet_sent (cs_stream sy)) = 0"
    "st_packet_sent_val (cs_stream sy) = 0"
    by (rule counting_then_reply)
  let ?i = "(sample_in 0)\<lparr>si_write_err := Some (GoError [])\<rparr>"
  let ?t = "at_send (SndBurst 1) (sy\<lparr>cs_stream := (cs_stream sy)\<lparr>st_packet_sent_val := 1\<rparr>\<rparr>)"
  have "start_packets_step bit_codec ?i sy = ?t"
    using sy by (simp add: start_packets_step_def Let_def)
  then have "client_reachable bit_codec list_prom ?t"
    using client_reachable.work [OF sy(1) client_step.sender [where sy = sy and i = ?i]] sy(2,3)
    by (simp add: sample_in_def)
  then show ?thesis
    using sy by (intro exI [of _ ?t]) (simp add: at_send_def in_flight_def)
qed

end
