(* ===== verification/TgenShutdown.thy ===== *)
theory TgenShutdown
  imports TgenProps
begin

section \<open>Stopping a client stream\<close>

text \<open>
  The three goroutines keep the shutdown contract of \<open>Workers\<close>, with a bound that counts
  the packets left in the burst that is running: the inner loop of \<open>StartPackets\<close> does not
  look at the stop flag.  A step of the reader is a read that returned, so the bound is on
  the steps taken, and a redial that opens a new socket after the teardown closed the old
  one (the last property) leaves the reader waiting on a socket nobody closes.
\<close>

subsection \<open>The rank\<close>

definition burst_left :: "int64 \<Rightarrow> stream \<Rightarrow> nat" where
  "burst_left n s = nat (sint n - sint (st_packet_sequence s))"

definition sender_rank :: "stream \<Rightarrow> send_pc \<Rightarrow> nat" where
  "sender_rank s pc =
     (case pc of
        SndInit \<Rightarrow> 13 | SndDummyInit \<Rightarrow> 12 | SndDummy k \<Rightarrow> 1 + k | SndHead \<Rightarrow> 1
      | SndPace \<Rightarrow> 6 * 2 ^ 64 + 3
      | SndBurst n \<Rightarrow> 6 * burst_left n s + 2 | SndStore n \<Rightarrow> 6 * burst_left n s + 7
      | SndWrite n \<Rightarrow> 6 * burst_left n s + 6 | SndUnstore n \<Rightarrow> 6 * burst_left n s + 5
      | SndFailInc n \<Rightarrow> 6 * burst_left n s + 4 | SndFailVal n \<Rightarrow> 6 * burst_left n s + 3
      | SndInc n \<Rightarrow> 6 * burst_left n s + 4 | SndVal n \<Rightarrow> 6 * burst_left n s + 3
      | SndDone \<Rightarrow> 0)"

definition scanner_rank :: "scan_pc \<Rightarrow> nat" where
  "scanner_rank pc =
     (case pc of TimInit \<Rightarrow> 2 | TimHead \<Rightarrow> 1 | TimScan \<Rightarrow> 2 | TimLookup \<Rightarrow> 4 | TimRedial \<Rightarrow> 3
      | TimDone \<Rightarrow> 0)"

definition reader_rank :: "read_pc \<Rightarrow> nat" where
  "reader_rank pc = (case pc of RdInit \<Rightarrow> 2 | RdBody \<Rightarrow> 2 | RdHead \<Rightarrow> 1 | RdDone \<Rightarrow> 0)"

definition client_rank :: "'r client_sys \<Rightarrow> nat" where
  "client_rank sy =
     (if cs_panic sy \<noteq> None then 0
      else sender_rank (cs_stream sy) (sd_pc (cs_sender sy)) +
        scanner_rank (tm_pc (cs_scanner sy)) + reader_rank (cs_reader sy))"

definition client_finished :: "'r client_sys \<Rightarrow> bool" where
  "client_finished sy \<longleftrightarrow> cs_panic sy \<noteq> None \<or> st_is_stopped (cs_stream sy) = 0"

lemma burst_left_bound: "burst_left n s \<le> 2 ^ 64"
  using sint64_bounds [of n] sint64_bounds [of "st_packet_sequence s"]
  by (simp add: burst_left_def minInt64_def maxInt64_def)

lemma sender_rank_cong:
  "st_packet_sequence s = st_packet_sequence s' \<Longrightarrow> sender_rank s pc = sender_rank s' pc"
  by (cases pc) (simp_all add: sender_rank_def burst_left_def)

lemma burst_left_next:
  assumes "st_packet_sequence s <s n"
  shows "Suc (burst_left n (s\<lparr>st_packet_sequence := st_packet_sequence s + 1\<rparr>)) = burst_left n s"
  using sint64_Suc_less [OF assms] assms by (simp add: burst_left_def word_sless_alt)

subsection \<open>Each step of a stopping stream lowers it\<close>

lemma receive_reply_sequence:
  "receive_reply pr now msg info sr = Inr sr' \<Longrightarrow>
     st_packet_sequence (fst sr') = st_packet_sequence (fst sr) \<and>
     st_msg_header_length (fst sr') = st_msg_header_length (fst sr)"
  by (auto simp: receive_reply_def Let_def bindS_Inr_iff follow_server_ok(5,6) count_reply_def
      set_pending_def split: option.splits)

lemma client_handle_sequence:
  "client_handle cd pr now rd buf sr = Inr (buf', sr') \<Longrightarrow>
     st_packet_sequence (fst sr') = st_packet_sequence (fst sr) \<and>
     st_msg_header_length (fst sr') = st_msg_header_length (fst sr)"
  by (erule client_handle_cases) (auto dest: receive_reply_sequence)

lemma client_reader_rank:
  assumes "client_inv sy" and "st_stop (cs_stream sy)" and "cs_panic sy = None"
    and "cs_reader sy \<noteq> RdDone"
  shows "client_rank (socket_read_step cd pr now rd sy) < client_rank sy"
proof (cases "cs_reader sy")
  case RdInit
  then show ?thesis
    using assms(3) by (simp add: socket_read_step_def client_rank_def reader_rank_def)
next
  case RdHead
  have "sender_rank ((cs_stream sy)\<lparr>st_is_stopped := w\<rparr>) pc = sender_rank (cs_stream sy) pc" for w pc
    by (rule sender_rank_cong) simp
  then show ?thesis
    using assms RdHead client_done_pos [OF running_pos(1) [OF assms(1,4)]]
    by (simp add: socket_read_step_def client_rank_def reader_rank_def)
next
  case RdBody
  show ?thesis
  proof (cases "client_handle cd pr now rd (cs_buffer sy) (cs_stream sy, cs_registry sy)")
    case (Inl p)
    then show ?thesis
      using assms(3) RdBody by (simp add: socket_read_step_def client_rank_def reader_rank_def)
  next
    case (Inr res)
    obtain buf s reg where res: "res = (buf, s, reg)" by (cases res)
    have "sender_rank s pc = sender_rank (cs_stream sy) pc" for pc
      using client_handle_sequence [OF Inr [unfolded res]] by (intro sender_rank_cong) simp
    then show ?thesis
      using assms(3) RdBody Inr res
      by (simp add: socket_read_step_def client_rank_def reader_rank_def)
  qed
next
  case RdDone
  then show ?thesis using assms(4) by simp
qed

lemma scan_lookup_rank:
  "scan_lookup now1 now2 (t, s) = (t', s') \<Longrightarrow>
     st_packet_sequence s' = st_packet_sequence s \<and> scanner_rank (tm_pc t') \<le> 3"
  by (auto simp: scan_lookup_def Let_def scanner_rank_def count_dropped_def set_pending_def
      split: option.splits if_splits)

lemma scan_redial_rank:
  "scan_redial net conf now (t, s) = (t', s') \<Longrightarrow>
     st_packet_sequence s' = st_packet_sequence s \<and> tm_pc t' = TimScan"
  by (auto simp: scan_redial_def Let_def dest!: redial_core core_fields(3) split: prod.splits if_splits)

lemma client_timeouts_rank:
  assumes "client_inv sy" and "st_stop (cs_stream sy)" and "cs_panic sy = None"
    and "tm_pc (cs_scanner sy) \<noteq> TimDone"
  shows "client_rank (timeouts_step net now1 now2 sy) < client_rank sy"
proof -
  have w: "sender_rank ((cs_stream sy)\<lparr>st_is_stopped := w\<rparr>) pc = sender_rank (cs_stream sy) pc" for w pc
    by (rule sender_rank_cong) simp
  note defs = timeouts_step_def client_rank_def Let_def put_scan_def at_scan_def
  show ?thesis
  proof (cases "tm_pc (cs_scanner sy)")
    case TimLookup
    obtain t s where r: "scan_lookup now1 now2 (cs_scanner sy, cs_stream sy) = (t, s)" by fastforce
    note ok = scan_lookup_rank [OF r]
    have "sender_rank s pc = sender_rank (cs_stream sy) pc" for pc
      using ok by (intro sender_rank_cong) simp
    then show ?thesis using TimLookup ok r assms(3) by (simp add: defs scanner_rank_def [of TimLookup])
  next
    case TimRedial
    obtain t s where r: "scan_redial net (cs_conf sy) now1 (cs_scanner sy, cs_stream sy) = (t, s)"
      by fastforce
    note ok = scan_redial_rank [OF r]
    have "sender_rank s pc = sender_rank (cs_stream sy) pc" for pc
      using ok by (intro sender_rank_cong) simp
    then show ?thesis using TimRedial ok r assms(3) by (simp add: defs scanner_rank_def)
  qed (use assms w client_done_pos [OF running_pos(2) [OF assms(1,4)]] in
      \<open>simp_all add: defs scanner_rank_def scan_init_def\<close>)
qed

lemma send_burst_rank:
  assumes "send_burst cd n now (d, s) = (d', s')"
  shows "sender_rank s' (sd_pc d') < sender_rank s (SndBurst n)"
proof (cases "st_packet_sequence s <s n")
  case True
  then have s': "s' = s\<lparr>st_packet_sequence := st_packet_sequence s + 1\<rparr>"
    and pc: "sd_pc d' = SndFailInc n \<or> sd_pc d' = SndStore n"
    using assms by (auto simp: send_burst_def Let_def split: sum.splits)
  then show ?thesis using burst_left_next [OF True] by (auto simp: sender_rank_def)
next
  case False
  then show ?thesis using assms by (auto simp: send_burst_def sender_rank_def)
qed

lemma send_store_rank:
  "send_store n (d, s) = (d', s') \<Longrightarrow> sender_rank s' (sd_pc d') < sender_rank s (SndStore n)"
  "send_unstore n (d, s) = (d', s') \<Longrightarrow> sender_rank s' (sd_pc d') < sender_rank s (SndUnstore n)"
  by (auto simp: send_store_def send_unstore_def Let_def sender_rank_def burst_left_def set_pending_def)

lemma dummy_packet_rank:
  "dummy_packet net conf e k (d, s) = (d', s') \<Longrightarrow> 0 < k \<Longrightarrow>
     sender_rank s' (sd_pc d') < sender_rank s (SndDummy k)"
  by (auto simp: dummy_packet_def sender_rank_def split: if_splits prod.splits)

lemma send_pace_rank: "sender_rank s (sd_pc (send_pace conf now1 now2 d)) < sender_rank s SndPace"
proof -
  have "6 * burst_left n s + 2 < 6 * 2 ^ 64 + 3" for n
    using burst_left_bound [of n s] by simp
  then show ?thesis by (simp add: send_pace_def sender_rank_def)
qed

lemma dummy_init_rank:
  "\<forall>n. draw = Inr n \<longrightarrow> n < 10 \<Longrightarrow>
     sender_rank s (sd_pc (dummy_init cd conf now draw s d)) < sender_rank s SndDummyInit"
  by (auto simp: dummy_init_def sender_rank_def split: sum.splits)

text \<open>A count of zero dummy packets is never a state.\<close>

definition dummy_pos :: "'r client_sys \<Rightarrow> bool" where
  "dummy_pos sy \<longleftrightarrow> sd_pc (cs_sender sy) \<noteq> SndDummy 0"

lemma put_send_rank:
  assumes "cs_panic sy = None" and "sender_rank s (sd_pc d) < sender_rank (cs_stream sy) (sd_pc (cs_sender sy))"
  shows "client_rank (put_send (d, s) sy) < client_rank sy"
  using assms by (simp add: client_rank_def put_send_def)

lemma at_send_rank:
  assumes "cs_panic sy = None" and "sender_rank s pc < sender_rank (cs_stream sy) (sd_pc (cs_sender sy))"
  shows "client_rank (at_send pc (sy\<lparr>cs_stream := s\<rparr>)) < client_rank sy"
  using assms by (simp add: client_rank_def at_send_def)

lemma client_sender_rank:
  assumes "client_inv sy" and "st_stop (cs_stream sy)" and "cs_panic sy = None"
    and "sd_pc (cs_sender sy) \<noteq> SndDone" and "\<forall>n. si_draw i = Inr n \<longrightarrow> n < 10" and "dummy_pos sy"
  shows "client_rank (start_packets_step cd i sy) < client_rank sy"
proof -
  let ?d = "cs_sender sy" and ?s = "cs_stream sy"
  note put = put_send_rank [OF assms(3)] and at = at_send_rank [OF assms(3)]
  note fin = client_done_pos [OF running_pos(3) [OF assms(1,4)]]
  note step = start_packets_step_def Let_def
  show ?thesis
  proof (cases "sd_pc ?d")
    case SndInit
    show ?thesis
    proof (cases "send_init cd (cs_conf sy) (st_msg_header_length ?s) (si_now1 i) ?d")
      case (Inl p)
      then show ?thesis using SndInit assms(3) by (simp add: step client_rank_def sender_rank_def)
    next
      case (Inr r)
      have "sd_pc d' = SndDummyInit" if "r = Some d'" for d'
        using Inr that by (auto simp: send_init_def bindS_def Let_def split: sum.splits)
      then show ?thesis
        using SndInit Inr fin assms(3)
        by (cases r) (simp_all add: step client_rank_def put_send_def at_send_def sender_rank_def)
    qed
  next
    case SndDummyInit
    then show ?thesis
      using put [of ?s] dummy_init_rank [OF assms(5)] by (simp add: step)
  next
    case (SndDummy k)
    obtain d s where r: "dummy_packet (si_net i) (cs_conf sy) (si_write_err i) k (?d, ?s) = (d, s)"
      by fastforce
    have "0 < k" using SndDummy assms(6) by (cases k) (simp_all add: dummy_pos_def)
    then show ?thesis
      using dummy_packet_rank [OF r] SndDummy r assms(3)
      by (simp add: step client_rank_def put_send_def)
  next
    case SndHead
    then show ?thesis
      using assms(2,3) fin by (simp add: step client_rank_def at_send_def sender_rank_def)
  next
    case SndPace
    then show ?thesis using put [of ?s] send_pace_rank by (simp add: step)
  next
    case (SndBurst n)
    obtain d s where r: "send_burst cd n (si_now1 i) (?d, ?s) = (d, s)" by fastforce
    then show ?thesis using put [of s d] send_burst_rank [OF r] SndBurst by (simp add: step)
  next
    case (SndStore n)
    obtain d s where r: "send_store n (?d, ?s) = (d, s)" by fastforce
    then show ?thesis using put [of s d] send_store_rank(1) [OF r] SndStore by (simp add: step)
  next
    case (SndUnstore n)
    obtain d s where r: "send_unstore n (?d, ?s) = (d, s)" by fastforce
    then show ?thesis using put [of s d] send_store_rank(2) [OF r] SndUnstore by (simp add: step)
  next
    case (SndWrite n)
    then show ?thesis
      using assms(3) by (simp add: step client_rank_def at_send_def sender_rank_def)
  next
    case SndDone
    then show ?thesis using assms(4) by simp
  qed (use at in \<open>simp_all add: step sender_rank_def burst_left_def\<close>)
qed

lemma dummy_pos_step:
  assumes "client_step cd pr sy sy'" and "dummy_pos sy"
  shows "dummy_pos sy'"
  using assms(1)
proof (cases rule: client_step.cases)
  case (reader rd now)
  then show ?thesis
    using assms(2) by (simp add: socket_read_step_def dummy_pos_def client_done_def
        split: read_pc.splits sum.splits prod.splits)
next
  case (timeouts net now1 now2)
  then show ?thesis
    using assms(2) by (simp add: timeouts_step_def dummy_pos_def client_done_def Let_def put_scan_def
        at_scan_def split: scan_pc.splits sum.splits)
next
  case (sender i)
  have 1: "sd_pc d' = SndDummyInit" if "send_init cd conf hl now d = Inr (Some d')" for conf hl now d d'
    using that by (auto simp: send_init_def bindS_def Let_def split: sum.splits)
  have 2: "sd_pc (dummy_init cd conf now draw s d) \<noteq> SndDummy 0" for conf now draw s d
    by (simp add: dummy_init_def split: sum.splits)
  have 3: "sd_pc (fst (dummy_packet net conf e k (d, s))) \<noteq> SndDummy 0" for net conf e k d s
    by (simp add: dummy_packet_def split: prod.splits)
  have 4: "sd_pc (send_pace conf now1 now2 d) \<noteq> SndDummy 0" for conf now1 now2 d
    by (simp add: send_pace_def)
  have 5: "sd_pc (fst (send_burst cd n now (d, s))) \<noteq> SndDummy 0" for n now d s
    by (simp add: send_burst_def Let_def split: sum.splits)
  note defs = start_packets_step_def dummy_pos_def Let_def put_send_def at_send_def
  have "dummy_pos (start_packets_step cd i sy)"
  proof (cases "sd_pc (cs_sender sy)")
    case SndInit
    then show ?thesis
      using 1 by (auto simp: defs client_done_def split: sum.splits option.splits)
  next
    case SndHead
    then show ?thesis by (simp add: defs client_done_def split: sum.splits)
  qed (use assms(2) 2 3 4 5 in \<open>simp_all add: defs send_store_def send_unstore_def\<close>)
  then show ?thesis using sender by simp
qed

lemma dummy_pos_reachable: "client_reachable cd pr sy \<Longrightarrow> dummy_pos sy"
proof (induction rule: client_reachable.induct)
  case (start p n s net conf0 reg0 s' reg conf)
  then show ?case by (simp add: dummy_pos_def client_start_def new_sender_def)
next
  case (work sy sy')
  then show ?case using dummy_pos_step by blast
qed (simp_all add: dummy_pos_def)

subsection \<open>The contract\<close>

definition client_work ::
  "codec \<Rightarrow> 'r prom \<Rightarrow> 'r client_sys \<Rightarrow> 'r client_sys \<Rightarrow> bool" where
  "client_work cd pr sy sy' \<longleftrightarrow>
     add_panics_on_negative pr \<and> client_step cd pr sy sy'"

definition client_work_inv :: "'r prom \<Rightarrow> 'r client_sys \<Rightarrow> bool" where
  "client_work_inv pr sy \<longleftrightarrow> add_panics_on_negative pr \<and> client_inv sy \<and> dummy_pos sy"

lemma client_stuck_finished:
  assumes "client_inv sy" and "\<And>sy'. \<not> client_step cd pr sy sy'"
  shows "client_finished sy"
proof (rule ccontr)
  assume "\<not> client_finished sy"
  then have np: "cs_panic sy = None" and w: "st_is_stopped (cs_stream sy) \<noteq> 0"
    by (simp_all add: client_finished_def)
  then have "cs_reader sy \<noteq> RdDone \<or> tm_pc (cs_scanner sy) \<noteq> TimDone \<or> sd_pc (cs_sender sy) \<noteq> SndDone"
    using assms(1) by (auto simp: client_inv_def client_running_def)
  then show False
    using assms(2) np client_step.reader [where sy = sy and rd = ReadFailed and cd = cd
        and pr = pr]
      client_step.timeouts [where sy = sy and cd = cd and pr = pr]
      client_step.sender [where sy = sy and cd = cd and pr = pr
        and i = "(sample_in 0)\<lparr>si_write_err := Some (GoError [])\<rparr>"]
    by (auto simp: sample_in_def)
qed

interpretation client_group: worker_group "client_work cd pr" "client_work_inv pr"
  "\<lambda>sy. st_stop (cs_stream sy)" client_finished client_rank
  for cd :: codec and pr :: "'r prom"
proof unfold_locales
  fix s t
  assume "client_work_inv pr s" "client_work cd pr s t"
  then show "client_work_inv pr t"
    using client_step_inv [of cd pr s t] dummy_pos_step [of cd pr s t]
    by (auto simp: client_work_inv_def client_work_def)
next
  fix s t
  assume *: "client_work_inv pr s" "st_stop (cs_stream s)" "client_work cd pr s t"
  then have "same_run s t"
    using client_step_inv [of cd pr s t]
    by (auto simp: client_work_inv_def client_work_def)
  then show "st_stop (cs_stream t)" using *(2) by (simp add: same_run_def)
next
  fix s t
  assume *: "client_work_inv pr s" "st_stop (cs_stream s)" "client_work cd pr s t"
  then have "client_step cd pr s t" "client_inv s" "dummy_pos s"
    by (auto simp: client_work_inv_def client_work_def)
  then show "client_rank t < client_rank s"
    using *(2) by (cases rule: client_step.cases)
      (auto intro: client_reader_rank client_timeouts_rank client_sender_rank)
next
  fix s
  assume "client_work_inv pr s" "\<And>t. \<not> client_work cd pr s t"
  then show "client_finished s"
    using client_stuck_finished [of s cd pr]
    by (auto simp: client_work_inv_def client_work_def)
qed


text \<open>A stream asked to stop while it is about to write a packet.\<close>

definition sample_stopping :: "desc list client_sys" where
  "sample_stopping =
     (case teardown_begin list_prom (cs_stream sample_sent, cs_registry sample_sent) of
        Inr (s, reg) \<Rightarrow> sample_sent\<lparr>cs_stream := s, cs_registry := reg\<rparr>)"

lemma sample_stopping_reachable:
  "client_reachable bit_codec list_prom sample_stopping \<and> st_stop (cs_stream sample_stopping)"
proof -
  have tns: "st_traffic_not_started sample_stream \<noteq> None" and con: "st_connection sample_stream \<noteq> None"
    using setup_connection_ok(3,4) [OF sample_setup_connection]
      new_stream_fresh [OF sample_new_stream] by auto
  have 4: "st_traffic_not_started sample_stream4 = st_traffic_not_started sample_stream"
    "st_connection sample_stream4 = st_connection sample_stream"
    by (simp_all add: sample_stream4_def sample_stream3_def sample_stream2_def sample_stream1_def
        set_pending_def)
  obtain s reg where t: "teardown_begin list_prom (cs_stream sample_sent, cs_registry sample_sent) =
      Inr (s, reg)" "st_stop s"
    using tns con 4 by (auto simp: teardown_begin_def sample_sent_def Let_def)
  then have e: "sample_stopping = sample_sent\<lparr>cs_stream := s, cs_registry := reg\<rparr>"
    by (simp add: sample_stopping_def)
  show ?thesis
    unfolding e using client_reachable.teardown [OF sample_sent_reachable t(1)] t(2) by simp
qed


end
