(* ===== verification/TgenWire.thy ===== *)
theory TgenWire
  imports TgenShutdown
begin

section \<open>What the sender puts on the wire\<close>

text \<open>
  \<open>StartPackets\<close> builds one packet buffer and overwrites its front with each new message.
  With a fixed-length encoding every packet starts with the encoding of its own message and
  has the length the message announces.
\<close>

definition on_wire :: "send_pc \<Rightarrow> bool" where
  "on_wire pc \<longleftrightarrow> (case pc of SndStore _ \<Rightarrow> True | SndWrite _ \<Rightarrow> True | _ \<Rightarrow> False)"

definition wire_inv :: "codec \<Rightarrow> nat \<Rightarrow> 'r client_sys \<Rightarrow> bool" where
  "wire_inv cd n sy \<longleftrightarrow>
     (let d = cs_sender sy; s = cs_stream sy; m = sd_base_msg d in
      st_msg_header_length s = word_of_nat n \<and>
      (sd_pc d \<noteq> SndInit \<and> sd_pc d \<noteq> SndDone \<longrightarrow>
         n \<le> length (sd_base_bytes d) \<and>
         (int n \<le> sint (msg_len m) \<longrightarrow> int (length (sd_base_bytes d)) = sint (msg_len m))) \<and>
      (on_wire (sd_pc d) \<longrightarrow>
         marshal_msg cd m = Inr (take n (sd_base_bytes d)) \<and>
         sequence_number m = st_packet_sequence s))"

lemma send_init_wire:
  assumes "send_init cd conf (word_of_nat n) now d = Inr (Some d')" and "codec_fixed_length cd n"
    and "int n \<le> maxInt64"
  shows "sd_pc d' = SndDummyInit" "n \<le> length (sd_base_bytes d')"
    "int n \<le> sint (msg_len (sd_base_msg d')) \<Longrightarrow>
       int (length (sd_base_bytes d')) = sint (msg_len (sd_base_msg d'))"
proof -
  let ?m = "new_message 0 0 (packet_size conf)"
  obtain payload bs where p: "get_padding_payload (payload_size conf (word_of_nat n)) = Inr payload"
    and bs: "marshal_msg cd ?m = Inr bs" and d': "sd_base_bytes d' = bs @ payload"
    "sd_base_msg d' = ?m" "sd_pc d' = SndDummyInit"
    using assms(1) by (auto simp: send_init_def bindS_def Let_def split: sum.splits)
  have n: "length bs = n" using codec_fixed_lengthD [OF assms(2) bs] .
  show "sd_pc d' = SndDummyInit" "n \<le> length (sd_base_bytes d')" using d' n by simp_all
  show "int (length (sd_base_bytes d')) = sint (msg_len (sd_base_msg d'))"
    if "int n \<le> sint (msg_len (sd_base_msg d'))"
  proof -
    have ge: "int n \<le> sint (packet_size conf)" using that d' by (simp add: new_message_def)
    have "sint (packet_size conf - word_of_nat n) = sint (packet_size conf) - int n"
      using ge assms(3) sint64_bounds(2) [of "packet_size conf"]
      by (subst sint64_diff) (simp_all add: sint64_of_nat minInt64_def)
    then have "payload_size conf (word_of_nat n) = packet_size conf - word_of_nat n"
      and sz: "sint (payload_size conf (word_of_nat n)) = sint (packet_size conf) - int n"
      using ge by (simp_all add: payload_size_def Let_def word_sless_alt)
    have "length payload = nat (sint (packet_size conf) - int n)"
      using p ge sz by (auto simp: get_padding_payload_def split: if_splits)
    then show ?thesis using d' n ge by (simp add: new_message_def)
  qed
qed

lemma wire_stream:
  assumes "wire_inv cd n sy" and "st_msg_header_length s = st_msg_header_length (cs_stream sy)"
    and "st_packet_sequence s = st_packet_sequence (cs_stream sy)"
  shows "wire_inv cd n (sy\<lparr>cs_stream := s\<rparr>)"
  using assms by (simp add: wire_inv_def Let_def)

lemma wire_other_parts [simp]:
  "wire_inv cd n (sy\<lparr>cs_scanner := t\<rparr>) = wire_inv cd n sy"
  "wire_inv cd n (sy\<lparr>cs_registry := r\<rparr>) = wire_inv cd n sy"
  "wire_inv cd n (sy\<lparr>cs_buffer := b\<rparr>) = wire_inv cd n sy"
  "wire_inv cd n (sy\<lparr>cs_reader := pc\<rparr>) = wire_inv cd n sy"
  "wire_inv cd n (sy\<lparr>cs_panic := p\<rparr>) = wire_inv cd n sy"
  "wire_inv cd n (sy\<lparr>cs_written := w\<rparr>) = wire_inv cd n sy"
  "wire_inv cd n (sy\<lparr>cs_conf := c\<rparr>) = wire_inv cd n sy"
  by (simp_all add: wire_inv_def Let_def)

lemma wire_send:
  assumes "wire_inv cd n sy" and "sd_pc (cs_sender sy) \<noteq> SndInit" and "sd_pc (cs_sender sy) \<noteq> SndDone"
    and "\<not> on_wire (sd_pc d)" and "sd_base_msg d = sd_base_msg (cs_sender sy)"
    and "sd_base_bytes d = sd_base_bytes (cs_sender sy)"
    and "st_msg_header_length s = st_msg_header_length (cs_stream sy)"
  shows "wire_inv cd n (put_send (d, s) sy)"
  using assms by (simp add: wire_inv_def Let_def put_send_def)

lemma send_burst_wire:
  assumes "wire_inv cd n sy" and "sd_pc (cs_sender sy) = SndBurst k" and "codec_fixed_length cd n"
    and "send_burst cd k now (cs_sender sy, cs_stream sy) = (d, s)"
  shows "wire_inv cd n (put_send (d, s) sy)"
proof (cases "st_packet_sequence (cs_stream sy) <s k")
  case False
  then show ?thesis
    using assms by (intro wire_send) (auto simp: send_burst_def on_wire_def)
next
  case True
  let ?m = "(sd_base_msg (cs_sender sy))\<lparr>sequence_number := st_packet_sequence (cs_stream sy) + 1,
      send_time_stamp := now\<rparr>"
  obtain bs where bs: "marshal_msg cd ?m = Inr bs" "length bs = n"
    using assms(3) by (rule codec_fixed_lengthE)
  have len: "n \<le> length (sd_base_bytes (cs_sender sy))"
    using assms(1,2) by (simp add: wire_inv_def Let_def)
  have d: "d = (cs_sender sy)\<lparr>sd_base_msg := ?m,
      sd_base_bytes := go_copy (sd_base_bytes (cs_sender sy)) bs, sd_pc := SndStore k\<rparr>"
    and s: "s = (cs_stream sy)\<lparr>st_packet_sequence := st_packet_sequence (cs_stream sy) + 1\<rparr>"
    using assms(4) True bs(1) by (auto simp: send_burst_def Let_def)
  have t: "take n (go_copy (sd_base_bytes (cs_sender sy)) bs) = bs"
    using bs(2) len by (simp add: go_copy_fits)
  then show ?thesis
    using assms(1,2) len bs t by (auto simp: wire_inv_def Let_def put_send_def d s)
qed

lemma client_done_wire:
  assumes "wire_inv cd n sy" and "\<And>sy. wire_inv cd n sy \<Longrightarrow> wire_inv cd n (upd sy)"
  shows "wire_inv cd n (client_done upd sy)"
proof -
  have "wire_inv cd n (sy\<lparr>cs_stream := (cs_stream sy)\<lparr>st_is_stopped := w\<rparr>\<rparr>)" for w
    using assms(1) by (rule wire_stream) simp_all
  then show ?thesis using assms by (simp add: client_done_def split: sum.splits)
qed

lemma wire_at_done: "wire_inv cd n sy \<Longrightarrow> wire_inv cd n (at_send SndDone sy)"
  by (simp add: wire_inv_def Let_def at_send_def on_wire_def)

lemma reader_wire:
  assumes "wire_inv cd n sy"
  shows "wire_inv cd n (socket_read_step cd pr now rd sy)"
proof (cases "cs_reader sy")
  case RdHead
  then show ?thesis using assms by (simp add: socket_read_step_def client_done_wire)
next
  case RdBody
  show ?thesis
  proof (cases "client_handle cd pr now rd (cs_buffer sy) (cs_stream sy, cs_registry sy)")
    case (Inr res)
    obtain buf s reg where res: "res = (buf, s, reg)" by (cases res)
    have "wire_inv cd n (sy\<lparr>cs_stream := s\<rparr>)"
      using client_handle_sequence [OF Inr [unfolded res]] assms by (intro wire_stream) simp_all
    then show ?thesis
      using RdBody Inr res by (simp add: socket_read_step_def wire_inv_def Let_def)
  qed (use assms RdBody in \<open>simp add: socket_read_step_def\<close>)
qed (use assms in \<open>simp_all add: socket_read_step_def\<close>)

lemma timeouts_wire:
  assumes "wire_inv cd n sy"
  shows "wire_inv cd n (timeouts_step net now1 now2 sy)"
proof -
  have put: "wire_inv cd n (put_scan (t, s) sy)"
    if "st_msg_header_length s = st_msg_header_length (cs_stream sy)"
      "st_packet_sequence s = st_packet_sequence (cs_stream sy)" for t s
    using wire_stream [OF assms that] by (simp add: put_scan_def wire_inv_def Let_def)
  have at: "wire_inv cd n (at_scan pc sy)" for pc using assms by (simp add: at_scan_def)
  have fin: "wire_inv cd n (client_done (at_scan TimDone) sy)"
    using assms by (intro client_done_wire) (simp_all add: at_scan_def)
  show ?thesis
  proof (cases "tm_pc (cs_scanner sy)")
    case TimLookup
    obtain t s where r: "scan_lookup now1 now2 (cs_scanner sy, cs_stream sy) = (t, s)" by fastforce
    then have "s = cs_stream sy \<or> (\<exists>k. s = count_dropped k (cs_stream sy))"
      by (auto simp: scan_lookup_def Let_def split: option.splits if_splits)
    then show ?thesis
      using TimLookup r put [of s t]
      by (auto simp: timeouts_step_def Let_def count_dropped_def set_pending_def)
  next
    case TimRedial
    obtain t s where r: "scan_redial net (cs_conf sy) now1 (cs_scanner sy, cs_stream sy) = (t, s)"
      by fastforce
    then have core: "core s = core (cs_stream sy)"
      by (auto simp: scan_redial_def Let_def dest: redial_core split: if_splits prod.splits)
    show ?thesis
      using TimRedial r put [OF core_fields(6,3) [OF core]] by (simp add: timeouts_step_def Let_def)
  qed (use assms put at fin in \<open>simp_all add: timeouts_step_def Let_def\<close>)
qed

lemma sender_wire:
  fixes sy :: "'r client_sys"
  assumes "wire_inv cd n sy" and "codec_fixed_length cd n" and "int n \<le> maxInt64"
  shows "wire_inv cd n (start_packets_step cd i sy)"
proof -
  let ?d = "cs_sender sy" and ?s = "cs_stream sy"
  have hl: "st_msg_header_length ?s = word_of_nat n" using assms(1) by (simp add: wire_inv_def Let_def)
  have fin: "wire_inv cd n (client_done (at_send SndDone) sy)"
    using assms(1) wire_at_done by (intro client_done_wire)
  note step = start_packets_step_def Let_def
  note send = wire_send [OF assms(1)]
  show ?thesis
  proof (cases "sd_pc ?d")
    case SndInit
    show ?thesis
    proof (cases "send_init cd (cs_conf sy) (st_msg_header_length ?s) (si_now1 i) ?d")
      case (Inl p)
      then show ?thesis using SndInit assms(1) by (simp add: step)
    next
      case (Inr r)
      show ?thesis
      proof (cases r)
        case None
        have "wire_inv cd n (at_send SndDone (sy'\<lparr>cs_stream := not_started (cs_stream sy')\<rparr>))"
          if "wire_inv cd n sy'" for sy' :: "'r client_sys"
          by (intro wire_at_done wire_stream [OF that]) (simp_all add: not_started_def)
        then show ?thesis
          using SndInit Inr None client_done_wire [OF assms(1)] by (simp add: step)
      next
        case (Some d')
        then have "send_init cd (cs_conf sy) (word_of_nat n) (si_now1 i) ?d = Inr (Some d')"
          using Inr hl by simp
        then show ?thesis
          using SndInit Inr Some send_init_wire [OF _ assms(2,3)] hl
          by (simp add: step put_send_def wire_inv_def on_wire_def)
      qed
    qed
  next
    case SndDummyInit
    have "sd_base_msg (dummy_init cd conf now draw s d) = sd_base_msg d"
      "sd_base_bytes (dummy_init cd conf now draw s d) = sd_base_bytes d"
      "\<not> on_wire (sd_pc (dummy_init cd conf now draw s d))" for conf now draw s d
      by (simp_all add: dummy_init_def on_wire_def split: sum.splits)
    then show ?thesis using SndDummyInit send by (simp add: step)
  next
    case (SndDummy k)
    obtain d s where r: "dummy_packet (si_net i) (cs_conf sy) (si_write_err i) k (?d, ?s) = (d, s)"
      by fastforce
    have "sd_base_msg d = sd_base_msg ?d" "sd_base_bytes d = sd_base_bytes ?d" "\<not> on_wire (sd_pc d)"
      using r by (auto simp: dummy_packet_def on_wire_def split: if_splits prod.splits)
    moreover have "st_msg_header_length s = st_msg_header_length ?s"
      using dummy_packet_ok [OF r] core_fields(6) by blast
    ultimately have "wire_inv cd n (put_send (d, s) sy)" using SndDummy send [of d s] by simp
    then show ?thesis
      using SndDummy r by (simp add: step put_send_def wire_inv_def)
  next
    case SndHead
    then show ?thesis
      using assms(1) fin by (simp add: step at_send_def wire_inv_def on_wire_def)
  next
    case SndPace
    have "sd_base_msg (send_pace conf now1 now2 d) = sd_base_msg d"
      "sd_base_bytes (send_pace conf now1 now2 d) = sd_base_bytes d"
      "\<not> on_wire (sd_pc (send_pace conf now1 now2 d))" for conf now1 now2 d
      by (simp_all add: send_pace_def on_wire_def)
    then show ?thesis using SndPace send by (simp add: step)
  next
    case (SndBurst k)
    obtain d s where r: "send_burst cd k (si_now1 i) (?d, ?s) = (d, s)" by fastforce
    then show ?thesis using send_burst_wire [OF assms(1) SndBurst assms(2) r] SndBurst by (simp add: step)
  next
    case (SndStore k)
    then show ?thesis
      using assms(1)
      by (simp add: step send_store_def put_send_def wire_inv_def on_wire_def set_pending_def)
  next
    case (SndUnstore k)
    then show ?thesis
      using assms(1)
      by (simp add: step send_unstore_def put_send_def wire_inv_def on_wire_def set_pending_def)
  qed (use assms(1) in \<open>simp_all add: step at_send_def wire_inv_def on_wire_def\<close>)
qed

lemma client_reachable_wire:
  assumes "client_reachable cd pr sy" and "codec_fixed_length cd n" and "int n \<le> maxInt64"
  shows "wire_inv cd n sy"
  using assms(1)
proof (induction rule: client_reachable.induct)
  case (start p m s net conf0 reg0 s' reg conf)
  have "st_msg_header_length s = word_of_nat n"
    using new_stream_fresh [OF start(1)] header_length_fixed [OF assms(2)] by simp
  moreover have "fresh_stream s" using new_stream_fresh [OF start(1)] by simp
  ultimately show ?case
    using setup_connection_ok(11) [OF start(3)]
    by (simp add: client_start_def wire_inv_def new_sender_def on_wire_def)
next
  case (work sy sy')
  from work(2) show ?case
    by (cases rule: client_step.cases)
      (use work(3) reader_wire timeouts_wire sender_wire assms(2,3) in blast)+
next
  case (environment sy conf reg)
  then show ?case by simp
next
  case (teardown sy s reg)
  have "st_msg_header_length s = st_msg_header_length (cs_stream sy) \<and>
      st_packet_sequence s = st_packet_sequence (cs_stream sy)"
    using teardown(2) by (auto simp: teardown_begin_def Let_def split: option.splits if_splits)
  then have "wire_inv cd n (sy\<lparr>cs_stream := s\<rparr>)" using wire_stream [OF teardown(3)] by blast
  then show ?case by (simp add: wire_inv_def)
qed



end
