(* ===== verification/TgenTimeouts.thy ===== *)
theory TgenTimeouts
  imports TgenShutdown
begin

section \<open>What a timeout scan drops, and a stream that cannot recover\<close>

subsection \<open>One scan, undisturbed\<close>

text \<open>
  \<open>HandleTimeouts\<close> between two sleeps with no other goroutine in between, for a
  destination given by its address: it passes every number up to the last one or to the
  first packet that is pending and not yet timed out, and drops what was pending on the way.
\<close>

definition expired :: "int64 \<Rightarrow> scanner \<Rightarrow> stream \<Rightarrow> int64 \<Rightarrow> bool" where
  "expired now t s k \<longleftrightarrow> (\<exists>ts. pending s k = Some ts \<and> packet_timed_out now ts t)"

definition passed :: "int64 \<Rightarrow> int64 \<Rightarrow> int64 set" where
  "passed a b = {k. sint a \<le> sint k \<and> sint k < sint b}"

definition scanned :: "int64 \<Rightarrow> scanner \<times> stream \<Rightarrow> scanner \<times> stream \<Rightarrow> bool" where
  "scanned now ts ts' \<longleftrightarrow>
     (let (t, s) = ts; (t', s') = ts'; gone = passed (tm_seq t) (tm_seq t') \<inter> dom (pending s) in
      sint (tm_seq t) \<le> sint (tm_seq t') \<and>
      (\<forall>k \<in> gone. expired now t s k) \<and>
      (\<forall>k. pending s' k = (if k \<in> gone then None else pending s k)) \<and>
      st_packet_dropped_val s' = st_packet_dropped_val s + int (card gone) \<and>
      (sint (st_packet_sequence s) \<le> sint (tm_seq t') \<or>
       (tm_seq t' \<in> dom (pending s) \<and> \<not> expired now t s (tm_seq t'))) \<and>
      st_packet_sequence s' = st_packet_sequence s \<and>
      st_packet_received_val s' = st_packet_received_val s \<and>
      st_packet_sent_val s' = st_packet_sent_val s)"

lemma passed_empty [simp]: "passed a a = {}"
  by (auto simp: passed_def)

lemma passed_step:
  assumes "a <s b" and "sint (a + 1) \<le> sint c"
  shows "passed a c = insert a (passed (a + 1) c)" "a \<notin> passed (a + 1) c"
proof -
  have "sint (a + 1) = sint a + 1" using sint64_Suc_less [OF assms(1)] by simp
  moreover have "sint a \<le> sint k \<longleftrightarrow> k = a \<or> sint a + 1 \<le> sint k" for k
    using sint64_eq_iff [of a k] by auto
  ultimately show "passed a c = insert a (passed (a + 1) c)" "a \<notin> passed (a + 1) c"
    using assms(2) by (auto simp: passed_def)
qed

lemma finite_passed [simp]: "finite (passed a b)"
  by simp

lemma scanned_refl:
  assumes "sint (st_packet_sequence s) \<le> sint (tm_seq t) \<or>
      (tm_seq t \<in> dom (pending s) \<and> \<not> expired now t s (tm_seq t))"
    and "tm_seq t' = tm_seq t"
  shows "scanned now (t, s) (t', s)"
  using assms by (auto simp: scanned_def Let_def)

definition same_limits :: "scanner \<Rightarrow> scanner \<Rightarrow> bool" where
  "same_limits t t' \<longleftrightarrow> tm_packet_timeout_micros t = tm_packet_timeout_micros t'"

lemma scanned_skip:
  assumes "scanned now (t1, s) (t', s')" and "pending s (tm_seq t) = None"
    and "tm_seq t <s st_packet_sequence s" and "tm_seq t1 = tm_seq t + 1" and "same_limits t t1"
  shows "scanned now (t, s) (t', s')"
proof -
  have le: "sint (tm_seq t + 1) \<le> sint (tm_seq t')"
    using assms(1,4) by (simp add: scanned_def Let_def)
  have "sint (tm_seq t + 1) = sint (tm_seq t) + 1" using sint64_Suc_less [OF assms(3)] by simp
  then have le': "sint (tm_seq t) \<le> sint (tm_seq t')" using le by simp
  have g: "passed (tm_seq t) (tm_seq t') \<inter> dom (pending s) =
      passed (tm_seq t + 1) (tm_seq t') \<inter> dom (pending s)"
    using passed_step(1) [OF assms(3) le] assms(2) by auto
  have ex: "expired now t1 s k = expired now t s k" for k
    using assms(5) by (simp add: expired_def packet_timed_out_def same_limits_def)
  show ?thesis
    using assms(1) le' unfolding scanned_def Let_def prod.case assms(4) g ex by blast
qed

lemma scanned_drop:
  assumes "scanned now (t1, count_dropped (tm_seq t) s) (t', s')"
    and "expired now t s (tm_seq t)"
    and "tm_seq t <s st_packet_sequence s" and "tm_seq t1 = tm_seq t + 1" and "same_limits t t1"
  shows "scanned now (t, s) (t', s')"
proof -
  let ?q = "tm_seq t" and ?s = "count_dropped (tm_seq t) s"
  have f: "pending ?s = (pending s)(?q := None)" "st_packet_dropped_val ?s = st_packet_dropped_val s + 1"
    "st_packet_sequence ?s = st_packet_sequence s" "st_packet_received_val ?s = st_packet_received_val s"
    "st_packet_sent_val ?s = st_packet_sent_val s"
    by (simp_all add: count_dropped_def pending_def set_pending_def)
  have le: "sint (?q + 1) \<le> sint (tm_seq t')"
    using assms(1,4) by (simp add: scanned_def Let_def)
  have sq: "sint (?q + 1) = sint ?q + 1" using sint64_Suc_less [OF assms(3)] by simp
  have q: "?q \<in> dom (pending s)" using assms(2) by (auto simp: expired_def)
  let ?g = "passed ?q (tm_seq t') \<inter> dom (pending s)"
  let ?g1 = "passed (?q + 1) (tm_seq t') \<inter> dom (pending ?s)"
  have g: "?g = insert ?q ?g1" "?q \<notin> ?g1"
    using passed_step [OF assms(3) le] q by (auto simp: f(1))
  have ne: "tm_seq t' \<noteq> ?q" using le sq by auto
  have ex: "expired now t1 ?s k \<longleftrightarrow> k \<noteq> ?q \<and> expired now t s k" for k
    using assms(5) by (auto simp: expired_def f(1) packet_timed_out_def same_limits_def)
  have card: "card ?g = Suc (card ?g1)" using g by simp
  note S = assms(1) [unfolded scanned_def Let_def prod.case assms(4)]
  show ?thesis
    unfolding scanned_def Let_def prod.case
  proof (intro conjI)
    show "sint ?q \<le> sint (tm_seq t')" using le sq by simp
    show "\<forall>k \<in> ?g. expired now t s k"
      using S ex assms(2) g(1) by auto
    show "\<forall>k. pending s' k = (if k \<in> ?g then None else pending s k)"
    proof
      fix k
      have "pending s' k = (if k \<in> ?g1 then None else pending ?s k)" using S by blast
      then show "pending s' k = (if k \<in> ?g then None else pending s k)"
        using g by (auto simp: f(1))
    qed
    show "st_packet_dropped_val s' = st_packet_dropped_val s + int (card ?g)"
      using S f(2) card by simp
    show "sint (st_packet_sequence s) \<le> sint (tm_seq t') \<or>
        (tm_seq t' \<in> dom (pending s) \<and> \<not> expired now t s (tm_seq t'))"
      using S ex ne by (auto simp: f)
  qed (use S f in simp_all)
qed

text \<open>The steps of an undisturbed scan.\<close>

definition scan_run :: "client_net \<Rightarrow> int64 \<Rightarrow> nat \<Rightarrow> 'r client_sys \<Rightarrow> 'r client_sys" where
  "scan_run net now n = (timeouts_step net now now) ^^ n"

lemma scan_run_Suc:
  "scan_run net now (Suc n) sy = scan_run net now n (timeouts_step net now now sy)"
  unfolding scan_run_def by (simp only: funpow_Suc_right o_apply)

definition at_head :: "'r client_sys \<Rightarrow> 'r client_sys \<Rightarrow> int64 \<Rightarrow> bool" where
  "at_head sy sy' now \<longleftrightarrow> tm_pc (cs_scanner sy') = TimHead \<and>
     scanned now (cs_scanner sy, cs_stream sy) (cs_scanner sy', cs_stream sy')"

lemma scan_reaches_head:
  assumes "tm_pc (cs_scanner sy) = TimScan" and "\<not> st_stop (cs_stream sy)"
    and "\<not> rem_is_dn (bp_destination (st_pair (cs_stream sy)))"
  shows "\<exists>n. at_head sy (scan_run net now n sy) now"
  using assms
proof (induction "nat (sint (st_packet_sequence (cs_stream sy)) - sint (tm_seq (cs_scanner sy)))"
    arbitrary: sy rule: less_induct)
  case less
  let ?t = "cs_scanner sy" and ?s = "cs_stream sy"
  let ?step = "timeouts_step net now now"
  have run: "\<exists>n. at_head sy (scan_run net now n sy) now"
    if "at_head sy (scan_run net now k ((?step ^^ j) sy)) now" for j k
  proof -
    have "scan_run net now k ((?step ^^ j) sy) = scan_run net now (k + j) sy"
      by (simp add: scan_run_def funpow_add)
    then show ?thesis using that by metis
  qed
  show ?case
  proof (cases "tm_seq ?t <s st_packet_sequence ?s")
    case False
    then have "?step sy = at_scan TimHead sy"
      using less.prems by (simp add: timeouts_step_def Let_def)
    moreover have "scanned now (?t, ?s) (?t\<lparr>tm_pc := TimHead\<rparr>, ?s)"
      using False by (intro scanned_refl) (auto simp: word_sless_alt)
    ultimately have "at_head sy (scan_run net now 0 ((?step ^^ 1) sy)) now"
      by (simp add: scan_run_def at_head_def at_scan_def)
    then show ?thesis by (rule run)
  next
    case more: True
    let ?l = "at_scan TimLookup sy"
    have 1: "?step sy = ?l" using more less.prems by (simp add: timeouts_step_def Let_def)
    have 2: "?step ?l = put_scan (scan_lookup now now (?t\<lparr>tm_pc := TimLookup\<rparr>, ?s)) ?l"
      by (simp add: timeouts_step_def at_scan_def Let_def)
    have Suc: "sint (tm_seq ?t + 1) = sint (tm_seq ?t) + 1" using sint64_Suc_less [OF more] by simp
    have lt: "sint (tm_seq ?t) < sint (st_packet_sequence ?s)" using more by (simp add: word_sless_alt)
    show ?thesis
    proof (cases "pending ?s (tm_seq ?t)")
      case None
      let ?lk = "?t\<lparr>tm_pc := TimLookup\<rparr>"
      obtain t2 where t2: "scan_lookup now now (?lk, ?s) = (t2, ?s)" "tm_seq t2 = tm_seq ?t + 1"
        "same_limits ?t t2"
        "tm_pc t2 = (if tm_seq ?t + 1 = st_packet_sequence ?s then TimHead else TimScan)"
        using None by (simp add: scan_lookup_def pending_def Let_def same_limits_def)
      let ?sy2 = "put_scan (t2, ?s) ?l"
      have sy2: "(?step ^^ 2) sy = ?sy2"
        using 1 2 t2(1) by (simp add: numeral_2_eq_2)
      have f2: "cs_scanner ?sy2 = t2" "cs_stream ?sy2 = ?s" by (simp_all add: put_scan_def)
      show ?thesis
      proof (cases "tm_seq ?t + 1 = st_packet_sequence ?s")
        case True
        have "scanned now (t2, ?s) (t2, ?s)" using True t2(2) by (intro scanned_refl) simp_all
        then have "scanned now (?t, ?s) (t2, ?s)"
          using scanned_skip [OF _ None more t2(2,3)] by blast
        then have "at_head sy (scan_run net now 0 ((?step ^^ 2) sy)) now"
          using True t2(4) by (simp add: scan_run_def at_head_def sy2 f2)
        then show ?thesis by (rule run)
      next
        case False
        obtain n where "at_head ?sy2 (scan_run net now n ?sy2) now"
          using less.hyps [of ?sy2] False t2 f2 Suc lt less.prems by auto
        then have "at_head sy (scan_run net now n ((?step ^^ 2) sy)) now"
          using scanned_skip [OF _ None more t2(2,3)] by (simp add: at_head_def sy2 f2)
        then show ?thesis by (rule run)
      qed
    next
      case (Some sent)
      let ?lk = "?t\<lparr>tm_pc := TimLookup\<rparr>"
      show ?thesis
      proof (cases "packet_timed_out now sent ?t")
        case False
        let ?t2 = "?lk\<lparr>tm_pc := TimHead\<rparr>"
        have "scan_lookup now now (?lk, ?s) = (?t2, ?s)"
          using Some False by (simp add: scan_lookup_def pending_def Let_def packet_timed_out_def)
        then have sy2: "(?step ^^ 2) sy = put_scan (?t2, ?s) ?l"
          using 1 2 by (simp add: numeral_2_eq_2)
        have "scanned now (?t, ?s) (?t2, ?s)"
          using Some False by (intro scanned_refl) (auto simp: expired_def)
        then have "at_head sy (scan_run net now 0 ((?step ^^ 2) sy)) now"
          by (simp add: scan_run_def at_head_def sy2 put_scan_def)
        then show ?thesis by (rule run)
      next
        case timed: True
        let ?s2 = "count_dropped (tm_seq ?t) ?s"
        let ?t2 = "(note_timeout now (?lk\<lparr>tm_seq := tm_seq ?t + 1\<rparr>))\<lparr>tm_pc := TimRedial\<rparr>"
        let ?t3 = "?t2\<lparr>tm_pc := TimScan\<rparr>"
        have look: "scan_lookup now now (?lk, ?s) = (?t2, ?s2)"
          using Some timed by (simp add: scan_lookup_def pending_def Let_def packet_timed_out_def)
        have dn: "\<not> rem_is_dn (bp_destination (st_pair ?s2))" and st: "\<not> st_stop ?s2"
          and q: "st_packet_sequence ?s2 = st_packet_sequence ?s"
          using less.prems by (simp_all add: count_dropped_def set_pending_def)
        let ?sy3 = "put_scan (?t3, ?s2) ?l"
        have "?step (put_scan (?t2, ?s2) ?l) = ?sy3"
          using dn by (simp add: timeouts_step_def Let_def put_scan_def scan_redial_def redial_due_def)
        then have sy3: "(?step ^^ 3) sy = ?sy3"
          using 1 2 look by (simp add: numeral_3_eq_3)
        have f3: "cs_scanner ?sy3 = ?t3" "cs_stream ?sy3 = ?s2" by (simp_all add: put_scan_def)
        have t3: "tm_seq ?t3 = tm_seq ?t + 1" "same_limits ?t ?t3"
          by (simp_all add: same_limits_def note_timeout_def)
        have e: "expired now ?t ?s (tm_seq ?t)" using Some timed by (auto simp: expired_def)
        obtain n where "at_head ?sy3 (scan_run net now n ?sy3) now"
          using less.hyps [of ?sy3] f3 t3(1) q dn st Suc lt by auto
        then have "at_head sy (scan_run net now n ((?step ^^ 3) sy)) now"
          using scanned_drop [OF _ e more t3] by (simp only: at_head_def sy3 f3)
        then show ?thesis by (rule run)
      qed
    qed
  qed
qed


definition sample_scanning :: "desc list client_sys" where
  "sample_scanning = sample_start
     \<lparr>cs_scanner := (scan_init sample_conf new_scanner)\<lparr>tm_pc := TimScan\<rparr>,
      cs_stream := set_destination (\<lambda>d. d\<lparr>rem_is_dn := False\<rparr>)
        (sample_stream4\<lparr>st_packet_sequence := 2\<rparr>)\<rparr>"


subsection \<open>A stream cut off by a failed redial\<close>

text \<open>
  The redial closes the old socket before it dials the new address.  Once a dial has failed
  and nothing is pending any more, every write fails, no packet stays pending, so the scan
  finds nothing to drop and never redials again.
\<close>

definition idle_pc :: "send_pc \<Rightarrow> bool" where
  "idle_pc pc \<longleftrightarrow> (case pc of SndHead \<Rightarrow> True | SndPace \<Rightarrow> True | SndBurst _ \<Rightarrow> True | SndDone \<Rightarrow> True
     | SndFailInc _ \<Rightarrow> True | SndFailVal _ \<Rightarrow> True | SndStore _ \<Rightarrow> True | _ \<Rightarrow> False)"

definition taking_back :: "send_pc \<Rightarrow> bool" where
  "taking_back pc \<longleftrightarrow> (case pc of SndWrite _ \<Rightarrow> True | SndUnstore _ \<Rightarrow> True | _ \<Rightarrow> False)"

definition cut_off :: "'r client_sys \<Rightarrow> bool" where
  "cut_off sy \<longleftrightarrow>
     (let s = cs_stream sy; pc = sd_pc (cs_sender sy); t = cs_scanner sy in
      \<not> socket_open s \<and> (idle_pc pc \<or> taking_back pc) \<and>
      (\<forall>k v. pending s k = Some v \<longrightarrow> taking_back pc \<and> k = st_packet_sequence s) \<and>
      tm_pc t \<noteq> TimRedial \<and> (tm_pc t = TimLookup \<longrightarrow> tm_seq t <s st_packet_sequence s))"

definition same_traffic :: "stream \<Rightarrow> stream \<Rightarrow> bool" where
  "same_traffic s s' \<longleftrightarrow> st_packet_sent_val s' = st_packet_sent_val s \<and>
     st_packet_received_val s' = st_packet_received_val s \<and>
     st_packet_dropped_val s' = st_packet_dropped_val s"

lemma same_traffic_refl [simp]: "same_traffic s s"
  by (simp add: same_traffic_def)

lemma stream_flag_simps [simp]:
  "socket_open (s\<lparr>st_is_stopped := w\<rparr>) = socket_open s"
  "pending (s\<lparr>st_is_stopped := w\<rparr>) = pending s"
  "same_traffic s (s\<lparr>st_is_stopped := w\<rparr>)"
  "socket_open (s\<lparr>st_packet_sequence := q\<rparr>) = socket_open s"
  "pending (s\<lparr>st_packet_sequence := q\<rparr>) = pending s"
  "same_traffic s (s\<lparr>st_packet_sequence := q\<rparr>)"
  "socket_open (set_pending f s) = socket_open s" "same_traffic s (set_pending f s)"
  "st_packet_sequence (set_pending f s) = st_packet_sequence s"
  by (simp_all add: socket_open_def pending_def same_traffic_def set_pending_def)

lemma cut_off_reader:
  assumes "cut_off sy" and "rd \<noteq> ReadFailed \<longrightarrow> socket_open (cs_stream sy)"
  shows "cut_off (socket_read_step cd pr now rd sy) \<and>
    same_traffic (cs_stream sy) (cs_stream (socket_read_step cd pr now rd sy))"
proof -
  have "rd = ReadFailed" using assms by (auto simp: cut_off_def Let_def)
  then show ?thesis
    using assms(1)
    by (simp add: socket_read_step_def client_handle_def client_done_def cut_off_def Let_def
        split: read_pc.splits sum.splits)
qed

lemma cut_off_timeouts:
  assumes "cut_off sy"
  shows "cut_off (timeouts_step net now1 now2 sy) \<and>
    same_traffic (cs_stream sy) (cs_stream (timeouts_step net now1 now2 sy))"
proof -
  note defs = timeouts_step_def cut_off_def Let_def put_scan_def at_scan_def
  show ?thesis
  proof (cases "tm_pc (cs_scanner sy)")
    case TimLookup
    then have "pending (cs_stream sy) (tm_seq (cs_scanner sy)) = None"
      using assms by (cases "pending (cs_stream sy) (tm_seq (cs_scanner sy))")
        (auto simp: cut_off_def Let_def)
    then show ?thesis
      using assms TimLookup by (simp add: defs scan_lookup_def) (simp add: pending_def)
  qed (use assms in \<open>simp_all add: defs scan_init_def client_done_def split: sum.splits\<close>)
qed

lemma cut_off_sender:
  assumes "cut_off sy" and "si_write_err i = None \<longrightarrow> socket_open (cs_stream sy)"
  shows "cut_off (start_packets_step cd i sy) \<and>
    same_traffic (cs_stream sy) (cs_stream (start_packets_step cd i sy))"
proof -
  let ?s = "cs_stream sy" and ?t = "cs_scanner sy"
  have c: "\<not> socket_open ?s" "tm_pc ?t \<noteq> TimRedial"
    "tm_pc ?t = TimLookup \<longrightarrow> tm_seq ?t <s st_packet_sequence ?s"
    "\<And>k v. pending ?s k = Some v \<Longrightarrow> taking_back (sd_pc (cs_sender sy)) \<and> k = st_packet_sequence ?s"
    using assms(1) by (auto simp: cut_off_def Let_def)
  have none: "pending ?s = Map.empty" if "\<not> taking_back (sd_pc (cs_sender sy))"
    using c(4) that by (intro ext) (metis not_Some_eq)
  have w: "\<exists>e. si_write_err i = Some e" using assms(2) c(1) by auto
  note defs = start_packets_step_def cut_off_def Let_def put_send_def at_send_def
    idle_pc_def taking_back_def
  show ?thesis
  proof (cases "sd_pc (cs_sender sy)")
    case (SndBurst n)
    then have none: "pending ?s = Map.empty" using none by (simp add: taking_back_def)
    show ?thesis
    proof (cases "st_packet_sequence ?s <s n")
      case True
      have "tm_seq ?t <s st_packet_sequence ?s \<Longrightarrow> tm_seq ?t <s st_packet_sequence ?s + 1"
        using sint64_Suc_less(1) [OF True] by (simp add: word_sless_alt)
      then show ?thesis
        using SndBurst True c(1-3) none
        by (auto simp: defs send_burst_def split: sum.splits)
    next
      case False
      then show ?thesis using SndBurst c(1-3) none by (auto simp: defs send_burst_def)
    qed
  next
    case (SndStore n)
    then have "pending ?s = Map.empty" using none by (simp add: taking_back_def)
    then show ?thesis using c(1-3) SndStore by (auto simp: defs send_store_def split: if_splits)
  next
    case (SndUnstore n)
    have "pending ?s k = None" if "k \<noteq> st_packet_sequence ?s" for k
      using c(4) that by (cases "pending ?s k") auto
    then show ?thesis
      using c(1-3) SndUnstore by (auto simp: defs send_unstore_def)
  next
    case (SndWrite n)
    then show ?thesis using c w by (auto simp: defs)
  next
    case SndPace
    then have "pending ?s = Map.empty" using none by (simp add: taking_back_def)
    then show ?thesis using c(1-3) SndPace by (auto simp: defs send_pace_def)
  next
    case SndHead
    then have "pending ?s = Map.empty" using none by (simp add: taking_back_def)
    then show ?thesis using c(1-3) SndHead by (auto simp: defs client_done_def split: sum.splits)
  qed (use assms(1) c in \<open>auto simp: defs same_traffic_def socket_open_def pending_def\<close>)
qed

lemma cut_off_run:
  "(client_step cd pr ^^ n) sy u \<Longrightarrow> cut_off sy \<Longrightarrow>
     cut_off u \<and> same_traffic (cs_stream sy) (cs_stream u)"
proof (induction n arbitrary: u)
  case 0
  then show ?case by simp
next
  case (Suc n)
  then obtain v where v: "client_step cd pr v u" "cut_off v"
    "same_traffic (cs_stream sy) (cs_stream v)" by auto
  have "cut_off u \<and> same_traffic (cs_stream v) (cs_stream u)"
    using v(1)
  proof (cases rule: client_step.cases)
    case (reader rd now)
    then show ?thesis using cut_off_reader [OF v(2)] by simp
  next
    case (timeouts net now1 now2)
    then show ?thesis using cut_off_timeouts [OF v(2)] by simp
  next
    case (sender i)
    then show ?thesis using cut_off_sender [OF v(2)] by simp
  qed
  then show ?case using v(3) by (simp add: same_traffic_def)
qed


definition broken_net :: client_net where
  "broken_net = sample_net\<lparr>cn_dial := \<lambda>_ _. Some (GoError ''network is unreachable'')\<rparr>"

definition sample_redialling :: "desc list client_sys" where
  "sample_redialling = sample_start
     \<lparr>cs_scanner := new_scanner\<lparr>tm_pc := TimRedial, tm_start_timeout := 1\<rparr>,
      cs_sender := sample_sender\<lparr>sd_pc := SndHead\<rparr>,
      cs_stream := set_destination (\<lambda>d. \<lparr>rem_is_dn = True, rem_name = ''svc'', rem_ip = ''10.0.0.2''\<rparr>)
        sample_stream\<rparr>"


end
