(* ===== verification/EndToEnd.thy ===== *)
theory EndToEnd
  imports TappSystem TgenWire TgenTimeouts
begin

section \<open>A packet's round trip between the client and the responder\<close>

text \<open>
  The two sides together: what the sender of a client stream writes, the responder answers
  (\<open>TappReply\<close>), and what it answers, the reader of the stream counts (\<open>TgenReplies\<close>).
\<close>

text \<open>The responder's answer has the form the client's reader decodes.\<close>

lemma server_reply_form:
  assumes "server_ready cd n s buf" and "carries cd m data buf"
    and "clients_wf s" and "add_panics_on_negative pr"
    and "reply_length n s m \<le> int (length buf)" and "marshal_pod cd info = Inr (sv_pod_info_bytes s)"
    and "n + length (sv_pod_info_bytes s) \<le> length cbuf"
  obtains buf' s' out where
    "server_handle cd pr now1 now2 (Datagram data ip) buf s = Inr (buf', s', Some (out, ip))"
    "reply_of cd (answered now1 s m) info out cbuf"
    "accounts_of s' = spec_arrival ip (sint (sequence_number m)) (accounts_of s)"
proof -
  obtain bs where bs: "marshal_msg cd (answered now1 s m) = Inr bs" "length bs = n"
    using assms(1) unfolding server_ready_def by (blast elim: codec_fixed_lengthE)
  obtain s' where s': "account_packet pr ip (sequence_number m) now2 s = Inr s'"
    "accounts_of s' = spec_arrival ip (sint (sequence_number m)) (accounts_of s)"
    using account_packet_refines [OF assms(3,4)] by blast
  let ?info = "sv_pod_info_bytes s" and ?l = "nat (reply_length n s m)"
  let ?out = "bs @ ?info @ drop (n + length ?info) (go_copy buf data)"
  have h: "server_handle cd pr now1 now2 (Datagram data ip) buf s = Inr (?out, s', Some (take ?l ?out, ip))"
    using server_handle_eval [OF assms(1,2) bs(1), where pr = pr] s'(1) assms(5) by (simp add: Let_def)
  have "n + length ?info \<le> ?l" using assms(5) by (simp add: reply_length_def)
  then have eq: "take ?l ?out = bs @ ?info @ take (?l - n - length ?info)
      (drop (n + length ?info) (go_copy buf data))"
    using bs(2) by simp
  have "reply_of cd (answered now1 s m) info (bs @ ?info @ rest) cbuf" for rest
    using bs assms(6,7) by (auto simp: reply_of_def answered_def)
  then have "reply_of cd (answered now1 s m) info (take ?l ?out) cbuf" by (simp only: eq)
  then show ?thesis using that h s'(2) by blast
qed


definition quiet_server :: udp_server where
  "quiet_server = sample_server\<lparr>sv_pod_info_bytes := encode_pod no_info\<rparr>"


end
