(* ===== verification/Interfaces.thy ===== *)
theory Interfaces
  imports Util
begin

section \<open>The interfaces of the pod (\<open>GetInterfaces\<close> and \<open>getEnv\<close> of \<open>pkg/util/util.go\<close>)\<close>

text \<open>
  The annotation file the downward API mounts, the environment of the process, and how the
  PCI addresses of the SR-IOV devices found there are joined with the interfaces the
  annotations name.  Of the structs of the network plumbing library the model has the
  fields the code reads or writes; the library's constants and its two annotation readers
  (\<open>networkstatus\<close>, \<open>userplugin\<close>) are the fields of \<open>netutil\<close>.  The entries of the
  response are pairwise distinct objects, so a write through an entry changes that entry
  of the list.
\<close>

subsection \<open>Data\<close>

record pci_device =
  pci_address :: string

record vdpa_device =
  vdpa_pci_address :: string

record device_info =
  di_type :: string
  di_version :: string
  di_pci :: "pci_device option"
  di_vdpa :: "vdpa_device option"

record network_status =
  ns_name :: string
  ns_interface :: string
  ns_default :: bool
  ns_device_info :: "device_info option"

record interface_data =
  id_device_type :: string
  id_network_status :: network_status

record ('n, 'u) netutil =
  nu_type_unknown :: string
  nu_type_host :: string
  nu_type_sriov :: string
  nu_info_type_pci :: string
  nu_info_version :: string
  nu_status_init :: 'n
  nu_status_parse :: "string \<Rightarrow> string \<Rightarrow> 'n \<Rightarrow> 'n"
  nu_status_append :: "'n \<Rightarrow> interface_data list \<Rightarrow> interface_data list"
  nu_user_init :: 'u
  nu_user_parse :: "string \<Rightarrow> string \<Rightarrow> 'u \<Rightarrow> 'u"
  nu_user_append :: "'u \<Rightarrow> interface_data list \<Rightarrow> interface_data list"

text \<open>What \<open>os.Stat\<close> and \<open>os.Open\<close> say of the annotation file, and its contents.\<close>

datatype annotation_file =
    StatFails
  | OpenFails go_error
  | Contents string

subsection \<open>Lines of a file\<close>

text \<open>
  \<open>bufio.Scanner\<close> as the code uses it, with the default split function: the lines without
  their end-of-line marks, no empty last line, and nothing from the first line on that does
  not fit its buffer of 65536 bytes (the code does not look at \<open>Err\<close>).
\<close>

definition drop_cr :: "string \<Rightarrow> string" where
  "drop_cr s = (if s \<noteq> [] \<and> last s = CHR 0x0D then butlast s else s)"

definition scan_lines :: "string \<Rightarrow> string list" where
  "scan_lines s =
     (let ls = go_split [CHR 0x0A] s;
          ls1 = (if last ls = [] then butlast ls else ls)
      in map drop_cr (takeWhile (\<lambda>l. length l < 65536) ls1))"

subsection \<open>The environment\<close>

definition env_entry :: "string \<Rightarrow> (string \<times> string) list \<Rightarrow> (string \<times> string) list" where
  "env_entry e envs =
     (case go_split ''='' e of
        [k, v] \<Rightarrow> AList.update k v envs
      | _ \<Rightarrow> envs)"

definition env_line :: "string \<Rightarrow> (string \<times> string) list \<Rightarrow> (string \<times> string) list" where
  "env_line l envs = fold env_entry (go_split [CHR 0x00] (trim_space l)) envs"

text \<open>\<open>getEnv\<close>, on what opening and reading \<open>/proc/<pid>/environ\<close> gives.\<close>

definition get_env :: "string result \<Rightarrow> (string \<times> string) list result" where
  "get_env environ =
     (case environ of
        Inl e \<Rightarrow> Inl e
      | Inr s \<Rightarrow> Inr (fold env_line (scan_lines s) []))"

subsection \<open>The annotations\<close>

text \<open>
  The value of an annotation without the marks of its first marshalling; the surrounding
  quotes are cut off by position, which panics on a value shorter than two bytes.
\<close>

definition annotation_value :: "string \<Rightarrow> string go" where
  "annotation_value v =
     (let v1 = go_replace_all v [CHR 0x5C, CHR ''n''] [];
          v2 = go_replace_all v1 [CHR 0x5C] [];
          v3 = go_replace_all v2 '' '' []
      in go_slice v3 1 (int (length v3) - 1))"

definition annotation_entry ::
  "('n, 'u) netutil \<Rightarrow> string \<Rightarrow> 'n \<times> 'u \<Rightarrow> ('n \<times> 'u) go" where
  "annotation_entry nu s acc =
     (case go_split ''='' s of
        [k, v] \<Rightarrow>
          bindS (annotation_value v) (\<lambda>v'.
            Inr (nu_status_parse nu k v' (fst acc), nu_user_parse nu k v' (snd acc)))
      | _ \<Rightarrow> Inr acc)"

definition annotation_line ::
  "('n, 'u) netutil \<Rightarrow> string \<Rightarrow> 'n \<times> 'u \<Rightarrow> ('n \<times> 'u) go" where
  "annotation_line nu l acc =
     foldS (annotation_entry nu) (go_split [CHR 0x0A] (trim_space l)) acc"

definition annotated_interfaces ::
  "('n, 'u) netutil \<Rightarrow> string \<Rightarrow> interface_data list go" where
  "annotated_interfaces nu s =
     bindS (foldS (annotation_line nu) (scan_lines s) (nu_status_init nu, nu_user_init nu))
       (\<lambda>(n, u). Inr (nu_user_append nu u (nu_status_append nu n [])))"

subsection \<open>PCI addresses\<close>

definition has_pci :: "string \<Rightarrow> interface_data \<Rightarrow> bool" where
  "has_pci addr i =
     (case ns_device_info (id_network_status i) of
        None \<Rightarrow> False
      | Some d \<Rightarrow> (case di_pci d of None \<Rightarrow> False | Some p \<Rightarrow> equal_fold (pci_address p) addr))"

definition has_vdpa :: "string \<Rightarrow> interface_data \<Rightarrow> bool" where
  "has_vdpa addr i =
     (case ns_device_info (id_network_status i) of
        None \<Rightarrow> False
      | Some d \<Rightarrow>
          (case di_vdpa d of None \<Rightarrow> False | Some p \<Rightarrow> equal_fold (vdpa_pci_address p) addr))"

text \<open>
  The search for an address among the interfaces: the first one whose PCI device has it is
  marked SR-IOV; the first one whose vDPA device has it is left as it is.
\<close>

fun find_pci ::
  "('n, 'u) netutil \<Rightarrow> string \<Rightarrow> interface_data list \<Rightarrow> interface_data list \<times> bool" where
  "find_pci nu addr [] = ([], False)"
| "find_pci nu addr (i # ifs) =
     (if has_pci addr i then (i\<lparr>id_device_type := nu_type_sriov nu\<rparr> # ifs, True)
      else if has_vdpa addr i then (i # ifs, True)
      else (let (ifs', found) = find_pci nu addr ifs in (i # ifs', found)))"

definition env_pci_id ::
  "('n, 'u) netutil \<Rightarrow> string \<Rightarrow> interface_data list \<times> string list
    \<Rightarrow> interface_data list \<times> string list" where
  "env_pci_id nu addr acc =
     (case find_pci nu addr (fst acc) of
        (ifs, True) \<Rightarrow> (ifs, snd acc)
      | (ifs, False) \<Rightarrow> (ifs, snd acc @ [addr]))"

definition env_pci_entry ::
  "('n, 'u) netutil \<Rightarrow> string \<times> string \<Rightarrow> interface_data list \<times> string list
    \<Rightarrow> interface_data list \<times> string list" where
  "env_pci_entry nu kv acc =
     (if has_prefix (fst kv) ''PCIDEVICE''
      then fold (env_pci_id nu) (go_split '','' (snd kv)) acc else acc)"

definition pci_device_info :: "('n, 'u) netutil \<Rightarrow> string \<Rightarrow> device_info" where
  "pci_device_info nu addr =
     \<lparr>di_type = nu_info_type_pci nu, di_version = nu_info_version nu,
      di_pci = Some \<lparr>pci_address = addr\<rparr>, di_vdpa = None\<rparr>"

definition unknown_count :: "('n, 'u) netutil \<Rightarrow> interface_data list \<Rightarrow> nat" where
  "unknown_count nu ifs = length (filter (\<lambda>i. id_device_type i = nu_type_unknown nu) ifs)"

text \<open>
  The loop over the interfaces of unknown type, with the counter of those left and the
  index of the next unused PCI address.
\<close>

fun assign_unknown ::
  "('n, 'u) netutil \<Rightarrow> string list \<Rightarrow> int \<Rightarrow> nat \<Rightarrow> interface_data list
    \<Rightarrow> interface_data list \<times> nat" where
  "assign_unknown nu pcis cnt idx [] = ([], idx)"
| "assign_unknown nu pcis cnt idx (i # ifs) =
     (let (i', cnt', idx') =
        (if id_device_type i \<noteq> nu_type_unknown nu then (i, cnt, idx)
         else if ns_default (id_network_status i) \<and> int (length pcis) < cnt
         then (i\<lparr>id_device_type := nu_type_host nu\<rparr>, cnt - 1, idx)
         else if idx < length pcis
         then (case ns_device_info (id_network_status i) of
                 None \<Rightarrow>
                   (i\<lparr>id_device_type := nu_type_sriov nu,
                      id_network_status := (id_network_status i)
                        \<lparr>ns_device_info := Some (pci_device_info nu (pcis ! idx))\<rparr>\<rparr>,
                    cnt - 1, Suc idx)
               | Some _ \<Rightarrow> (i, cnt, idx))
         else (i\<lparr>id_device_type := nu_type_host nu\<rparr>, cnt - 1, idx));
        (ifs', idx'') = assign_unknown nu pcis cnt' idx' ifs
      in (i' # ifs', idx''))"

definition new_pci_interface :: "('n, 'u) netutil \<Rightarrow> string \<Rightarrow> interface_data" where
  "new_pci_interface nu addr =
     \<lparr>id_device_type = nu_type_sriov nu,
      id_network_status = \<lparr>ns_name = [], ns_interface = [], ns_default = False,
        ns_device_info = Some (pci_device_info nu addr)\<rparr>\<rparr>"

definition place_pci ::
  "('n, 'u) netutil \<Rightarrow> interface_data list \<Rightarrow> string list \<Rightarrow> interface_data list" where
  "place_pci nu ifs pcis =
     (case assign_unknown nu pcis (int (unknown_count nu ifs)) 0 ifs of
        (ifs', idx) \<Rightarrow> ifs' @ map (new_pci_interface nu) (drop idx pcis))"

text \<open>
  \<open>GetInterfaces\<close>.  The environment map is iterated over in the order \<open>env_order\<close> gives.
\<close>

definition get_interfaces ::
  "('n, 'u) netutil \<Rightarrow> annotation_file \<Rightarrow> string result
    \<Rightarrow> ((string \<times> string) list \<Rightarrow> (string \<times> string) list) \<Rightarrow> interface_data list result go" where
  "get_interfaces nu annotations environ env_order =
     (case annotations of
        OpenFails e \<Rightarrow> Inr (Inl e)
      | _ \<Rightarrow>
          bindS (case annotations of Contents s \<Rightarrow> annotated_interfaces nu s | _ \<Rightarrow> Inr [])
            (\<lambda>ifs. case get_env environ of
                Inl e \<Rightarrow> Inr (Inl e)
              | Inr envs \<Rightarrow>
                  (case fold (env_pci_entry nu) (env_order envs) (ifs, []) of
                     (ifs1, pcis) \<Rightarrow> Inr (Inr (place_pci nu ifs1 pcis)))))"

end
