(* ===== verification/InterfaceProps.thy ===== *)
theory InterfaceProps
  imports Interfaces
begin

section \<open>What the interface list holds\<close>

text \<open>
  No PCI address of the environment is lost, the annotated interfaces keep their order and
  names, the environment file is read back as it was written while it fits the scanner's
  buffer, and the two ways in which the code does not do what its comments say.
\<close>

subsection \<open>Searching and assigning\<close>

definition holds_address :: "string \<Rightarrow> interface_data \<Rightarrow> bool" where
  "holds_address addr i \<longleftrightarrow> has_pci addr i \<or> has_vdpa addr i"

lemma holds_address_type [simp]:
  "holds_address addr (i\<lparr>id_device_type := t\<rparr>) = holds_address addr i"
  by (simp add: holds_address_def has_pci_def has_vdpa_def)

lemma holds_address_pci_info [simp]:
  "holds_address a (i\<lparr>id_device_type := t, id_network_status := s\<lparr>ns_device_info :=
      Some (pci_device_info nu a)\<rparr>\<rparr>)"
  "holds_address a (new_pci_interface nu a)"
  by (simp_all add: holds_address_def has_pci_def pci_device_info_def new_pci_interface_def)

text \<open>What a later step may change of an interface.\<close>

definition keeps :: "interface_data \<Rightarrow> interface_data \<Rightarrow> bool" where
  "keeps i j \<longleftrightarrow>
     ns_name (id_network_status j) = ns_name (id_network_status i) \<and>
     ns_interface (id_network_status j) = ns_interface (id_network_status i) \<and>
     (\<forall>d. ns_device_info (id_network_status i) = Some d \<longrightarrow>
        ns_device_info (id_network_status j) = Some d)"

lemma keeps_refl [simp]: "keeps i i"
  and keeps_type [simp]: "keeps i (i\<lparr>id_device_type := t\<rparr>)"
  by (simp_all add: keeps_def)

lemma keeps_trans: "keeps i j \<Longrightarrow> keeps j k \<Longrightarrow> keeps i k"
  by (simp add: keeps_def)

lemma keeps_holds: "keeps i j \<Longrightarrow> holds_address a i \<Longrightarrow> holds_address a j"
  by (auto simp: keeps_def holds_address_def has_pci_def has_vdpa_def split: option.splits)

lemma all2_keeps_refl [simp]: "list_all2 keeps ifs ifs"
  by (simp add: list_all2_refl)

lemma all2_keeps_trans:
  "list_all2 keeps ifs js \<Longrightarrow> list_all2 keeps js ks \<Longrightarrow> list_all2 keeps ifs ks"
  by (rule list_all2_trans [OF keeps_trans])

lemma all2_keeps_holds:
  "list_all2 keeps ifs js \<Longrightarrow> i \<in> set ifs \<Longrightarrow> holds_address a i \<Longrightarrow> \<exists>j \<in> set js. holds_address a j"
  by (induction rule: list_all2_induct) (auto dest: keeps_holds)

lemma all2_keeps_names:
  "list_all2 keeps ifs js \<Longrightarrow>
     map (\<lambda>i. (ns_name (id_network_status i), ns_interface (id_network_status i))) js =
     map (\<lambda>i. (ns_name (id_network_status i), ns_interface (id_network_status i))) ifs"
  by (induction rule: list_all2_induct) (simp_all add: keeps_def)

lemma find_pci_keeps: "list_all2 keeps ifs (fst (find_pci nu a ifs))"
  by (induction ifs) (auto simp: case_prod_unfold Let_def)

lemma find_pci_found: "find_pci nu a ifs = (js, True) \<Longrightarrow> \<exists>j \<in> set js. holds_address a j"
proof (induction ifs arbitrary: js)
  case Nil
  then show ?case by simp
next
  case (Cons i ifs)
  show ?case
  proof (cases "holds_address a i")
    case True
    then show ?thesis
      using Cons.prems holds_address_type [of a "nu_type_sriov nu" i]
      by (auto simp: holds_address_def split: if_splits)
  next
    case False
    then obtain ks where "find_pci nu a ifs = (ks, True)" "js = i # ks"
      using Cons.prems by (auto simp: holds_address_def case_prod_unfold Let_def prod_eq_iff)
    then show ?thesis using Cons.IH by simp
  qed
qed

lemma find_pci_not_found:
  "find_pci nu a ifs = (js, False) \<longleftrightarrow> js = ifs \<and> (\<forall>i \<in> set ifs. \<not> holds_address a i)"
  by (induction ifs arbitrary: js)
    (auto simp: holds_address_def case_prod_unfold Let_def prod_eq_iff)

lemma assign_unknown_keeps: "list_all2 keeps ifs (fst (assign_unknown nu pcis cnt idx ifs))"
  by (induction nu pcis cnt idx ifs rule: assign_unknown.induct)
    (auto simp: Let_def case_prod_unfold keeps_def split: option.splits)

lemma assign_unknown_idx:
  "idx \<le> length pcis \<Longrightarrow> assign_unknown nu pcis cnt idx ifs = (js, idx') \<Longrightarrow>
     idx \<le> idx' \<and> idx' \<le> length pcis \<and>
     (\<forall>k. idx \<le> k \<and> k < idx' \<longrightarrow> (\<exists>j \<in> set js. holds_address (pcis ! k) j))"
proof (induction ifs arbitrary: cnt idx js)
  case Nil
  then show ?case by simp
next
  case (Cons i ifs)
  obtain i' cnt1 idx1 ks where
    rest: "assign_unknown nu pcis cnt1 idx1 ifs = (ks, idx')" and js: "js = i' # ks" and
    step: "idx1 = idx \<or> (idx1 = Suc idx \<and> idx < length pcis \<and> holds_address (pcis ! idx) i')"
    using Cons.prems(2)
    by (auto simp: Let_def case_prod_unfold prod_eq_iff split: if_splits option.splits)
  have IH: "idx1 \<le> idx' \<and> idx' \<le> length pcis \<and>
      (\<forall>k. idx1 \<le> k \<and> k < idx' \<longrightarrow> (\<exists>j \<in> set ks. holds_address (pcis ! k) j))"
    using Cons.IH [OF _ rest] step Cons.prems(1) by auto
  show ?case
    using step
  proof
    assume "idx1 = idx"
    then show ?thesis using IH js by auto
  next
    assume "idx1 = Suc idx \<and> idx < length pcis \<and> holds_address (pcis ! idx) i'"
    then show ?thesis using IH js by (auto simp: le_Suc_eq Suc_le_eq dest: le_neq_implies_less)
  qed
qed

lemma nth_in_drop: "n \<le> k \<Longrightarrow> k < length xs \<Longrightarrow> xs ! k \<in> set (drop n xs)"
  using nth_mem [of "k - n" "drop n xs"] by simp

lemma place_pci_shape:
  "\<exists>js pcis'. place_pci nu ifs pcis = js @ map (new_pci_interface nu) pcis' \<and>
     list_all2 keeps ifs js \<and> set pcis' \<subseteq> set pcis \<and>
     (\<forall>a \<in> set pcis. a \<in> set pcis' \<or> (\<exists>j \<in> set js. holds_address a j))"
proof -
  obtain js idx where a: "assign_unknown nu pcis (int (unknown_count nu ifs)) 0 ifs = (js, idx)"
    by fastforce
  have idx: "idx \<le> length pcis"
    "\<forall>k. k < idx \<longrightarrow> (\<exists>j \<in> set js. holds_address (pcis ! k) j)"
    using assign_unknown_idx [OF _ a] by auto
  have "\<forall>x \<in> set pcis. x \<in> set (drop idx pcis) \<or> (\<exists>j \<in> set js. holds_address x j)"
    using idx by (metis in_set_conv_nth nth_in_drop not_le)
  moreover have "list_all2 keeps ifs js"
    using assign_unknown_keeps [of ifs nu pcis "int (unknown_count nu ifs)" 0] a by simp
  ultimately show ?thesis
    using a by (intro exI [of _ js] exI [of _ "drop idx pcis"])
      (auto simp: place_pci_def dest: in_set_dropD)
qed

subsection \<open>The addresses of the environment\<close>

definition env_pci_ids :: "(string \<times> string) list \<Rightarrow> string list" where
  "env_pci_ids envs =
     concat (map (\<lambda>kv. if has_prefix (fst kv) ''PCIDEVICE'' then go_split '','' (snd kv) else []) envs)"

lemma env_pci_entries_flat:
  "fold (env_pci_entry nu) envs acc = fold (env_pci_id nu) (env_pci_ids envs) acc"
  by (induction envs arbitrary: acc) (simp_all add: env_pci_ids_def env_pci_entry_def)

lemma env_pci_id_step:
  assumes "env_pci_id nu a (ifs, ps) = (js, qs)"
  shows "list_all2 keeps ifs js" and "set ps \<subseteq> set qs"
    and "a \<in> set qs \<or> (\<exists>j \<in> set js. holds_address a j)"
  using assms find_pci_keeps [of ifs nu a] find_pci_found [of nu a ifs js]
  by (auto simp: env_pci_id_def split: prod.splits bool.splits)

lemma env_pci_fold:
  assumes "fold (env_pci_id nu) ids (ifs, ps) = (js, qs)"
  shows "list_all2 keeps ifs js \<and> set ps \<subseteq> set qs \<and>
    (\<forall>a \<in> set ids. a \<in> set qs \<or> (\<exists>j \<in> set js. holds_address a j))"
  using assms
proof (induction ids arbitrary: ifs ps)
  case Nil
  then show ?case by simp
next
  case (Cons a ids)
  obtain ifs1 ps1 where s1: "env_pci_id nu a (ifs, ps) = (ifs1, ps1)" by fastforce
  have IH: "list_all2 keeps ifs1 js \<and> set ps1 \<subseteq> set qs \<and>
      (\<forall>a \<in> set ids. a \<in> set qs \<or> (\<exists>j \<in> set js. holds_address a j))"
    using Cons.IH [of ifs1 ps1] Cons.prems s1 by simp
  note s = env_pci_id_step [OF s1]
  have "a \<in> set qs \<or> (\<exists>j \<in> set js. holds_address a j)"
    using s(3) IH all2_keeps_holds by blast
  then show ?case using s(1,2) IH all2_keeps_trans by auto
qed

lemma get_interfaces_Inr:
  assumes "get_interfaces nu ann environ ord = Inr (Inr res)"
  obtains ifs envs ifs1 pcis where
    "(case ann of Contents s \<Rightarrow> annotated_interfaces nu s | _ \<Rightarrow> Inr []) = Inr ifs"
    "get_env environ = Inr envs"
    "fold (env_pci_id nu) (env_pci_ids (ord envs)) (ifs, []) = (ifs1, pcis)"
    "res = place_pci nu ifs1 pcis"
proof -
  let ?pick = "case ann of Contents s \<Rightarrow> annotated_interfaces nu s | _ \<Rightarrow> Inr []"
  have "\<forall>e. ann \<noteq> OpenFails e" using assms by (auto simp: get_interfaces_def)
  then have "get_interfaces nu ann environ ord =
      bindS ?pick (\<lambda>ifs. case get_env environ of Inl e \<Rightarrow> Inr (Inl e)
        | Inr envs \<Rightarrow> (case fold (env_pci_id nu) (env_pci_ids (ord envs)) (ifs, []) of
            (ifs1, pcis) \<Rightarrow> Inr (Inr (place_pci nu ifs1 pcis))))"
    unfolding get_interfaces_def env_pci_entries_flat by (simp split: annotation_file.splits)
  with assms obtain ifs where p: "?pick = Inr ifs" and
    q: "(case get_env environ of Inl e \<Rightarrow> Inr (Inl e)
      | Inr envs \<Rightarrow> (case fold (env_pci_id nu) (env_pci_ids (ord envs)) (ifs, []) of
          (ifs1, pcis) \<Rightarrow> Inr (Inr (place_pci nu ifs1 pcis)))) = (Inr (Inr res) :: _ result go)"
    by (auto simp: bindS_Inr_iff)
  then obtain envs where e: "get_env environ = Inr envs" by (auto split: sum.splits)
  obtain ifs1 pcis where f: "fold (env_pci_id nu) (env_pci_ids (ord envs)) (ifs, []) = (ifs1, pcis)"
    by fastforce
  with q e have "res = place_pci nu ifs1 pcis" by simp
  then show thesis by (rule that [OF p e f])
qed


text \<open>
  C37: \<open>GetInterfaces\<close> keeps the annotated interfaces in their order, with the network and
  interface names the annotations gave them; what it adds for the environment comes after
  them and has no names.  So the controller's lookup of a network name sees exactly the
  annotations.
\<close>
theorem annotated_interfaces_keep_their_names:
  assumes "get_interfaces nu (Contents s) environ ord = Inr (Inr res)"
  shows "\<exists>ifs n. annotated_interfaces nu s = Inr ifs \<and>
    map (\<lambda>i. (ns_name (id_network_status i), ns_interface (id_network_status i))) res =
    map (\<lambda>i. (ns_name (id_network_status i), ns_interface (id_network_status i))) ifs @
    replicate n ([], [])"
proof -
  from assms obtain ifs envs ifs1 pcis where r:
    "annotated_interfaces nu s = Inr ifs"
    "fold (env_pci_id nu) (env_pci_ids (ord envs)) (ifs, []) = (ifs1, pcis)"
    "res = place_pci nu ifs1 pcis"
    by (auto elim: get_interfaces_Inr)
  obtain js pcis' where js: "res = js @ map (new_pci_interface nu) pcis'" "list_all2 keeps ifs1 js"
    using place_pci_shape [of nu ifs1 pcis] r(3) by auto
  have "list_all2 keeps ifs js"
    using env_pci_fold [OF r(2)] js(2) all2_keeps_trans by blast
  then show ?thesis
    using r(1) js(1) all2_keeps_names
    by (intro exI [of _ ifs] exI [of _ "length pcis'"])
      (simp add: new_pci_interface_def map_replicate_const o_def)
qed

subsection \<open>Reading the environment\<close>

text \<open>The contents of \<open>/proc/<pid>/environ\<close>: every variable followed by a zero byte.\<close>

definition environ_image :: "(string \<times> string) list \<Rightarrow> string" where
  "environ_image vars = concat (map (\<lambda>(k, v). k @ ''='' @ v @ [CHR 0x00]) vars)"

definition plain_var :: "string \<times> string \<Rightarrow> bool" where
  "plain_var kv \<longleftrightarrow> CHR ''='' \<notin> set (fst kv) \<and> (fst kv \<noteq> [] \<longrightarrow> \<not> is_space (hd (fst kv))) \<and>
     (\<forall>s \<in> {fst kv, snd kv}. CHR 0x00 \<notin> set s \<and> CHR 0x0A \<notin> set s)"

definition put_var :: "string \<times> string \<Rightarrow> (string \<times> string) list \<Rightarrow> (string \<times> string) list" where
  "put_var kv m = (if CHR ''='' \<in> set (snd kv) then m else AList.update (fst kv) (snd kv) m)"

lemma env_entry_var:
  assumes "plain_var (k, v)"
  shows "env_entry (k @ ''='' @ v) m = put_var (k, v) m"
proof (cases "CHR ''='' \<in> set v")
  case True
  then obtain x y zs where "go_split ''='' v = x # y # zs" using go_split_char_two by blast
  then show ?thesis
    using assms True by (simp add: env_entry_def plain_var_def put_var_def go_split_char)
next
  case False
  then show ?thesis
    using assms
    by (simp add: env_entry_def plain_var_def put_var_def go_split_char go_split_char_none)
qed

lemma env_entry_Nil [simp]: "env_entry [] m = m"
  by (simp add: env_entry_def go_split_char_none)

lemma fold_env_entry_image:
  "list_all plain_var vars \<Longrightarrow>
     fold env_entry (go_split [CHR 0x00] (environ_image vars)) m = fold put_var vars m"
proof (induction vars arbitrary: m)
  case Nil
  then show ?case by (simp add: environ_image_def go_split_char_none)
next
  case (Cons kv vars)
  obtain k v where kv: "kv = (k, v)" by (cases kv)
  have "environ_image (kv # vars) = (k @ ''='' @ v) @ CHR 0x00 # environ_image vars"
    by (simp add: environ_image_def kv)
  moreover have "CHR 0x00 \<notin> set (k @ ''='' @ v)"
    using Cons.prems by (simp add: kv plain_var_def)
  ultimately have "go_split [CHR 0x00] (environ_image (kv # vars)) =
      (k @ ''='' @ v) # go_split [CHR 0x00] (environ_image vars)"
    by (metis go_split_char)
  then show ?case using Cons env_entry_var [of k v m] by (simp add: kv)
qed

lemma image_last: "vars \<noteq> [] \<Longrightarrow> environ_image vars \<noteq> [] \<and> last (environ_image vars) = CHR 0x00"
  by (cases vars rule: rev_cases) (auto simp: environ_image_def)

lemma trim_space_image:
  assumes "list_all plain_var vars"
  shows "trim_space (environ_image vars) = environ_image vars"
proof (cases vars)
  case Nil
  then show ?thesis by (simp add: environ_image_def trim_space_def trim_both_def)
next
  case (Cons kv rest)
  obtain k v where kv: "kv = (k, v)" by (cases kv)
  have "dropWhile is_space (environ_image vars) = environ_image vars"
    using assms by (cases k) (auto simp: Cons kv environ_image_def plain_var_def is_space_def)
  moreover have "\<exists>xs. environ_image vars = xs @ [CHR 0x00]"
    using Cons image_last [of vars] by (metis append_butlast_last_id list.distinct(1))
  ultimately show ?thesis
    by (auto simp: trim_space_def trim_both_def is_space_def)
qed

lemma image_no_newline: "list_all plain_var vars \<Longrightarrow> CHR 0x0A \<notin> set (environ_image vars)"
  by (auto simp: environ_image_def plain_var_def list_all_iff)

lemma scan_lines_one:
  "CHR 0x0A \<notin> set s \<Longrightarrow> s \<noteq> [] \<Longrightarrow>
     scan_lines s = (if length s < 65536 then [drop_cr s] else [])"
  by (simp add: scan_lines_def go_split_char_none)

lemma get_env_image:
  assumes "list_all plain_var vars"
  shows "get_env (Inr (environ_image vars)) =
    (if length (environ_image vars) < 65536 then Inr (fold put_var vars []) else Inr [])"
proof (cases "vars = []")
  case True
  then show ?thesis
    by (simp add: get_env_def environ_image_def scan_lines_def go_split_char_none)
next
  case False
  then show ?thesis
    using assms image_last [OF False]
    by (simp add: get_env_def scan_lines_one image_no_newline drop_cr_def env_line_def
        trim_space_image fold_env_entry_image)
qed

lemma map_of_put_vars:
  "map_of (fold put_var vars m) =
     map_of m ++ map_of (rev (filter (\<lambda>kv. CHR ''='' \<notin> set (snd kv)) vars))"
  by (induction vars arbitrary: m) (auto simp: put_var_def go_maps map_add_def fun_eq_iff
      split: option.splits)


subsection \<open>The types of the interfaces\<close>

definition types_distinct :: "('n, 'u) netutil \<Rightarrow> bool" where
  "types_distinct nu \<longleftrightarrow>
     nu_type_unknown nu \<noteq> nu_type_host nu \<and> nu_type_unknown nu \<noteq> nu_type_sriov nu"

lemma assign_unknown_typed:
  assumes "types_distinct nu"
  shows "\<forall>j \<in> set (fst (assign_unknown nu pcis cnt idx ifs)).
    id_device_type j = nu_type_unknown nu \<longrightarrow> ns_device_info (id_network_status j) \<noteq> None"
  using assms
  by (induction nu pcis cnt idx ifs rule: assign_unknown.induct)
    (auto simp: types_distinct_def Let_def case_prod_unfold split: option.splits if_splits)

text \<open>
  An interface whose type is still unknown in the list \<open>GetInterfaces\<close> returns has a
  device description from the annotations: every other one was made a host or an SR-IOV
  interface.
\<close>

lemma untyped_interfaces_have_device_info:
  assumes "get_interfaces nu ann environ ord = Inr (Inr res)" and "types_distinct nu"
    and "i \<in> set res" and "id_device_type i = nu_type_unknown nu"
  shows "ns_device_info (id_network_status i) \<noteq> None"
proof -
  from assms(1) obtain ifs1 pcis where "res = place_pci nu ifs1 pcis"
    by (auto elim: get_interfaces_Inr)
  then show ?thesis
    using assms(2-4) assign_unknown_typed [OF assms(2), of pcis "int (unknown_count nu ifs1)" 0 ifs1]
    by (auto simp: place_pci_def new_pci_interface_def types_distinct_def split: prod.splits)
qed

text \<open>
  The default interface can be made the SR-IOV interface of a PCI address although
  there are more interfaces of unknown type than addresses: with three of them, the default
  one in the middle, and two addresses, the second address goes to the default interface
  and the third interface becomes the host interface, whatever their names.  The code
  compares the number of addresses with a count that the first assignment has lowered.
\<close>
theorem default_interface_takes_an_address:
  assumes "types_distinct nu"
    and "\<forall>i \<in> {i1, i2, i3}. id_device_type i = nu_type_unknown nu \<and>
      ns_device_info (id_network_status i) = None"
    and "map (\<lambda>i. ns_default (id_network_status i)) [i1, i2, i3] = [False, True, False]"
  shows "map (\<lambda>i. (id_device_type i, ns_device_info (id_network_status i)))
      (place_pci nu [i1, i2, i3] [a, b]) =
    [(nu_type_sriov nu, Some (pci_device_info nu a)), (nu_type_sriov nu, Some (pci_device_info nu b)),
     (nu_type_host nu, None)]"
  using assms by (simp add: place_pci_def unknown_count_def types_distinct_def)

subsection \<open>A pod\<close>

definition sample_interface :: "string \<Rightarrow> bool \<Rightarrow> interface_data" where
  "sample_interface n dflt =
     \<lparr>id_device_type = ''unknown'',
      id_network_status = \<lparr>ns_name = ''default/'' @ n, ns_interface = n, ns_default = dflt,
        ns_device_info = None\<rparr>\<rparr>"

text \<open>A reader of annotations of the forms \<open>net="<name>"\<close> and \<open>user="<address>"\<close>.\<close>

definition sample_user_interface :: "string \<Rightarrow> interface_data" where
  "sample_user_interface a =
     \<lparr>id_device_type = ''unknown'',
      id_network_status = \<lparr>ns_name = ''default/user'', ns_interface = ''user0'', ns_default = False,
        ns_device_info = Some \<lparr>di_type = ''vhost'', di_version = ''1.0.0'', di_pci = None,
          di_vdpa = Some \<lparr>vdpa_pci_address = a\<rparr>\<rparr>\<rparr>\<rparr>"

definition sample_netutil :: "(string list, string list) netutil" where
  "sample_netutil =
     \<lparr>nu_type_unknown = ''unknown'', nu_type_host = ''host'', nu_type_sriov = ''sr-iov'',
      nu_info_type_pci = ''pci'', nu_info_version = ''1.0.0'',
      nu_status_init = [],
      nu_status_parse = (\<lambda>k v n. if k = ''net'' then n @ [v] else n),
      nu_status_append = (\<lambda>n ifs. ifs @ map (\<lambda>v. sample_interface v False) n),
      nu_user_init = [], nu_user_parse = (\<lambda>k v u. if k = ''user'' then u @ [v] else u),
      nu_user_append = (\<lambda>u ifs. ifs @ map sample_user_interface u)\<rparr>"

definition sample_annotation :: string where
  "sample_annotation = ''net='' @ [CHR 0x22] @ ''net0'' @ [CHR 0x22, CHR 0x0A]"

definition sample_vars :: "(string \<times> string) list" where
  "sample_vars = [(''A'', ''x''), (''PCIDEVICE_Q'', ''0a,0B''), (''A'', ''y''), (''B'', ''u=v'')]"

definition sample_pod_interfaces :: "interface_data list" where
  "sample_pod_interfaces =
     [\<lparr>id_device_type = ''sr-iov'',
       id_network_status = \<lparr>ns_name = ''default/net0'', ns_interface = ''net0'', ns_default = False,
         ns_device_info = Some (pci_device_info sample_netutil ''0a'')\<rparr>\<rparr>,
      new_pci_interface sample_netutil ''0B'']"

lemma sample_env: "get_env (Inr (environ_image sample_vars)) = Inr [(''A'', ''y''), (''PCIDEVICE_Q'', ''0a,0B'')]"
  by (subst get_env_image)
    (simp_all add: sample_vars_def plain_var_def is_space_def environ_image_def put_var_def)

lemma sample_annotated:
  "annotated_interfaces sample_netutil sample_annotation = Inr [sample_interface ''net0'' False]"
  by (simp add: annotated_interfaces_def sample_annotation_def scan_lines_def go_split.simps
      prefix_def drop_cr_def annotation_line_def annotation_entry_def annotation_value_def
      go_replace_all_def go_slice_def trim_space_def trim_both_def is_space_def sample_netutil_def)

lemma sample_interfaces:
  "get_interfaces sample_netutil (Contents sample_annotation)
     (Inr (environ_image sample_vars)) id = Inr (Inr sample_pod_interfaces)"
  unfolding get_interfaces_def annotation_file.case sample_annotated sample_env bindS_Inr sum.case
  by (simp add: env_pci_entry_def has_prefix_def
      go_split.simps prefix_def env_pci_id_def sample_interface_def has_pci_def has_vdpa_def
      place_pci_def unknown_count_def sample_netutil_def sample_pod_interfaces_def
      pci_device_info_def new_pci_interface_def)



theorem annotated_interfaces_keep_their_names_witness:
  "\<exists>ifs n. annotated_interfaces sample_netutil sample_annotation = Inr ifs \<and>
    map (\<lambda>i. (ns_name (id_network_status i), ns_interface (id_network_status i))) sample_pod_interfaces =
    map (\<lambda>i. (ns_name (id_network_status i), ns_interface (id_network_status i))) ifs @
    replicate n ([], [])"
  by (rule annotated_interfaces_keep_their_names [OF sample_interfaces])

theorem default_interface_takes_an_address_witness:
  "map (\<lambda>i. (id_device_type i, ns_device_info (id_network_status i)))
      (place_pci sample_netutil [sample_interface ''net0'' False, sample_interface ''eth0'' True,
        sample_interface ''net1'' False] [''0a'', ''0b'']) =
    [(nu_type_sriov sample_netutil, Some (pci_device_info sample_netutil ''0a'')),
     (nu_type_sriov sample_netutil, Some (pci_device_info sample_netutil ''0b'')),
     (nu_type_host sample_netutil, None)]"
  by (rule default_interface_takes_an_address)
    (simp_all add: types_distinct_def sample_netutil_def sample_interface_def)

end
