(* ===== verification/GoBase64.thy ===== *)
theory GoBase64
  imports GoBase
begin

section \<open>\<open>encoding/base64\<close>\<close>

text \<open>
  \<open>base64.StdEncoding.DecodeString\<close>: line ends are skipped, the rest is read in groups of
  four, the last of which may be padded; bits of a padded group that stand for no byte are
  ignored, as there.
\<close>

definition b64_val :: "char \<Rightarrow> nat option" where
  "b64_val c =
     (let n = (of_char c :: nat)
      in if 65 \<le> n \<and> n \<le> 90 then Some (n - 65)
         else if 97 \<le> n \<and> n \<le> 122 then Some (n - 71)
         else if 48 \<le> n \<and> n \<le> 57 then Some (n + 4)
         else if n = 43 then Some 62 else if n = 47 then Some 63 else None)"

text \<open>The three bytes of four values.\<close>

definition b64_bytes :: "nat \<Rightarrow> nat \<Rightarrow> nat \<Rightarrow> nat \<Rightarrow> string" where
  "b64_bytes w x y z =
     [char_of (4 * w + x div 16), char_of (16 * (x mod 16) + y div 4), char_of (64 * (y mod 4) + z)]"

definition b64_quantum :: "char \<Rightarrow> char \<Rightarrow> char \<Rightarrow> char \<Rightarrow> string option" where
  "b64_quantum a b c d =
     (case (b64_val a, b64_val b, b64_val c, b64_val d) of
        (Some w, Some x, Some y, Some z) \<Rightarrow> Some (b64_bytes w x y z)
      | _ \<Rightarrow> None)"

text \<open>A last group with one or two padding bytes.\<close>

definition b64_padded :: "char \<Rightarrow> char \<Rightarrow> char \<Rightarrow> string option" where
  "b64_padded a b c =
     (case (b64_val a, b64_val b) of
        (Some w, Some x) \<Rightarrow>
          (if c = CHR ''='' then Some (take 1 (b64_bytes w x 0 0))
           else (case b64_val c of Some y \<Rightarrow> Some (take 2 (b64_bytes w x y 0)) | None \<Rightarrow> None))
      | _ \<Rightarrow> None)"

fun b64_groups :: "string \<Rightarrow> string option" where
  "b64_groups (a # b # c # d # rest) =
     (if d = CHR ''='' then (if rest = [] then b64_padded a b c else None)
      else (case b64_quantum a b c d of
              None \<Rightarrow> None
            | Some bs \<Rightarrow> map_option ((@) bs) (b64_groups rest)))"
| "b64_groups s = (if s = [] then Some [] else None)"

definition b64_decode :: "string \<Rightarrow> string result" where
  "b64_decode s =
     (case b64_groups (filter (\<lambda>c. c \<noteq> CHR 0x0A \<and> c \<noteq> CHR 0x0D) s) of
        None \<Rightarrow> Inl (GoError ''illegal base64 data'')
      | Some bs \<Rightarrow> Inr bs)"

subsection \<open>Reading what an encoder writes\<close>

definition b64_digit :: "nat \<Rightarrow> char" where
  "b64_digit n =
     char_of (if n < 26 then n + 65 else if n < 52 then n + 71 else if n < 62 then n - 4
              else if n = 62 then 43 else (47 :: nat))"

fun b64_encode :: "string \<Rightarrow> string" where
  "b64_encode [] = []"
| "b64_encode [a] =
     (let x = (of_char a :: nat)
      in [b64_digit (x div 4), b64_digit (16 * (x mod 4)), CHR ''='', CHR ''=''])"
| "b64_encode [a, b] =
     (let x = (of_char a :: nat); y = (of_char b :: nat)
      in [b64_digit (x div 4), b64_digit (16 * (x mod 4) + y div 16), b64_digit (4 * (y mod 16)), CHR ''=''])"
| "b64_encode (a # b # c # rest) =
     (let x = (of_char a :: nat); y = (of_char b :: nat); z = (of_char c :: nat)
      in b64_digit (x div 4) # b64_digit (16 * (x mod 4) + y div 16) #
         b64_digit (4 * (y mod 16) + z div 64) # b64_digit (z mod 64) # b64_encode rest)"

lemma b64_val_digit [simp]: "n < 64 \<Longrightarrow> b64_val (b64_digit n) = Some n"
proof -
  assume "n < 64"
  then consider "n < 26" | "26 \<le> n \<and> n < 52" | "52 \<le> n \<and> n < 62" | "n = 62" | "n = 63" by linarith
  moreover have "(n - 4) mod 256 = n - 4" using \<open>n < 64\<close> by simp
  ultimately show ?thesis by cases (simp_all add: b64_val_def b64_digit_def Let_def, linarith?)
qed

lemma b64_digit_plain:
  "n < 64 \<Longrightarrow> b64_digit n \<noteq> CHR ''='' \<and> b64_digit n \<noteq> CHR 0x0A \<and> b64_digit n \<noteq> CHR 0x0D"
  using b64_val_digit [of n] by (auto simp: b64_val_def)

text \<open>The six-bit values of three bytes, and the bytes again.\<close>

lemma b64_sixths:
  fixes x y z :: nat
  assumes "x < 256" and "y < 256" and "z < 256"
  shows "x div 4 < 64" and "16 * (x mod 4) + y div 16 < 64" and "4 * (y mod 16) + z div 64 < 64"
    and "z mod 64 < 64"
proof -
  have "x mod 4 < 4" "y div 16 < 16" "y mod 16 < 16" "z div 64 < 4"
    using assms by (simp_all add: less_mult_imp_div_less)
  then show "16 * (x mod 4) + y div 16 < 64" "4 * (y mod 16) + z div 64 < 64" by linarith+
  show "x div 4 < 64" "z mod 64 < 64" using assms by (simp_all add: less_mult_imp_div_less)
qed

lemma b64_join:
  fixes x y z :: nat
  assumes "y < 256" and "z < 256"
  shows "4 * (x div 4) + (16 * (x mod 4) + y div 16) div 16 = x"
    and "16 * ((16 * (x mod 4) + y div 16) mod 16) + (4 * (y mod 16) + z div 64) div 4 = y"
    and "64 * ((4 * (y mod 16) + z div 64) mod 4) + z mod 64 = z"
proof -
  have b: "y div 16 < 16" "z div 64 < 4" using assms by (simp_all add: less_mult_imp_div_less)
  have "(16 * (x mod 4) + y div 16) div 16 = x mod 4" "(16 * (x mod 4) + y div 16) mod 16 = y div 16"
    "(4 * (y mod 16) + z div 64) div 4 = y mod 16" "(4 * (y mod 16) + z div 64) mod 4 = z div 64"
    using b by simp_all
  then show "4 * (x div 4) + (16 * (x mod 4) + y div 16) div 16 = x"
    "16 * ((16 * (x mod 4) + y div 16) mod 16) + (4 * (y mod 16) + z div 64) div 4 = y"
    "64 * ((4 * (y mod 16) + z div 64) mod 4) + z mod 64 = z"
    by (simp_all only: mult_div_mod_eq)
qed

lemma b64_encode_plain: "filter (\<lambda>c. c \<noteq> CHR 0x0A \<and> c \<noteq> CHR 0x0D) (b64_encode s) = b64_encode s"
proof (induction s rule: b64_encode.induct)
  case (2 a)
  have "of_char a < (256 :: nat)" by simp
  from b64_sixths [OF this, of 0 0] show ?case by (simp add: Let_def b64_digit_plain)
next
  case (3 a b)
  have "of_char a < (256 :: nat)" "of_char b < (256 :: nat)" by simp_all
  from b64_sixths [OF this, of 0] show ?case by (simp add: Let_def b64_digit_plain)
next
  case (4 a b c rest)
  have "of_char a < (256 :: nat)" "of_char b < (256 :: nat)" "of_char c < (256 :: nat)" by simp_all
  from b64_sixths [OF this] show ?case using 4 by (simp add: Let_def b64_digit_plain)
qed simp

lemma b64_encode_broken:
  "filter (\<lambda>c. c \<noteq> CHR 0x0A \<and> c \<noteq> CHR 0x0D) (take k (b64_encode s) @ CHR 0x0A # drop k (b64_encode s)) =
   b64_encode s"
proof -
  let ?P = "\<lambda>c. c \<noteq> CHR 0x0A \<and> c \<noteq> CHR 0x0D"
  have "filter ?P (take k (b64_encode s)) @ filter ?P (drop k (b64_encode s)) = b64_encode s"
    by (simp only: filter_append [symmetric] append_take_drop_id b64_encode_plain)
  then show ?thesis by simp
qed

lemma b64_groups_encode: "b64_groups (b64_encode s) = Some s"
proof (induction s rule: b64_encode.induct)
  case 1
  then show ?case by simp
next
  case (2 a)
  let ?x = "of_char a :: nat"
  have x: "?x < 256" by simp
  note lt = b64_sixths [OF x, of 0 0]
  show ?case
    using b64_val_digit [OF lt(1)] b64_val_digit [OF lt(2)] b64_join(1) [where x = ?x and y = 0 and z = 0]
    by (simp add: Let_def b64_padded_def b64_bytes_def)
next
  case (3 a b)
  let ?x = "of_char a :: nat" and ?y = "of_char b :: nat"
  have x: "?x < 256" "?y < 256" by simp_all
  note lt = b64_sixths [OF x, of 0]
  have "4 * (?y mod 16) < 64" using lt(3) by simp
  then show ?case
    using b64_digit_plain [of "4 * (?y mod 16)"] b64_val_digit [OF lt(1)] b64_val_digit [OF lt(2)]
      b64_val_digit [of "4 * (?y mod 16)"] b64_join(1) [OF x(2), of 0 ?x] b64_join(2) [OF x(2), of 0 ?x]
    by (simp add: Let_def b64_padded_def b64_bytes_def)
next
  case (4 a b c rest)
  let ?x = "of_char a :: nat" and ?y = "of_char b :: nat" and ?z = "of_char c :: nat"
  have x: "?x < 256" "?y < 256" "?z < 256" by simp_all
  note lt = b64_sixths [OF x] and join = b64_join(1) [OF x(2,3), of ?x] b64_join(2) [OF x(2,3), of ?x] b64_join(3) [OF x(2,3)]
  have "b64_quantum (b64_digit (?x div 4)) (b64_digit (16 * (?x mod 4) + ?y div 16))
      (b64_digit (4 * (?y mod 16) + ?z div 64)) (b64_digit (?z mod 64)) = Some [a, b, c]"
    unfolding b64_quantum_def b64_val_digit [OF lt(1)] b64_val_digit [OF lt(2)]
      b64_val_digit [OF lt(3)] b64_val_digit [OF lt(4)] prod.case option.case b64_bytes_def join
    by simp
  then show ?case using 4 b64_digit_plain [OF lt(4)] by (simp add: Let_def)
qed

text \<open>Also when the text was broken into lines.\<close>

lemma b64_decode_encode:
  assumes "filter (\<lambda>c. c \<noteq> CHR 0x0A \<and> c \<noteq> CHR 0x0D) t = b64_encode s"
  shows "b64_decode t = Inr s"
  using assms by (simp add: b64_decode_def b64_groups_encode)

end
