(* ===== verification/GoGzip.thy ===== *)
theory GoGzip
  imports GoStrings "HOL-Library.Word"
begin

section \<open>\<open>compress/gzip\<close>\<close>

text \<open>
  What \<open>ioutil.ReadAll\<close> gets from a \<open>gzip.Reader\<close>: the members of the file one after the
  other, their headers, the three kinds of blocks of the compressed data, and the check of
  length and CRC.  Bits are taken from each byte lowest first.  Where the library tells
  errors apart (a corrupt input, one that ends too early, a wrong check sum), here there is
  one: the program only logs it.
\<close>

subsection \<open>Bits and bytes\<close>

definition byte_bits :: "char \<Rightarrow> bool list" where
  "byte_bits c = (case c of Char b0 b1 b2 b3 b4 b5 b6 b7 \<Rightarrow> [b0, b1, b2, b3, b4, b5, b6, b7])"

definition bits_of :: "string \<Rightarrow> bool list" where
  "bits_of s = concat (map byte_bits s)"

fun bytes_of :: "bool list \<Rightarrow> string" where
  "bytes_of (b0 # b1 # b2 # b3 # b4 # b5 # b6 # b7 # bs) = Char b0 b1 b2 b3 b4 b5 b6 b7 # bytes_of bs"
| "bytes_of bs = []"

definition bits_num :: "bool list \<Rightarrow> nat" where
  "bits_num bs = horner_sum of_bool 2 bs"

definition take_num :: "nat \<Rightarrow> bool list \<Rightarrow> (nat \<times> bool list) option" where
  "take_num n bs = (if length bs < n then None else Some (bits_num (take n bs), drop n bs))"

text \<open>The rest from the next byte on, in data that are whole bytes.\<close>

definition align :: "bool list \<Rightarrow> bool list" where
  "align bs = drop (length bs mod 8) bs"

subsection \<open>Huffman codes\<close>

text \<open>
  A code as the table of its words, each with its symbol; a step into the table with one
  bit; decoding of one symbol, which takes a bit at least.
\<close>

type_synonym huffman = "(bool list \<times> nat) list"

fun huff_branch :: "bool \<Rightarrow> huffman \<Rightarrow> huffman" where
  "huff_branch b [] = []"
| "huff_branch b (([], s) # t) = huff_branch b t"
| "huff_branch b ((d # c, s) # t) = (if d = b then (c, s) # huff_branch b t else huff_branch b t)"

fun huff_sym :: "huffman \<Rightarrow> bool list \<Rightarrow> (nat \<times> bool list) option" where
  "huff_sym t [] = None"
| "huff_sym t (b # bs) =
     (let u = huff_branch b t
      in case map_of u [] of Some s \<Rightarrow> Some (s, bs) | None \<Rightarrow> huff_sym u bs)"

lemma huff_sym_shorter: "huff_sym t bs = Some (s, r) \<Longrightarrow> length r < length bs"
  by (induction t bs rule: huff_sym.induct) (auto simp: Let_def split: option.splits)

text \<open>
  The canonical code of a list of lengths (0: no word): words of one length count up in the
  order of their symbols, from the number that follows the shorter ones.  It must be
  complete, empty, or have a single word of length one.
\<close>

definition first_code :: "nat list \<Rightarrow> nat \<Rightarrow> nat" where
  "first_code ls l = (\<Sum>k \<leftarrow> [1..<l]. count_list ls k * 2 ^ (l - k))"

definition msb_bits :: "nat \<Rightarrow> nat \<Rightarrow> bool list" where
  "msb_bits w n = rev (map (bit n) [0..<w])"

fun huff_words :: "nat list \<Rightarrow> nat list \<Rightarrow> nat list \<Rightarrow> huffman" where
  "huff_words ls seen [] = []"
| "huff_words ls seen (l # rest) =
     (let t = huff_words ls (seen @ [l]) rest
      in if l = 0 then t
         else (msb_bits l (first_code ls l + count_list seen l), length seen) # t)"

definition huff_init :: "nat list \<Rightarrow> huffman option" where
  "huff_init ls =
     (let m = fold max ls 0; code = first_code ls m + count_list ls m
      in if m = 0 then Some []
         else if code = 2 ^ m \<or> (code = 1 \<and> m = 1) then Some (huff_words ls [] ls) else None)"

definition fixed_lit :: huffman where
  "fixed_lit = (let ls = replicate 144 8 @ replicate 112 9 @ replicate 24 7 @ replicate 8 8
                in huff_words ls [] ls)"

definition fixed_dist :: huffman where
  "fixed_dist = (let ls = replicate 32 5 in huff_words ls [] ls)"

subsection \<open>Compressed data\<close>

text \<open>The output so far is kept in reverse; a match copies from so far back.\<close>

fun copy_back :: "nat \<Rightarrow> nat \<Rightarrow> string \<Rightarrow> string" where
  "copy_back 0 d out = out"
| "copy_back (Suc n) d out = copy_back n d (out ! (d - 1) # out)"

text \<open>The base of a length symbol and the number of extra bits.\<close>

definition length_code :: "nat \<Rightarrow> (nat \<times> nat) option" where
  "length_code v =
     (if v < 265 then Some (v - (257 - 3), 0)
      else if v < 269 then Some (v * 2 - (265 * 2 - 11), 1)
      else if v < 273 then Some (v * 4 - (269 * 4 - 19), 2)
      else if v < 277 then Some (v * 8 - (273 * 8 - 35), 3)
      else if v < 281 then Some (v * 16 - (277 * 16 - 67), 4)
      else if v < 285 then Some (v * 32 - (281 * 32 - 131), 5)
      else if v < 286 then Some (258, 0) else None)"

definition read_length :: "nat \<Rightarrow> bool list \<Rightarrow> (nat \<times> bool list) option" where
  "read_length v bs =
     (case length_code v of
        None \<Rightarrow> None
      | Some (base, n) \<Rightarrow> map_option (\<lambda>(x, r). (base + x, r)) (take_num n bs))"

definition read_distance :: "huffman \<Rightarrow> bool list \<Rightarrow> (nat \<times> bool list) option" where
  "read_distance dh bs =
     (case huff_sym dh bs of
        None \<Rightarrow> None
      | Some (d, r) \<Rightarrow>
          if d < 4 then Some (d + 1, r)
          else if d < 30 then
            (let nb = (d - 2) div 2
             in map_option (\<lambda>(x, r'). (2 ^ (nb + 1) + 1 + ((d mod 2) * 2 ^ nb + x), r')) (take_num nb r))
          else None)"

lemma take_num_length: "take_num n bs = Some (x, r) \<Longrightarrow> length r \<le> length bs"
  by (auto simp: take_num_def split: if_splits)

lemma read_length_length: "read_length v bs = Some (x, r) \<Longrightarrow> length r \<le> length bs"
  by (auto simp: read_length_def split: option.splits dest: take_num_length)

lemma read_distance_length: "read_distance dh bs = Some (x, r) \<Longrightarrow> length r \<le> length bs"
  by (fastforce simp: read_distance_def Let_def split: option.splits if_splits
      dest: take_num_length huff_sym_shorter)

function inflate_codes ::
  "huffman \<Rightarrow> huffman \<Rightarrow> bool list \<Rightarrow> string \<Rightarrow> (string \<times> bool list) option" where
  "inflate_codes lh dh bs out =
     (case huff_sym lh bs of
        None \<Rightarrow> None
      | Some (v, r) \<Rightarrow>
          if v < 256 then inflate_codes lh dh r (char_of v # out)
          else if v = 256 then Some (out, r)
          else
            (case read_length v r of
               None \<Rightarrow> None
             | Some (len, r1) \<Rightarrow>
                 (case read_distance dh r1 of
                    None \<Rightarrow> None
                  | Some (dist, r2) \<Rightarrow>
                      if length out < dist then None
                      else inflate_codes lh dh r2 (copy_back len dist out))))"
  by pat_completeness auto
termination
  by (relation "measure (\<lambda>(lh, dh, bs, out). length bs)")
    (auto dest!: huff_sym_shorter read_length_length read_distance_length)

declare inflate_codes.simps [simp del]

text \<open>The code lengths of a dynamic block: so many, with the repetitions.\<close>

definition repetition :: "nat \<Rightarrow> nat list \<Rightarrow> bool list \<Rightarrow> (nat list \<times> bool list) option" where
  "repetition x acc bs =
     (if x < 16 then Some ([x], bs)
      else if x = 16 \<and> acc = [] then None
      else
        (let (rep, nb, b) = (if x = 16 then (3, 2, last acc) else if x = 17 then (3, 3, 0) else (11, 7, 0))
         in map_option (\<lambda>(k, r). (replicate (rep + k) b, r)) (take_num nb bs)))"

lemma repetition_length: "repetition x acc bs = Some (ls, r) \<Longrightarrow> length r \<le> length bs"
  by (auto simp: repetition_def Let_def split: if_splits dest: take_num_length)

function code_lengths :: "huffman \<Rightarrow> nat \<Rightarrow> nat list \<Rightarrow> bool list \<Rightarrow> (nat list \<times> bool list) option" where
  "code_lengths h n acc bs =
     (if n \<le> length acc then Some (acc, bs)
      else
        (case huff_sym h bs of
           None \<Rightarrow> None
         | Some (x, r) \<Rightarrow>
             (case repetition x acc r of
                None \<Rightarrow> None
              | Some (ls, r1) \<Rightarrow>
                  if n < length acc + length ls then None else code_lengths h n (acc @ ls) r1)))"
  by pat_completeness auto
termination
  by (relation "measure (\<lambda>(h, n, acc, bs). length bs)") (auto dest!: huff_sym_shorter repetition_length)

declare code_lengths.simps [simp del]

definition code_order :: "nat list" where
  "code_order = [16, 17, 18, 0, 8, 7, 9, 6, 10, 5, 11, 4, 12, 3, 13, 2, 14, 1, 15]"

fun take_nums :: "nat \<Rightarrow> nat \<Rightarrow> bool list \<Rightarrow> (nat list \<times> bool list) option" where
  "take_nums 0 w bs = Some ([], bs)"
| "take_nums (Suc k) w bs =
     (case take_num w bs of
        None \<Rightarrow> None
      | Some (x, r) \<Rightarrow> map_option (\<lambda>(xs, r'). (x # xs, r')) (take_nums k w r))"

text \<open>The two codes at the head of a dynamic block.\<close>

definition read_huffman :: "bool list \<Rightarrow> ((huffman \<times> huffman) \<times> bool list) option" where
  "read_huffman bs =
     (if length bs < 14 then None
      else
        (let nlit = bits_num (take 5 bs) + 257;
             ndist = bits_num (take 5 (drop 5 bs)) + 1;
             nclen = bits_num (take 4 (drop 10 bs)) + 4
         in if 286 < nlit \<or> 30 < ndist then None
            else
              (case take_nums nclen 3 (drop 14 bs) of
                 None \<Rightarrow> None
               | Some (ns, r) \<Rightarrow>
                   (case huff_init (map (\<lambda>i. case map_of (zip code_order ns) i of None \<Rightarrow> 0 | Some l \<Rightarrow> l) [0..<19]) of
                      None \<Rightarrow> None
                    | Some h \<Rightarrow>
                        (case code_lengths h (nlit + ndist) [] r of
                           None \<Rightarrow> None
                         | Some (ls, r1) \<Rightarrow>
                             (case (huff_init (take nlit ls), huff_init (drop nlit ls)) of
                                (Some lh, Some dh) \<Rightarrow> Some ((lh, dh), r1)
                              | _ \<Rightarrow> None))))))"

definition stored_block :: "bool list \<Rightarrow> string \<Rightarrow> (string \<times> bool list) option" where
  "stored_block bs out =
     (let a = align bs; n = bits_num (take 16 a); d = drop 32 a
      in if length a < 32 \<or> take 16 (drop 16 a) \<noteq> map Not (take 16 a) \<or> length d < 8 * n then None
         else Some (rev (bytes_of (take (8 * n) d)) @ out, drop (8 * n) d))"

definition inflate_block :: "nat \<Rightarrow> bool list \<Rightarrow> string \<Rightarrow> (string \<times> bool list) option" where
  "inflate_block type bs out =
     (if type = 0 then stored_block bs out
      else if type = 1 then inflate_codes fixed_lit fixed_dist bs out
      else if type = 2 then
        (case read_huffman bs of
           None \<Rightarrow> None
         | Some ((lh, dh), r) \<Rightarrow> inflate_codes lh dh r out)
      else None)"

lemma inflate_codes_length: "inflate_codes lh dh bs out = Some (o', r) \<Longrightarrow> length r \<le> length bs"
proof (induction lh dh bs out rule: inflate_codes.induct)
  case (1 lh dh bs out)
  note rec = 1(3) [unfolded inflate_codes.simps [of lh dh bs out]]
  obtain v q where q: "huff_sym lh bs = Some (v, q)" using rec by (auto split: option.splits)
  note shorter = huff_sym_shorter [OF q]
  consider "v < 256" | "v = 256" | "256 < v" by linarith
  then show ?case
  proof cases
    case 1
    then show ?thesis using "1.IH"(1) [OF q refl] rec q shorter by fastforce
  next
    case 2
    then show ?thesis using rec q shorter by simp
  next
    case 3
    then obtain len r1 dist r2 where l: "read_length v q = Some (len, r1)"
      "read_distance dh r1 = Some (dist, r2)" "\<not> length out < dist"
      "inflate_codes lh dh r2 (copy_back len dist out) = Some (o', r)"
      using rec q by (auto split: option.splits if_splits)
    have "length r \<le> length r2"
      using "1.IH"(2) [OF q refl _ _ l(1) refl l(2) refl l(3)] l(4) 3 by simp
    then show ?thesis
      using shorter read_length_length [OF l(1)] read_distance_length [OF l(2)] by linarith
  qed
qed

lemma code_lengths_length: "code_lengths h n acc bs = Some (ls, r) \<Longrightarrow> length r \<le> length bs"
proof (induction h n acc bs rule: code_lengths.induct)
  case (1 h n acc bs)
  note rec = 1(2) [unfolded code_lengths.simps [of h n acc bs]]
  show ?case
  proof (cases "n \<le> length acc")
    case True
    then show ?thesis using rec by simp
  next
    case False
    then obtain x q ks r1 where q: "huff_sym h bs = Some (x, q)" "repetition x acc q = Some (ks, r1)"
      "\<not> n < length acc + length ks" "code_lengths h n (acc @ ks) r1 = Some (ls, r)"
      using rec by (auto split: option.splits if_splits)
    have "length r \<le> length r1" using 1(1) [OF False q(1) refl q(2) refl q(3,4)] .
    then show ?thesis using huff_sym_shorter [OF q(1)] repetition_length [OF q(2)] by linarith
  qed
qed

lemma take_nums_length: "take_nums k w bs = Some (xs, r) \<Longrightarrow> length r \<le> length bs"
  by (induction k w bs arbitrary: xs r rule: take_nums.induct)
    (fastforce split: option.splits dest: take_num_length)+

lemma read_huffman_length: "read_huffman bs = Some (h, r) \<Longrightarrow> length r \<le> length bs"
  by (fastforce simp: read_huffman_def Let_def split: option.splits if_splits
      dest: take_nums_length code_lengths_length)

lemma inflate_block_length: "inflate_block type bs out = Some (o', r) \<Longrightarrow> length r \<le> length bs"
  by (fastforce simp: inflate_block_def stored_block_def align_def Let_def
      split: option.splits if_splits dest: read_huffman_length inflate_codes_length)

function inflate :: "bool list \<Rightarrow> string \<Rightarrow> (string \<times> bool list) option" where
  "inflate bs out =
     (if length bs < 3 then None
      else
        (case inflate_block (bits_num (take 2 (tl bs))) (drop 3 bs) out of
           None \<Rightarrow> None
         | Some (o', r) \<Rightarrow> if hd bs then Some (o', r) else inflate r o'))"
  by pat_completeness auto
termination
  by (relation "measure (\<lambda>(bs, out). length bs)") (auto dest!: inflate_block_length)

declare inflate.simps [simp del]

lemma inflate_length: "inflate bs out = Some (o', r) \<Longrightarrow> length r \<le> length bs"
proof (induction bs out rule: inflate.induct)
  case (1 bs out)
  note rec = 1(2) [unfolded inflate.simps [of bs out]]
  then obtain o1 r1 where b: "\<not> length bs < 3"
    "inflate_block (bits_num (take 2 (tl bs))) (drop 3 bs) out = Some (o1, r1)"
    by (auto split: if_splits option.splits)
  have "length r1 \<le> length bs" using inflate_block_length [OF b(2)] by simp
  then show ?case
    using 1(1) [OF b refl] rec b by (auto split: if_splits)
qed

subsection \<open>Files\<close>

text \<open>CRC-32 in its reflected form.\<close>

definition crc_bit :: "32 word \<Rightarrow> 32 word" where
  "crc_bit c = (if bit c 0 then Bit_Operations.xor (drop_bit 1 c) 0xEDB88320 else drop_bit 1 c)"

definition crc_byte :: "char \<Rightarrow> 32 word \<Rightarrow> 32 word" where
  "crc_byte b c = (crc_bit ^^ 8) (Bit_Operations.xor c (of_char b))"

definition crc32 :: "string \<Rightarrow> 32 word" where
  "crc32 s = Bit_Operations.not (fold crc_byte s (Bit_Operations.not 0))"

definition word_bits :: "32 word \<Rightarrow> bool list" where
  "word_bits w = map (bit w) [0..<32]"

text \<open>A member's header: what follows it, for each of the optional parts its flags announce.\<close>

definition skip_extra :: "bool \<Rightarrow> string \<Rightarrow> string option" where
  "skip_extra flag s =
     (if \<not> flag then Some s
      else if length s < 2 then None
      else (let n = bits_num (bits_of (take 2 s))
            in if length s < 2 + n then None else Some (drop (2 + n) s)))"

definition skip_text :: "bool \<Rightarrow> string \<Rightarrow> string option" where
  "skip_text flag s =
     (if \<not> flag then Some s
      else (let n = length (takeWhile (\<lambda>c. c \<noteq> CHR 0x00) s)
            in if 511 < n \<or> n = length s then None else Some (drop (Suc n) s)))"

definition skip_header_crc :: "bool \<Rightarrow> string \<Rightarrow> string \<Rightarrow> string option" where
  "skip_header_crc flag whole s =
     (if \<not> flag then Some s
      else if length s < 2 then None
      else if bits_of (take 2 s) = take 16 (word_bits (crc32 (take (length whole - length s) whole)))
      then Some (drop 2 s) else None)"

definition read_header :: "string \<Rightarrow> string option" where
  "read_header s =
     (if length s < 10 \<or> take 3 s \<noteq> [CHR 0x1F, CHR 0x8B, CHR 0x08] then None
      else
        (let flags = byte_bits (s ! 3)
         in Option.bind (skip_extra (flags ! 2) (drop 10 s)) (\<lambda>s1.
            Option.bind (skip_text (flags ! 3) s1) (\<lambda>s2.
            Option.bind (skip_text (flags ! 4) s2) (\<lambda>s3.
            skip_header_crc (flags ! 1) s s3)))))"

text \<open>One member: its content and what follows it.\<close>

definition read_member :: "string \<Rightarrow> (string \<times> string) option" where
  "read_member s =
     (case read_header s of
        None \<Rightarrow> None
      | Some data \<Rightarrow>
          (case inflate (bits_of data) [] of
             None \<Rightarrow> None
           | Some (out, r) \<Rightarrow>
               (let t = bytes_of (align r); content = rev out
                in if length t < 8 \<or>
                      bits_of (take 4 t) \<noteq> word_bits (crc32 content) \<or>
                      bits_of (take 4 (drop 4 t)) \<noteq> word_bits (of_nat (length content)) then None
                   else Some (content, drop 8 t))))"

lemma length_bits_of [simp]: "length (bits_of s) = 8 * length s"
  by (induction s) (simp_all add: bits_of_def byte_bits_def split: char.splits)

lemma length_bytes_of: "length (bytes_of bs) = length bs div 8"
  by (induction bs rule: bytes_of.induct) simp_all

lemma skip_shorter:
  "skip_extra flag s = Some r \<Longrightarrow> length r \<le> length s"
  "skip_text flag s = Some r \<Longrightarrow> length r \<le> length s"
  "skip_header_crc flag whole s = Some r \<Longrightarrow> length r \<le> length s"
  by (auto simp: skip_extra_def skip_text_def skip_header_crc_def Let_def split: if_splits)

lemma read_header_shorter: "read_header s = Some r \<Longrightarrow> length r < length s"
  by (fastforce simp: read_header_def Let_def Option.bind_eq_Some_conv split: if_splits dest: skip_shorter)

lemma read_member_shorter: "read_member s = Some (c, r) \<Longrightarrow> length r < length s"
proof -
  assume "read_member s = Some (c, r)"
  then obtain data out b where r: "read_header s = Some data" "inflate (bits_of data) [] = Some (out, b)"
    "r = drop 8 (bytes_of (align b))"
    by (auto simp: read_member_def Let_def split: option.splits if_splits)
  have "length b \<le> 8 * length data" using inflate_length [OF r(2)] by simp
  then show ?thesis
    using read_header_shorter [OF r(1)] by (simp add: r(3) length_bytes_of align_def)
qed

function read_members :: "string \<Rightarrow> string option" where
  "read_members s =
     (case read_member s of
        None \<Rightarrow> None
      | Some (c, r) \<Rightarrow> if r = [] then Some c else map_option ((@) c) (read_members r))"
  by pat_completeness auto
termination
  by (relation "measure length") (auto dest!: read_member_shorter)

declare read_members.simps [simp del]

definition gunzip :: "string \<Rightarrow> string result" where
  "gunzip s =
     (case read_members s of None \<Rightarrow> Inl (GoError ''gzip: invalid data'') | Some c \<Rightarrow> Inr c)"

subsection \<open>Files of stored blocks\<close>

text \<open>The plainest file with a given content: what a writer without compression makes.\<close>

definition num_bits :: "nat \<Rightarrow> bool list" where
  "num_bits n = map (bit n) [0..<16]"

definition stored :: "bool \<Rightarrow> string \<Rightarrow> string" where
  "stored final s =
     Char final False False False False False False False #
     bytes_of (num_bits (length s)) @ bytes_of (map Not (num_bits (length s))) @ s"

function stored_blocks :: "string \<Rightarrow> string" where
  "stored_blocks s =
     (if length s < 65536 then stored True s
      else stored False (take 65535 s) @ stored_blocks (drop 65535 s))"
  by pat_completeness auto
termination by (relation "measure length") auto

declare stored_blocks.simps [simp del]

definition gzip_stored :: "string \<Rightarrow> string" where
  "gzip_stored s =
     [CHR 0x1F, CHR 0x8B, CHR 0x08, CHR 0x00, CHR 0x00, CHR 0x00, CHR 0x00, CHR 0x00, CHR 0x00, CHR 0xFF] @
     stored_blocks s @ bytes_of (word_bits (crc32 s)) @ bytes_of (word_bits (of_nat (length s)))"

lemma bits_of_simps [simp]:
  "bits_of [] = []" "bits_of (c # s) = byte_bits c @ bits_of s" "bits_of (s @ t) = bits_of s @ bits_of t"
  by (simp_all add: bits_of_def)

lemma bytes_of_bits_of [simp]: "bytes_of (bits_of s) = s"
  by (induction s) (simp_all add: byte_bits_def split: char.splits)

lemma bits_of_bytes_of: "8 dvd length bs \<Longrightarrow> bits_of (bytes_of bs) = bs"
proof (induction bs rule: bytes_of.induct)
  case (1 b0 b1 b2 b3 b4 b5 b6 b7 bs)
  have "8 dvd length bs" using 1(2) by simp presburger
  then show ?case using 1(1) by (simp add: byte_bits_def)
qed (simp_all, presburger+)

lemma length_num_bits [simp]: "length (num_bits n) = 16"
  by (simp add: num_bits_def)

lemma bits_num_num_bits: "n < 65536 \<Longrightarrow> bits_num (num_bits n) = n"
  by (simp add: bits_num_def num_bits_def horner_sum_bit_eq_take_bit take_bit_nat_eq_self)

lemma align_bytes [simp]: "align (bits_of s) = bits_of s"
  by (simp add: align_def)

lemma inflate_stored:
  assumes "length s < 65536"
  shows "inflate (bits_of (stored final s @ rest)) out =
    (if final then Some (rev s @ out, bits_of rest) else inflate (bits_of rest) (rev s @ out))"
proof -
  let ?n = "num_bits (length s)"
  let ?x = "?n @ map Not ?n @ bits_of s @ bits_of rest"
  have "byte_bits (Char final False False False False False False False) =
      final # False # False # replicate 5 False"
    by (simp add: byte_bits_def numeral_eq_Suc)
  then have bits: "bits_of (stored final s @ rest) = final # False # False # replicate 5 False @ ?x"
    by (simp add: stored_def bits_of_bytes_of)
  have "length (replicate 5 False @ ?x) = 5 + 8 * (4 + length s + length rest)"
    by (simp add: algebra_simps)
  then have "length (replicate 5 False @ ?x) mod 8 = 5" by (simp only: mod_mult_self2) simp
  then have "align (replicate 5 False @ ?x) = ?x" by (simp only: align_def) simp
  then have "stored_block (replicate 5 False @ ?x) out = Some (rev s @ out, bits_of rest)"
    using assms by (simp add: stored_block_def Let_def bits_num_num_bits)
  moreover have "inflate (final # False # False # y) out =
      (case stored_block y out of None \<Rightarrow> None
       | Some (o', r) \<Rightarrow> if final then Some (o', r) else inflate r o')" for y
    by (subst inflate.simps) (simp add: inflate_block_def bits_num_def split: option.split)
  ultimately show ?thesis by (simp only: bits option.case prod.case)
qed

lemma inflate_stored_blocks:
  "inflate (bits_of (stored_blocks s @ rest)) out = Some (rev s @ out, bits_of rest)"
proof (induction s arbitrary: out rule: stored_blocks.induct)
  case (1 s)
  show ?case
  proof (cases "length s < 65536")
    case True
    then show ?thesis using inflate_stored [of s True rest out] by (simp add: stored_blocks.simps [of s])
  next
    case False
    have "rev (drop 65535 s) @ rev (take 65535 s) = rev s" by (metis append_take_drop_id rev_append)
    then show ?thesis
      using inflate_stored [of "take 65535 s" False "stored_blocks (drop 65535 s) @ rest" out]
        1 [OF False, of "rev (take 65535 s) @ out"] False
      by (simp add: stored_blocks.simps [of s])
  qed
qed

lemma length_word_bits [simp]: "length (word_bits w) = 32"
  by (simp add: word_bits_def)

lemma gunzip_gzip_stored: "gunzip (gzip_stored s) = Inr s"
proof -
  define t where "t = bytes_of (word_bits (crc32 s)) @ bytes_of (word_bits (of_nat (length s)))"
  have len: "length (bytes_of (word_bits w)) = 4" for w by (simp add: length_bytes_of)
  have t: "length t = 8" "bits_of (take 4 t) = word_bits (crc32 s)"
    "bits_of (take 4 (drop 4 t)) = word_bits (of_nat (length s))"
    by (simp_all add: t_def len bits_of_bytes_of)
  have "read_header (gzip_stored s) = Some (stored_blocks s @ t)"
    by (simp add: read_header_def gzip_stored_def skip_extra_def skip_text_def skip_header_crc_def
        byte_bits_def Let_def numeral_eq_Suc t_def)
  moreover have "inflate (bits_of (stored_blocks s @ t)) [] = Some (rev s, bits_of t)"
    using inflate_stored_blocks [of s t "[]"] by simp
  ultimately have "read_member (gzip_stored s) = Some (s, [])"
    using t by (simp add: read_member_def Let_def)
  then show ?thesis by (simp add: gunzip_def read_members.simps)
qed

end
