(* ===== verification/TgcPairing.thy ===== *)
theory TgcPairing
  imports Interfaces UtilConfig SourceJson GoBase64 GoGzip "HOL-Library.Multiset"
begin

section \<open>The pairing configuration (\<open>handleAddNetBatConfigMap\<close> and below, \<open>pkg/tgc/tgc.go\<close>)\<close>

text \<open>
  How the controller reads the \<open>net-bat-pairing\<close> config map: one line per pair, the source
  as a JSON object in quotes, then the destination, the traffic profile and the scenario.
  Lines for other pods are skipped, the source's interface and address are looked up, the
  pairs are grouped by the text of their source, and one pair of each group is kept.

  The draws of \<open>rand.Intn\<close> and the iteration order of the map of groups are arguments.
\<close>

record pairing_env =
  pe_intn :: "nat \<Rightarrow> nat \<Rightarrow> nat" \<comment> \<open>the k-th draw of \<open>rand.Intn(n)\<close>\<close>
  pe_group_order :: "(string \<times> bat_pair list) list \<Rightarrow> (string \<times> bat_pair list) list"

text \<open>The documented behaviour of \<open>rand.Intn\<close> and of \<open>range\<close> over a map.\<close>

definition choice_ok :: "pairing_env \<Rightarrow> bool" where
  "choice_ok pe \<longleftrightarrow>
     (\<forall>k n. 0 < n \<longrightarrow> pe_intn pe k n < n) \<and> (\<forall>g. mset (pe_group_order pe g) = mset g)"

text \<open>The pod a controller runs in, and what it found of its interfaces.\<close>

record pod_ctx =
  pc_namespace :: string
  pc_pod_name :: string
  pc_net_ifs :: "string \<rightharpoonup> string" \<comment> \<open>network name to interface name\<close>
  pc_addrs :: "string \<rightharpoonup> string" \<comment> \<open>interface name to address\<close>

definition net_if_names :: "interface_data list \<Rightarrow> (string \<rightharpoonup> string)" where
  "net_if_names ifs =
     fold (\<lambda>i m. m(ns_name (id_network_status i) \<mapsto> ns_interface (id_network_status i))) ifs (\<lambda>_. None)"

subsection \<open>One line\<close>

definition trim_slice :: "string list \<Rightarrow> string list" where
  "trim_slice strs = map (\<lambda>s. trim_both (\<lambda>c. c = CHR 0x22) (trim_space s)) strs"

definition source_text :: "string \<Rightarrow> string" where
  "source_text element =
     go_replace_all (trim_left (\<lambda>c. c = CHR 0x22) (trim_space element) @ ''}'') [CHR 0x27] [CHR 0x22]"

definition source_matches :: "pod_ctx \<Rightarrow> source \<Rightarrow> bool" where
  "source_matches pc src =
     (let is_pod = equal_fold (src_type src) ''pod'';
          is_deployment = equal_fold (src_type src) ''deployment'';
          is_daemon_set = equal_fold (src_type src) ''daemonset''
      in if src_namespace src \<noteq> pc_namespace pc then False
         else if \<not> is_pod \<and> \<not> is_deployment \<and> \<not> is_daemon_set then False
         else if is_pod \<and> src_name src \<noteq> pc_pod_name pc then False
         else if (is_deployment \<or> is_daemon_set) \<and> \<not> has_prefix (pc_pod_name pc) (src_name src)
         then False
         else True)"

definition set_addr :: "pod_ctx \<Rightarrow> source \<Rightarrow> source" where
  "set_addr pc src =
     (case pc_addrs pc (src_interface src) of None \<Rightarrow> src | Some ip \<Rightarrow> src\<lparr>src_ip := ip\<rparr>)"

definition resolve_source :: "pod_ctx \<Rightarrow> source \<Rightarrow> source" where
  "resolve_source pc src =
     (if src_net src \<noteq> [] then
        (case pc_net_ifs pc (pc_namespace pc @ ''/'' @ src_net src) of
           None \<Rightarrow> src
         | Some ifn \<Rightarrow> set_addr pc (src\<lparr>src_interface := ifn\<rparr>))
      else if src_interface src \<noteq> [] then set_addr pc src
      else (case pc_addrs pc ''eth0'' of
              None \<Rightarrow> src
            | Some ip \<Rightarrow> src\<lparr>src_ip := ip, src_interface := ''eth0''\<rparr>))"

definition remote_pair :: "source \<Rightarrow> string \<Rightarrow> string \<Rightarrow> string \<Rightarrow> bat_pair" where
  "remote_pair src dest prof scen =
     \<lparr>bp_source = src,
      bp_destination = \<lparr>rem_is_dn = False, rem_name = dest, rem_ip = []\<rparr>,
      bp_traffic_profile = prof, bp_traffic_scenario = scen,
      bp_pending = (\<lambda>_. None), bp_client_connection = None\<rparr>"

text \<open>
  The body of the loop over the lines: nothing, or the text of the source and the pair.
\<close>

definition pairing_entry :: "pod_ctx \<Rightarrow> string \<Rightarrow> (string \<times> bat_pair) option go" where
  "pairing_entry pc line =
     (let pair = trim_space line
      in if pair = [] \<or> has_prefix pair ''#'' then Inr None
         else (let elements = go_split [CHR ''}'', CHR 0x22, CHR '',''] pair;
                   source_str = source_text (hd elements)
               in case json_unmarshal_source source_str of
                    Inl _ \<Rightarrow> Inr None
                  | Inr src \<Rightarrow>
                      if \<not> source_matches pc src then Inr None
                      else bindS (go_index elements 1) (\<lambda>rest.
                        (let fields = trim_slice (go_split '','' rest)
                         in bindS (go_index fields 0) (\<lambda>dest.
                            bindS (go_index fields 1) (\<lambda>prof.
                            bindS (go_index fields 2) (\<lambda>scen.
                              Inr (Some (source_str,
                                remote_pair (resolve_source pc src) dest prof scen)))))))))"

definition add_pair :: "string \<Rightarrow> bat_pair \<Rightarrow> (string \<times> bat_pair list) list \<Rightarrow> (string \<times> bat_pair list) list" where
  "add_pair k p pm =
     (case map_of pm k of
        Some ps \<Rightarrow> AList.update k (ps @ [p]) pm
      | None \<Rightarrow> AList.update k [p] pm)"

definition pairing_line ::
  "pod_ctx \<Rightarrow> string \<Rightarrow> (string \<times> bat_pair list) list
    \<Rightarrow> (string \<times> bat_pair list) list go" where
  "pairing_line pc line pm =
     bindS (pairing_entry pc line)
       (\<lambda>e. Inr (case e of None \<Rightarrow> pm | Some (k, p) \<Rightarrow> add_pair k p pm))"

text \<open>The choice of one pair per group, with the number of draws made so far.\<close>

fun choose_pairs :: "(nat \<Rightarrow> nat \<Rightarrow> nat) \<Rightarrow> nat \<Rightarrow> (string \<times> bat_pair list) list \<Rightarrow> bat_pair list" where
  "choose_pairs intn k [] = []"
| "choose_pairs intn k ((_, ps) # gs) =
     (if length ps = 1 then hd ps # choose_pairs intn k gs
      else ps ! intn k (length ps) # choose_pairs intn (Suc k) gs)"

subsection \<open>The config map\<close>

definition pairings_of_text :: "pairing_env \<Rightarrow> pod_ctx \<Rightarrow> string \<Rightarrow> bat_pair list go" where
  "pairings_of_text pe pc s =
     bindS (foldS (pairing_line pc) (go_split [CHR 0x0A] s) [])
       (\<lambda>pm. Inr (choose_pairs (pe_intn pe) 0 (pe_group_order pe pm)))"

text \<open>
  \<open>getAvailableNetBatPairings\<close>, on the results of its two calls that look at the pod.
\<close>

definition get_available_net_bat_pairings ::
  "pairing_env \<Rightarrow> interface_data list result go \<Rightarrow> if_map result go \<Rightarrow> string \<Rightarrow> string \<Rightarrow> string
    \<Rightarrow> bat_pair list result go" where
  "get_available_net_bat_pairings pe ifaces addrs namespace pod s =
     bindS ifaces (\<lambda>r. case r of
        Inl e \<Rightarrow> Inr (Inl e)
      | Inr ifs \<Rightarrow>
          bindS addrs (\<lambda>a. case a of
             Inl e \<Rightarrow> Inr (Inl e)
           | Inr m \<Rightarrow>
               bindS (pairings_of_text pe
                   \<lparr>pc_namespace = namespace, pc_pod_name = pod,
                    pc_net_ifs = net_if_names ifs, pc_addrs = map_of m\<rparr> s)
                 (\<lambda>pairs. Inr (Inr pairs))))"

definition pairing_text :: "config_map \<Rightarrow> string result" where
  "pairing_text cm =
     (case cm_data cm ''net-bat-pairing.cfg'' of
        Some val \<Rightarrow> Inr val
      | None \<Rightarrow>
          (case cm_data cm ''net-bat-pairing.cfg.gz'' of
             Some val \<Rightarrow> bindS (b64_decode val) gunzip
           | None \<Rightarrow> Inl (GoError ''no pairing config present'')))"

definition handle_add_net_bat_config_map ::
  "pairing_env \<Rightarrow> interface_data list result go \<Rightarrow> if_map result go \<Rightarrow> config_map \<Rightarrow> string \<Rightarrow> string
    \<Rightarrow> bat_pair list result go" where
  "handle_add_net_bat_config_map pe ifaces addrs cm namespace pod =
     (case pairing_text cm of
        Inl e \<Rightarrow> Inr (Inl e)
      | Inr s \<Rightarrow> get_available_net_bat_pairings pe ifaces addrs namespace pod s)"

subsection \<open>The groups\<close>

text \<open>The entries of the lines, in order.\<close>

definition entries :: "pod_ctx \<Rightarrow> string list \<Rightarrow> (string \<times> bat_pair) list" where
  "entries pc ls =
     concat (map (\<lambda>l. case pairing_entry pc l of Inr (Some e) \<Rightarrow> [e] | _ \<Rightarrow> []) ls)"

lemma entries_iff:
  "(k, p) \<in> set (entries pc ls) \<longleftrightarrow> (\<exists>l \<in> set ls. pairing_entry pc l = Inr (Some (k, p)))"
  by (induction ls) (auto simp: entries_def split: sum.splits option.splits)

lemma entries_keys:
  "fst ` set (entries pc ls) = {k. \<exists>l \<in> set ls. \<exists>p. pairing_entry pc l = Inr (Some (k, p))}"
proof (intro set_eqI iffI)
  fix k assume "k \<in> fst ` set (entries pc ls)"
  then obtain p where "(k, p) \<in> set (entries pc ls)" by force
  then show "k \<in> {k. \<exists>l \<in> set ls. \<exists>p. pairing_entry pc l = Inr (Some (k, p))}"
    unfolding entries_iff by blast
next
  fix k assume "k \<in> {k. \<exists>l \<in> set ls. \<exists>p. pairing_entry pc l = Inr (Some (k, p))}"
  then obtain p where "(k, p) \<in> set (entries pc ls)" unfolding entries_iff by blast
  then show "k \<in> fst ` set (entries pc ls)" by force
qed

text \<open>A map of groups that stands for a list of entries.\<close>

definition groups :: "(string \<times> bat_pair) list \<Rightarrow> (string \<times> bat_pair list) list \<Rightarrow> bool" where
  "groups es pm \<longleftrightarrow> distinct (keys pm) \<and>
     (\<forall>k. map_of pm k =
        (let ps = map snd (filter (\<lambda>e. fst e = k) es) in if ps = [] then None else Some ps))"

lemma groups_Nil [simp]: "groups [] []"
  by (simp add: groups_def)

lemma groups_add: "groups es pm \<Longrightarrow> groups (es @ [(k, p)]) (add_pair k p pm)"
  by (auto simp: groups_def add_pair_def go_maps Let_def split: option.splits if_splits)

lemma pairing_lines_groups:
  "foldS (pairing_line pc) ls pm = Inr pm' \<Longrightarrow> groups es pm \<Longrightarrow> groups (es @ entries pc ls) pm'"
proof (induction ls arbitrary: pm es)
  case Nil
  then show ?case by (simp add: entries_def)
next
  case (Cons l ls)
  obtain pm1 where l1: "pairing_line pc l pm = Inr pm1"
    and r1: "foldS (pairing_line pc) ls pm1 = Inr pm'"
    using Cons.prems(1) by (auto simp: go_bind)
  then obtain e where e: "pairing_entry pc l = Inr e"
    and p1: "pm1 = (case e of None \<Rightarrow> pm | Some (k, p) \<Rightarrow> add_pair k p pm)"
    by (auto simp: go_bind pairing_line_def)
  note rest = r1 [unfolded p1]
  show ?case
  proof (cases e)
    case None
    then show ?thesis using Cons.IH [of pm es] Cons.prems(2) e rest by (simp add: entries_def)
  next
    case (Some kp)
    then show ?thesis
      using Cons.IH [of "add_pair (fst kp) (snd kp) pm" "es @ [kp]"] Cons.prems(2) e rest
        groups_add [of es pm "fst kp" "snd kp"]
      by (simp add: entries_def case_prod_unfold)
  qed
qed

lemma groups_map_of:
  "groups es pm \<Longrightarrow> map_of pm k = Some ps \<longleftrightarrow>
     ps \<noteq> [] \<and> ps = map snd (filter (\<lambda>e. fst e = k) es)"
  by (auto simp: groups_def Let_def simp del: map_of_eq_Some_iff)

lemma groups_mem:
  assumes "groups es pm" and "(k, ps) \<in> set pm"
  shows "ps \<noteq> [] \<and> ps = map snd (filter (\<lambda>e. fst e = k) es)"
proof -
  have "distinct (keys pm)" using assms(1) by (simp only: groups_def)
  then have "map_of pm k = Some ps" using assms(2) by (rule map_of_is_SomeI)
  then show ?thesis by (rule groups_map_of [OF assms(1), THEN iffD1])
qed

lemma groups_keys:
  assumes "groups es pm"
  shows "set (keys pm) = fst ` set es"
proof -
  have "k \<in> set (keys pm) \<longleftrightarrow> k \<in> fst ` set es" for k
  proof -
    have "k \<notin> set (keys pm) \<longleftrightarrow> map snd (filter (\<lambda>e. fst e = k) es) = []"
      using assms by (simp only: map_of_None_keys [symmetric] groups_def Let_def) auto
    then show ?thesis by (force simp: filter_empty_conv)
  qed
  then show ?thesis by blast
qed

text \<open>Choosing from the groups gives one member of each.\<close>

lemma choose_pairs_members:
  assumes "\<forall>k n. 0 < n \<longrightarrow> intn k n < n" and "\<forall>g \<in> set gs. snd g \<noteq> []"
  shows "list_all2 (\<lambda>g p. p \<in> set (snd g)) gs (choose_pairs intn k gs)"
  using assms(2)
proof (induction gs arbitrary: k)
  case Nil
  then show ?case by simp
next
  case (Cons g gs)
  obtain t ps where g: "g = (t, ps)" by (cases g)
  then have "ps \<noteq> []" using Cons.prems by simp
  then show ?case
    using Cons assms(1) g by simp
qed

end
