(* ===== verification/PairingProps.thy ===== *)
theory PairingProps
  imports TgcPairing
begin

section \<open>What the pairing configuration gives\<close>

text \<open>
  The list of pairs against its specification: one pair for each source text among the
  lines for this pod, taken from one of that source's lines; what is known of each pair;
  and the lines on which the reader panics.
\<close>

subsection \<open>One pair per source\<close>

lemma pairings_of_text_groups:
  assumes "pairings_of_text pe pc s = Inr pairs"
  obtains pm where "groups (entries pc (go_split [CHR 0x0A] s)) pm"
    "pairs = choose_pairs (pe_intn pe) 0 (pe_group_order pe pm)"
proof -
  from assms obtain pm where
    "foldS (pairing_line pc) (go_split [CHR 0x0A] s) [] = Inr pm" and
    p: "pairs = choose_pairs (pe_intn pe) 0 (pe_group_order pe pm)"
    by (auto simp: pairings_of_text_def go_bind)
  then have "groups ([] @ entries pc (go_split [CHR 0x0A] s)) pm"
    using pairing_lines_groups groups_Nil by blast
  then show thesis using that p by simp
qed

lemma group_members:
  assumes "choice_ok pe" and "groups es pm"
  shows "list_all2 (\<lambda>k p. (k, p) \<in> set es) (keys (pe_group_order pe pm))
    (choose_pairs (pe_intn pe) 0 (pe_group_order pe pm))"
proof -
  let ?gs = "pe_group_order pe pm"
  have ms: "mset ?gs = mset pm" using assms(1) by (simp add: choice_ok_def)
  have mem: "snd g \<noteq> [] \<and> snd g = map snd (filter (\<lambda>e. fst e = fst g) es)" if "g \<in> set ?gs" for g
  proof (rule groups_mem [OF assms(2)])
    show "(fst g, snd g) \<in> set pm" using that mset_eq_setD [OF ms] by simp
  qed
  have "list_all2 (\<lambda>g p. p \<in> set (snd g)) ?gs (choose_pairs (pe_intn pe) 0 ?gs)"
  proof (rule choose_pairs_members)
    show "\<forall>k n. 0 < n \<longrightarrow> pe_intn pe k n < n" using assms(1) by (simp add: choice_ok_def)
    show "\<forall>g \<in> set ?gs. snd g \<noteq> []" using mem by blast
  qed
  then have "list_all2 (\<lambda>g p. (fst g, p) \<in> set es) ?gs (choose_pairs (pe_intn pe) 0 ?gs)"
  proof (rule list.rel_mono_strong)
    fix g p
    assume g: "g \<in> set ?gs" and p: "p \<in> set (snd g)"
    then have "p \<in> set (map snd (filter (\<lambda>e. fst e = fst g) es))" using mem by metis
    then show "(fst g, p) \<in> set es" by force
  qed
  then show ?thesis by (simp add: list.rel_map)
qed

text \<open>
  C7: The pairs read from a pairing configuration are one for each distinct source text
  among the lines meant for this pod, each taken from a line with that source text;
  whatever the random choice and the order of the map, no source is lost or doubled.
\<close>
theorem one_pair_per_source:
  assumes "choice_ok pe" and "pairings_of_text pe pc s = Inr pairs"
  shows "\<exists>ks. distinct ks \<and>
    set ks = {k. \<exists>l \<in> set (go_split [CHR 0x0A] s). \<exists>p. pairing_entry pc l = Inr (Some (k, p))} \<and>
    list_all2 (\<lambda>k p. \<exists>l \<in> set (go_split [CHR 0x0A] s). pairing_entry pc l = Inr (Some (k, p)))
      ks pairs"
proof -
  let ?ls = "go_split [CHR 0x0A] s"
  from assms(2) obtain pm where g: "groups (entries pc ?ls) pm" and
    p: "pairs = choose_pairs (pe_intn pe) 0 (pe_group_order pe pm)"
    by (rule pairings_of_text_groups)
  let ?ks = "keys (pe_group_order pe pm)"
  have ms: "mset (pe_group_order pe pm) = mset pm" using assms(1) by (simp add: choice_ok_def)
  then have mk: "mset ?ks = mset (keys pm)" by (metis mset_map)
  have "distinct (keys pm)" using g by (simp only: groups_def)
  then have "distinct ?ks" using mset_eq_imp_distinct_iff [OF mk] by blast
  moreover have sk: "set ?ks = set (keys pm)" by (rule mset_eq_setD [OF mk])
  moreover have "set ?ks = {k. \<exists>l \<in> set ?ls. \<exists>p. pairing_entry pc l = Inr (Some (k, p))}"
    unfolding sk groups_keys [OF g] by (rule entries_keys)
  moreover have "list_all2 (\<lambda>k p. \<exists>l \<in> set ?ls. pairing_entry pc l = Inr (Some (k, p))) ?ks pairs"
    using group_members [OF assms(1) g] p by (simp add: entries_iff)
  ultimately show ?thesis by blast
qed

subsection \<open>What is known of a pair\<close>

lemma set_addr_frame [simp]:
  "src_namespace (set_addr pc src) = src_namespace src" "src_type (set_addr pc src) = src_type src"
  "src_name (set_addr pc src) = src_name src" "src_net (set_addr pc src) = src_net src"
  "src_interface (set_addr pc src) = src_interface src"
  by (simp_all add: set_addr_def split: option.splits)

lemma resolve_source_frame [simp]:
  "src_namespace (resolve_source pc src) = src_namespace src"
  "src_type (resolve_source pc src) = src_type src"
  "src_name (resolve_source pc src) = src_name src" "src_net (resolve_source pc src) = src_net src"
  by (simp_all add: resolve_source_def split: option.splits)

lemma source_matches_iff:
  "source_matches pc src \<longleftrightarrow> src_namespace src = pc_namespace pc \<and>
     ((equal_fold (src_type src) ''pod'' \<and> src_name src = pc_pod_name pc) \<or>
      ((equal_fold (src_type src) ''deployment'' \<or> equal_fold (src_type src) ''daemonset'') \<and>
       prefix (src_name src) (pc_pod_name pc)))"
  using equal_fold_length [of "src_type src" "''pod''"]
    equal_fold_length [of "src_type src" "''deployment''"]
    equal_fold_length [of "src_type src" "''daemonset''"]
  by (auto simp: source_matches_def Let_def has_prefix_iff)

lemma resolve_source_address:
  assumes "pc_addrs pc (src_interface (resolve_source pc src)) = Some ip"
    and "src_net src = [] \<or> pc_net_ifs pc (pc_namespace pc @ ''/'' @ src_net src) \<noteq> None"
    and "src_interface (resolve_source pc src) \<noteq> []"
  shows "src_ip (resolve_source pc src) = ip"
  using assms by (auto simp: resolve_source_def set_addr_def split: option.splits if_splits)

lemma pairing_entry_Some:
  assumes "pairing_entry pc l = Inr (Some (k, p))"
  obtains src dest prof scen where "json_unmarshal_source k = Inr src" "source_matches pc src"
    "p = remote_pair (resolve_source pc src) dest prof scen"
  using assms
  by (auto simp: pairing_entry_def Let_def go_bind split: if_splits sum.splits)

lemma pair_has_entry:
  assumes "choice_ok pe" and "pairings_of_text pe pc s = Inr pairs" and "p \<in> set pairs"
  obtains k l where "pairing_entry pc l = Inr (Some (k, p))"
proof -
  obtain ks where "list_all2 (\<lambda>k p. \<exists>l \<in> set (go_split [CHR 0x0A] s).
      pairing_entry pc l = Inr (Some (k, p))) ks pairs"
    using assms(1,2) by (auto elim!: pairings_of_text_groups simp: entries_iff dest: group_members)
  then show thesis
    using assms(3) that by (auto simp: list_all2_conv_all_nth in_set_conv_nth)
qed

lemma pairs_are_from_entries:
  assumes "choice_ok pe" and "pairings_of_text pe pc s = Inr pairs"
  shows "\<forall>p \<in> set pairs. bp_client_connection p = None"
proof
  fix p assume "p \<in> set pairs"
  with assms obtain k l where "pairing_entry pc l = Inr (Some (k, p))" by (rule pair_has_entry)
  then show "bp_client_connection p = None"
    by (rule pairing_entry_Some) (simp add: remote_pair_def)
qed


subsection \<open>The lines that panic\<close>

lemma go_index_bind:
  "bindS (go_index xs n) f = (if n < length xs then f (xs ! n) else Inl IndexOutOfRange)"
  by (simp add: go_index_def)


text \<open>A line that is meant for this pod but does not have the three fields after the source.\<close>

definition line_is_cut_off :: "pod_ctx \<Rightarrow> string \<Rightarrow> bool" where
  "line_is_cut_off pc line \<longleftrightarrow>
     (let pair = trim_space line;
          elements = go_split [CHR ''}'', CHR 0x22, CHR '',''] pair
      in pair \<noteq> [] \<and> \<not> has_prefix pair ''#'' \<and>
         (\<exists>src. json_unmarshal_source (source_text (hd elements)) = Inr src \<and> source_matches pc src) \<and>
         (length elements < 2 \<or> length (go_split '','' (elements ! 1)) < 3))"

lemma length_trim_slice [simp]: "length (trim_slice xs) = length xs"
  and trim_slice_Nil [simp]: "trim_slice xs = [] \<longleftrightarrow> xs = []"
  by (simp_all add: trim_slice_def)

lemma pairing_entry_panics:
  "(\<exists>e. pairing_entry pc l = Inl e) \<longleftrightarrow> line_is_cut_off pc l"
  "pairing_entry pc l = Inl e \<Longrightarrow> e = IndexOutOfRange"
  by (auto simp: pairing_entry_def line_is_cut_off_def Let_def go_index_bind
      split: sum.splits if_splits)

lemma pairing_lines_panic:
  "(\<exists>e. foldS (pairing_line pc) ls pm = Inl e) \<longleftrightarrow> (\<exists>l \<in> set ls. line_is_cut_off pc l)"
proof (induction ls arbitrary: pm)
  case Nil
  then show ?case by simp
next
  case (Cons l ls)
  show ?case
  proof (cases "pairing_entry pc l")
    case (Inl e)
    then show ?thesis using pairing_entry_panics(1) [of pc l] by (auto simp: pairing_line_def)
  next
    case (Inr e)
    then have "\<not> line_is_cut_off pc l" using pairing_entry_panics(1) [of pc l] by auto
    then show ?thesis using Cons.IH Inr by (simp add: pairing_line_def)
  qed
qed

text \<open>
  C36: Reading the pairing configuration ends the process, with an index out of range,
  exactly when some line whose source parses and matches this pod lacks the quote, brace
  and comma after its source or one of the three fields after it.
\<close>
theorem pairing_panics_iff_line_cut_off:
  "pairings_of_text pe pc s = Inl e \<longleftrightarrow>
     e = IndexOutOfRange \<and> (\<exists>l \<in> set (go_split [CHR 0x0A] s). line_is_cut_off pc l)"
proof -
  have "foldS (pairing_line pc) ls pm = Inl e \<Longrightarrow> e = IndexOutOfRange" for ls pm e
    by (induction ls arbitrary: pm)
      (auto simp: bindS_Inl_iff pairing_line_def dest: pairing_entry_panics(2))
  then show ?thesis
    using pairing_lines_panic [of pc "go_split [CHR 0x0A] s" "[]"]
    by (auto simp: pairings_of_text_def bindS_Inl_iff)
qed

subsection \<open>A configuration\<close>

text \<open>
  Two lines for the pod with the same source, one for another pod, and a comment, in the
  form of the example deployment.
\<close>

definition sample_src :: "string \<Rightarrow> source" where
  "sample_src n = \<lparr>src_type = ''pod'', src_namespace = ''ns'', src_name = n, src_net = [],
    src_interface = [], src_ip = []\<rparr>"

definition sample_quote :: "string \<Rightarrow> string" where
  "sample_quote s =
     map (\<lambda>c. if c = CHR ''%'' then CHR 0x22 else if c = CHR ''@'' then CHR 0x27 else c) s"

definition sample_line :: "string \<Rightarrow> string \<Rightarrow> string" where
  "sample_line n dest =
     sample_quote (''%{@type@: @pod@, @ns@: @ns@, @name@: @'' @ n @ ''@}%, %'' @ dest @ ''%, udp, %s%'')"

definition sample_source_text :: "string \<Rightarrow> string" where
  "sample_source_text n = sample_quote (''{%type%: %pod%, %ns%: %ns%, %name%: %'' @ n @ ''%}'')"

definition sample_pairing_env :: pairing_env where
  "sample_pairing_env =
     \<lparr>pe_intn = (\<lambda>k n. n - 1),
      pe_group_order = rev\<rparr>"

definition sample_ctx :: pod_ctx where
  "sample_ctx =
     \<lparr>pc_namespace = ''ns'', pc_pod_name = ''a'', pc_net_ifs = (\<lambda>_. None),
      pc_addrs = [''eth0'' \<mapsto> ''10.0.0.1'']\<rparr>"

definition sample_pairing_text :: string where
  "sample_pairing_text =
     go_join [CHR 0x0A] [''# a comment'', sample_line ''a'' ''x'', sample_line ''b'' ''y'', [], sample_line ''a'' ''z'']"

definition sample_result :: "string \<Rightarrow> bat_pair" where
  "sample_result dest =
     remote_pair ((sample_src ''a'')\<lparr>src_ip := ''10.0.0.1'', src_interface := ''eth0''\<rparr>) dest ''udp'' ''s''"

lemma sample_choice_ok: "choice_ok sample_pairing_env"
  by (simp add: choice_ok_def sample_pairing_env_def)

lemma sample_split:
  "go_split [CHR 0x0A] sample_pairing_text =
     [''# a comment'', sample_line ''a'' ''x'', sample_line ''b'' ''y'', [], sample_line ''a'' ''z'']"
  unfolding sample_pairing_text_def
  by (rule go_split_join_char) (simp_all add: sample_line_def sample_quote_def)

lemma sample_entries:
  "pairing_entry sample_ctx (sample_line ''a'' ''x'') =
     Inr (Some (sample_source_text ''a'', sample_result ''x''))"
  "pairing_entry sample_ctx (sample_line ''a'' ''z'') =
     Inr (Some (sample_source_text ''a'', sample_result ''z''))"
  "pairing_entry sample_ctx (sample_line ''b'' ''y'') = Inr None"
  "pairing_entry sample_ctx ''# a comment'' = Inr None"
  "pairing_entry sample_ctx [] = Inr None"
  by code_simp+

lemma sample_pairings:
  "pairings_of_text sample_pairing_env sample_ctx sample_pairing_text = Inr [sample_result ''z'']"
  by (simp add: pairings_of_text_def sample_split pairing_line_def sample_entries add_pair_def)
    (simp add: sample_pairing_env_def)

theorem one_pair_per_source_witness:
  "\<exists>ks. distinct ks \<and>
    set ks = {k. \<exists>l \<in> set (go_split [CHR 0x0A] sample_pairing_text).
      \<exists>p. pairing_entry sample_ctx l = Inr (Some (k, p))} \<and>
    list_all2 (\<lambda>k p. \<exists>l \<in> set (go_split [CHR 0x0A] sample_pairing_text).
      pairing_entry sample_ctx l = Inr (Some (k, p))) ks [sample_result ''z'']"
  by (rule one_pair_per_source [OF sample_choice_ok sample_pairings])


end
