(* ===== verification/PairingText.thy ===== *)
theory PairingText
  imports PairingProps TgenStream
begin

section \<open>The text of a pairing\<close>

text \<open>
  What is written is read: a line in the form of \<open>deployments/configMap.yaml\<close> gives the pair
  it says, a compressed configuration gives the text that was compressed, and the \<open>source\<close>
  label of a stream's metrics is JSON that gives back the stream's source.
\<close>

subsection \<open>Trimming and splitting\<close>

lemma trim_both_id: "s = [] \<or> \<not> P (hd s) \<and> \<not> P (last s) \<Longrightarrow> trim_both P s = s"
  by (auto simp: trim_both_def dropWhile_eq_self_iff [THEN iffD2] hd_rev)

lemma trim_both_none: "\<forall>c \<in> set s. \<not> P c \<Longrightarrow> trim_both P s = s"
  by (cases "s = []") (simp_all add: trim_both_id)

lemma trim_both_Cons: "P c \<Longrightarrow> trim_both P (c # s) = trim_both P s"
  by (simp add: trim_both_def)

lemma cut_at_first: "c \<notin> set a \<Longrightarrow> cut_at (c # sep) (a @ c # sep @ b) = Some (a, b)"
  by (induction a) (auto simp: prefix_def)

lemma go_split_once:
  "c \<notin> set a \<Longrightarrow> c \<notin> set b \<Longrightarrow> go_split (c # sep) (a @ c # sep @ b) = [a, b]"
proof -
  assume a: "c \<notin> set a" and b: "c \<notin> set b"
  have "\<not> sublist (c # sep) b" using b by (auto simp: sublist_def)
  then show ?thesis by (subst go_split.simps) (simp add: cut_at_first [OF a] go_split_one)
qed

lemma go_replace_char: "go_replace_all s [c] [d] = map (\<lambda>x. if x = c then d else x) s"
proof -
  let ?f = "\<lambda>x. if x = c then d else x"
  have "go_join [d] (go_split [c] s) = map ?f s"
  proof (induction "length s" arbitrary: s rule: less_induct)
    case less
    show ?case
    proof (cases "c \<in> set s")
      case False
      then have "map ?f s = s" by (auto intro: map_idI)
      then show ?thesis using False by (simp add: go_split_char_none)
    next
      case True
      then obtain a b where s: "s = a @ c # b" "c \<notin> set a" by (meson split_list_first)
      have "map ?f a = a" using s(2) by (auto intro: map_idI)
      then show ?thesis
        using less [of b] s by (simp add: go_split_char go_join_Cons go_split_nonempty)
    qed
  qed
  then show ?thesis by (simp add: go_replace_all_def)
qed

lemma go_join_last:
  "xs \<noteq> [] \<Longrightarrow> \<forall>x \<in> set xs. x \<noteq> [] \<and> last x = q \<Longrightarrow> go_join sep xs \<noteq> [] \<and> last (go_join sep xs) = q"
  by (induction xs rule: list_nonempty_induct) (auto simp: go_join_Cons)

lemma go_join_set: "set (go_join sep xs) \<subseteq> set sep \<union> \<Union> (set ` set xs)"
  by (induction sep xs rule: go_join.induct) auto

lemma trim_both_snoc: "P c \<Longrightarrow> \<exists>x \<in> set s. \<not> P x \<Longrightarrow> trim_both P (s @ [c]) = trim_both P s"
  by (auto simp: trim_both_def dropWhile_append1)

lemma trim_both_quoted:
  assumes "q \<notin> set d"
  shows "trim_both (\<lambda>c. c = q) (q # d @ [q]) = d"
proof (cases "d = []")
  case True
  then show ?thesis by (simp add: trim_both_def)
next
  case False
  then have "\<exists>x \<in> set d. x \<noteq> q" using assms by (metis last_in_set)
  then have "trim_both (\<lambda>c. c = q) (q # d @ [q]) = trim_both (\<lambda>c. c = q) d"
    by (simp add: trim_both_Cons trim_both_snoc)
  moreover have "trim_both (\<lambda>c. c = q) d = d" using assms by (intro trim_both_none) blast
  ultimately show ?thesis by simp
qed

subsection \<open>A line\<close>

text \<open>The characters a name, an address or a scenario may have here.\<close>

definition pairing_char :: "char \<Rightarrow> bool" where
  "pairing_char c \<longleftrightarrow> json_plain c \<and> c \<notin> {CHR 0x27, CHR 0x2C, CHR 0x7D} \<and> of_char c < (127 :: nat)"

definition pairing_word :: "string \<Rightarrow> bool" where
  "pairing_word = list_all pairing_char"

definition source_words :: "source \<Rightarrow> bool" where
  "source_words src \<longleftrightarrow> list_all (\<lambda>m. pairing_word (snd m)) (source_members src)"

text \<open>The source with apostrophes for quotation marks, the destination, profile and scenario.\<close>

definition pairing_source_text :: "source \<Rightarrow> string" where
  "pairing_source_text src = json_object_with '': '' '', '' (source_members src)"

definition pairing_rest_of :: "string \<Rightarrow> string \<Rightarrow> string \<Rightarrow> string" where
  "pairing_rest_of dest prof scen =
     CHR 0x20 # CHR 0x22 # dest @ [CHR 0x22] @ CHR 0x2C # CHR 0x20 # prof @
     CHR 0x2C # CHR 0x20 # CHR 0x22 # scen @ [CHR 0x22]"

definition pairing_line_of :: "source \<Rightarrow> string \<Rightarrow> string \<Rightarrow> string \<Rightarrow> string" where
  "pairing_line_of src dest prof scen =
     CHR 0x22 # map (\<lambda>c. if c = CHR 0x22 then CHR 0x27 else c) (pairing_source_text src) @
     CHR 0x22 # CHR 0x2C # pairing_rest_of dest prof scen"

text \<open>The text between the braces: the last byte is a quotation mark, and no brace or apostrophe.\<close>

definition pairing_body :: "source \<Rightarrow> string" where
  "pairing_body src =
     go_join '', '' (map (\<lambda>(k, v). json_field_with '': '' k v) (source_members src))"

lemma pairing_source_body: "pairing_source_text src = CHR 0x7B # pairing_body src @ [CHR 0x7D]"
  by (simp add: pairing_source_text_def pairing_body_def json_object_with_def)

lemma json_string_last: "last (json_string v) = CHR 0x22" "json_string v \<noteq> []"
  by (simp_all add: json_string_def)

lemma pairing_body_last: "pairing_body src \<noteq> []" "last (pairing_body src) = CHR 0x22"
proof -
  have "pairing_body src \<noteq> [] \<and> last (pairing_body src) = CHR 0x22"
    unfolding pairing_body_def
    by (rule go_join_last) (auto simp: source_members_def json_field_with_def json_string_last)
  then show "pairing_body src \<noteq> []" "last (pairing_body src) = CHR 0x22" by simp_all
qed

lemma pairing_word_escape: "pairing_word v \<Longrightarrow> json_escape v = v"
  by (rule json_escape_plain) (auto simp: pairing_word_def pairing_char_def list_all_iff)

lemma pairing_word_chars:
  "pairing_word v \<Longrightarrow> CHR 0x22 \<notin> set v \<and> CHR 0x27 \<notin> set v \<and> CHR 0x2C \<notin> set v \<and> CHR 0x7D \<notin> set v"
  by (auto simp: pairing_word_def pairing_char_def json_plain_def list_all_iff)

lemma source_key_words: "fst ` set (source_members src) \<subseteq> set source_keys" "\<forall>k \<in> set source_keys. pairing_word k"
proof -
  show "fst ` set (source_members src) \<subseteq> set source_keys"
    by (auto simp: source_members_def source_keys_def)
  show "\<forall>k \<in> set source_keys. pairing_word k" by code_simp
qed

lemma pairing_body_chars:
  assumes "source_words src"
  shows "CHR 0x27 \<notin> set (pairing_body src) \<and> CHR 0x7D \<notin> set (pairing_body src)"
proof -
  have w: "pairing_word k \<and> pairing_word v" if "(k, v) \<in> set (source_members src)" for k v
    using that assms source_key_words(1) [of src] source_key_words(2)
    by (force simp: source_words_def list_all_iff)
  have "CHR 0x27 \<notin> set (json_field_with '': '' k v) \<and> CHR 0x7D \<notin> set (json_field_with '': '' k v)"
    if "(k, v) \<in> set (source_members src)" for k v
    using w [OF that] pairing_word_chars [of k] pairing_word_chars [of v]
    by (simp add: json_field_with_def json_string_def pairing_word_escape)
  then show ?thesis
    unfolding pairing_body_def
    by (fastforce dest!: subsetD [OF go_join_set])
qed

text \<open>The two parts of a line: the source, and the fields after it.\<close>

lemma source_text_of_line:
  assumes "source_words src"
  shows "source_text (CHR 0x22 # CHR 0x7B # map (\<lambda>c. if c = CHR 0x22 then CHR 0x27 else c) (pairing_body src)) =
    pairing_source_text src"
proof -
  let ?b = "map (\<lambda>c. if c = CHR 0x22 then CHR 0x27 else c) (pairing_body src)"
  have last: "last ?b = CHR 0x27" "?b \<noteq> []" using pairing_body_last [of src] by (simp_all add: last_map)
  have "trim_space (CHR 0x22 # CHR 0x7B # ?b) = CHR 0x22 # CHR 0x7B # ?b"
    unfolding trim_space_def by (rule trim_both_id) (use last in \<open>simp add: is_space_def\<close>)
  moreover have "map (\<lambda>c. if c = CHR 0x27 then CHR 0x22 else c) ?b = pairing_body src"
    using pairing_body_chars [OF assms] by (auto simp: comp_def intro!: map_idI)
  ultimately show ?thesis
    by (simp add: source_text_def trim_left_def go_replace_char pairing_source_body)
qed

lemma trim_space_outer:
  "\<not> is_space (hd s) \<Longrightarrow> \<not> is_space (last s) \<Longrightarrow> trim_space (CHR 0x20 # s) = s"
  by (simp add: trim_space_def trim_both_Cons is_space_def trim_both_id)

lemma pairing_fields:
  assumes "pairing_word dest" "pairing_word prof" "pairing_word scen" and "CHR 0x20 \<notin> set prof"
  shows "trim_slice (go_split '','' (pairing_rest_of dest prof scen)) = [dest, prof, scen]"
proof -
  note no = pairing_word_chars [OF assms(1)] pairing_word_chars [OF assms(2)] pairing_word_chars [OF assms(3)]
  have split: "go_split '','' (pairing_rest_of dest prof scen) =
      [CHR 0x20 # CHR 0x22 # dest @ [CHR 0x22], CHR 0x20 # prof, CHR 0x20 # CHR 0x22 # scen @ [CHR 0x22]]"
    using no go_split_char [of "CHR '',''" "CHR 0x20 # CHR 0x22 # dest @ [CHR 0x22]"]
      go_split_char [of "CHR '',''" "CHR 0x20 # prof"]
    by (simp add: pairing_rest_of_def go_split_char_none)
  have q: "trim_space (CHR 0x20 # CHR 0x22 # d @ [CHR 0x22]) = CHR 0x22 # d @ [CHR 0x22]" for d
    by (rule trim_space_outer) (simp_all add: is_space_def)
  have "\<not> is_space c" if "c \<in> set prof" for c
  proof -
    have "(32 :: nat) \<le> of_char c" "c \<noteq> CHR 0x20"
      using that assms(2,4) by (auto simp: pairing_word_def pairing_char_def json_plain_def list_all_iff)
    then show ?thesis unfolding is_space_def by (intro notI) (elim insertE emptyE; simp)
  qed
  then have "trim_space (CHR 0x20 # prof) = prof"
    by (simp add: trim_space_def trim_both_Cons trim_both_none is_space_def)
  moreover have "trim_both (\<lambda>c. c = CHR 0x22) prof = prof" using no by (intro trim_both_none) auto
  ultimately show ?thesis
    using no by (simp add: split trim_slice_def q trim_both_quoted)
qed

text \<open>
  C9: A line of the pairing configuration in the form of the example deployment, with the
  source's fields as JSON in apostrophes, then the destination, the traffic profile and the
  scenario, is read as what it says: a source that is not for this pod gives nothing, any
  other exactly one pair, with that source completed by its interface and address, that
  destination, profile and scenario, in the group of that source.
\<close>
theorem written_pairing_is_read:
  assumes "source_words src" and "pairing_word dest" "pairing_word prof" "pairing_word scen"
    and "CHR 0x20 \<notin> set prof"
  shows "pairing_entry pc (pairing_line_of src dest prof scen) =
    Inr (if source_matches pc src
         then Some (pairing_source_text src, remote_pair (resolve_source pc src) dest prof scen)
         else None)"
proof -
  let ?q = "\<lambda>c. if c = CHR 0x22 then CHR 0x27 else c"
  let ?l = "pairing_line_of src dest prof scen"
  let ?a = "CHR 0x22 # CHR 0x7B # map ?q (pairing_body src)" and ?b = "pairing_rest_of dest prof scen"
  have l: "?l = ?a @ CHR 0x7D # [CHR 0x22, CHR 0x2C] @ ?b"
    by (simp add: pairing_line_of_def pairing_source_body)
  have "last ?l = CHR 0x22" by (simp add: pairing_line_of_def pairing_rest_of_def)
  then have trim: "trim_space ?l = ?l"
    unfolding trim_space_def by (intro trim_both_id) (simp add: l is_space_def)
  have "CHR 0x7D \<notin> set ?a" using pairing_body_chars [OF assms(1)] by auto
  moreover have "CHR 0x7D \<notin> set ?b"
    using assms(2-4) [THEN pairing_word_chars] by (simp add: pairing_rest_of_def)
  ultimately have split: "go_split [CHR 0x7D, CHR 0x22, CHR 0x2C] ?l = [?a, ?b]"
    unfolding l by (rule go_split_once)
  have json: "json_unmarshal_source (pairing_source_text src) = Inr src"
  proof -
    have "source_members src \<noteq> []" by (simp add: source_members_def)
    then show ?thesis
      unfolding pairing_source_text_def
      by (simp add: unmarshal_object source_key_words(1) lexes_as_punctuation put_source_members)
  qed
  have three: "length (go_split '','' ?b) = 3"
    using arg_cong [OF pairing_fields [OF assms(2-5)], of length] by simp
  have "\<not> has_prefix ?l ''#''" by (simp add: l has_prefix_def)
  then show ?thesis
    using split source_text_of_line [OF assms(1)] pairing_fields [OF assms(2-5)] json
    by (simp add: pairing_entry_def Let_def trim go_index_bind go_split_nonempty three l [symmetric])
      (simp add: l go_split_nonempty three)
qed

subsection \<open>Compressed configurations\<close>

text \<open>
  C40: A pairing configuration that was compressed and written in base64, in lines of any
  length, is read as the text that was compressed: the config map gives the same pairs, or
  the same error or panic, as one that has the text itself.
\<close>
theorem compressed_pairing_is_plain:
  assumes "cm_data cm ''net-bat-pairing.cfg'' = None" and "cm_data cm ''net-bat-pairing.cfg.gz'' = Some t"
    and "filter (\<lambda>c. c \<noteq> CHR 0x0A \<and> c \<noteq> CHR 0x0D) t = b64_encode z" and "gunzip z = Inr s"
    and "cm_data cm' ''net-bat-pairing.cfg'' = Some s"
  shows "handle_add_net_bat_config_map pe ifaces addrs cm namespace pod =
    handle_add_net_bat_config_map pe ifaces addrs cm' namespace pod"
  using assms b64_decode_encode [OF assms(3)]
  by (simp add: handle_add_net_bat_config_map_def pairing_text_def)

subsection \<open>The source label\<close>

definition ascii :: "string \<Rightarrow> bool" where
  "ascii s \<longleftrightarrow> (\<forall>c \<in> set s. of_char c < (128 :: nat))"

text \<open>
  C25: The \<open>source\<close> label of a stream's metrics is JSON that stands for the stream's source:
  read back, it gives the source with every field, for fields of ASCII text, so streams of
  different such sources never share the label.
\<close>
theorem source_label_is_the_source:
  assumes "list_all (\<lambda>m. ascii (snd m)) (source_members (bp_source p))"
  shows "\<exists>l. map_of (stream_labels conf p) ''source'' = Some l \<and>
    json_unmarshal_source l = Inr (bp_source p)"
  using unmarshal_json_source by (simp add: stream_labels_def update_conv)

subsection \<open>Witnesses\<close>

theorem written_pairing_is_read_witness:
  "pairing_entry sample_ctx (pairing_line_of (sample_src ''a'') ''x'' ''udp'' ''E-W Pod'') =
    Inr (Some (pairing_source_text (sample_src ''a''),
      remote_pair (resolve_source sample_ctx (sample_src ''a'')) ''x'' ''udp'' ''E-W Pod''))"
proof -
  have "source_words (sample_src ''a'')" "pairing_word ''x''" "pairing_word ''udp''"
    "pairing_word ''E-W Pod''" "source_matches sample_ctx (sample_src ''a'')"
    by code_simp+
  then show ?thesis
    using written_pairing_is_read [of "sample_src ''a''" "''x''" "''udp''" "''E-W Pod''" sample_ctx]
    by simp
qed

definition sample_compressed_cm :: "string \<Rightarrow> config_map" where
  "sample_compressed_cm k = \<lparr>cm_name = ''net-bat-pairing'', cm_data = [k \<mapsto>
     (if k = ''net-bat-pairing.cfg'' then sample_pairing_text
      else let e = b64_encode (gzip_stored sample_pairing_text) in take 76 e @ CHR 0x0A # drop 76 e)],
     cm_resource_version = ''1''\<rparr>"

theorem compressed_pairing_is_plain_witness:
  "handle_add_net_bat_config_map sample_pairing_env (Inr (Inr [])) (Inr (Inr []))
      (sample_compressed_cm ''net-bat-pairing.cfg.gz'') ''ns'' ''a'' =
   handle_add_net_bat_config_map sample_pairing_env (Inr (Inr [])) (Inr (Inr []))
      (sample_compressed_cm ''net-bat-pairing.cfg'') ''ns'' ''a''"
proof (rule compressed_pairing_is_plain)
  let ?e = "b64_encode (gzip_stored sample_pairing_text)"
  show "filter (\<lambda>c. c \<noteq> CHR 0x0A \<and> c \<noteq> CHR 0x0D) (take 76 ?e @ CHR 0x0A # drop 76 ?e) = ?e"
    by (rule b64_encode_broken)
  show "gunzip (gzip_stored sample_pairing_text) = Inr sample_pairing_text"
    by (rule gunzip_gzip_stored)
qed (simp_all add: sample_compressed_cm_def Let_def)

theorem source_label_is_the_source_witness:
  "\<exists>l. map_of (stream_labels tgen_initial_config (sample_result ''x'')) ''source'' = Some l \<and>
    json_unmarshal_source l = Inr (bp_source (sample_result ''x''))"
proof (rule source_label_is_the_source)
  show "list_all (\<lambda>m. ascii (snd m)) (source_members (bp_source (sample_result ''x'')))" by code_simp
qed

end
