(* ===== verification/Tgc.thy ===== *)
theory Tgc
  imports TgcPairing
begin

section \<open>The traffic controller of a pod (\<open>pkg/tgc/tgc.go\<close>)\<close>

text \<open>
  \<open>podTGC\<close>: its state, the handlers of the config map informer, the start and stop of
  clients and servers.  The protocol modules and the client and server objects are reached
  through the interfaces of \<open>pkg/util\<close> (\<open>ProtocolServerModule\<close>, \<open>ProtocolClientModule\<close>,
  \<open>ServerImpl\<close>, \<open>ClientImpl\<close>): the calls are the fields of \<open>modules\<close>, over a state \<open>'w\<close> of
  everything behind them, in which an object is known by a number.  A client keeps the
  pointer to the pair it was created for, known by its array and index: \<open>md_clear_pending\<close>
  is the controller's write of a new \<open>PendingRequestsMap\<close> as those clients see it.

  Each handler runs under the controller's mutex, so handlers do not interleave; the
  goroutines that \<open>createNetBatTgenClients\<close> starts do not take the mutex and run between
  any two events, in two steps each.  What a handler is given from outside (the pod's
  interfaces, the order of the maps it visits) is its \<open>view\<close>.
\<close>

subsection \<open>Interfaces and state\<close>

record 'w modules =
  md_load_server :: "string \<Rightarrow> profile option \<Rightarrow> 'w \<Rightarrow> 'w \<times> go_error option"
  md_create_server ::
    "string \<Rightarrow> string \<Rightarrow> string \<Rightarrow> string \<Rightarrow> string \<Rightarrow> string \<Rightarrow> int64 \<Rightarrow> 'w \<Rightarrow> ('w \<times> nat result) go"
  md_teardown_server :: "nat \<Rightarrow> 'w \<Rightarrow> 'w go"
  md_load_client :: "string \<Rightarrow> profile option \<Rightarrow> 'w \<Rightarrow> 'w \<times> go_error option"
  md_clear_pending :: "nat \<times> nat \<Rightarrow> 'w \<Rightarrow> 'w"
  md_create_client :: "string \<Rightarrow> nat \<times> nat \<Rightarrow> bat_pair \<Rightarrow> int64 \<Rightarrow> 'w \<Rightarrow> ('w \<times> nat result) go"
  md_setup_client :: "nat \<Rightarrow> 'w \<Rightarrow> ('w \<times> go_error option) go"
  md_start_client :: "nat \<Rightarrow> 'w \<Rightarrow> 'w"
  md_teardown_client :: "nat \<Rightarrow> 'w \<Rightarrow> 'w go"

text \<open>
  The controller's settings, and the keys of \<open>protoServers\<close> and \<open>protoClients\<close>, which are
  filled before it starts.
\<close>

record 'w tgc_env =
  te_modules :: "'w modules"
  te_proto_servers :: "string list"
  te_proto_clients :: "string list"
  te_yaml :: "string \<Rightarrow> profile result"
  te_pairing :: pairing_env
  te_pod_name :: string
  te_node_name :: string
  te_namespace :: string
  te_read_buffer_size :: int64

text \<open>
  The modules register themselves under their protocol's key; which module a key stands for
  is in \<open>te_modules\<close>.
\<close>

definition register_protocol_server :: "string \<Rightarrow> 'w tgc_env \<Rightarrow> 'w tgc_env" where
  "register_protocol_server protocol env =
     env\<lparr>te_proto_servers := List.insert protocol (te_proto_servers env)\<rparr>"

definition register_protocol_client :: "string \<Rightarrow> 'w tgc_env \<Rightarrow> 'w tgc_env" where
  "register_protocol_client protocol env =
     env\<lparr>te_proto_clients := List.insert protocol (te_proto_clients env)\<rparr>"

text \<open>
  A goroutine of \<open>createNetBatTgenClients\<close>: the array and the index its pointer \<open>p\<close> points
  to, and whether it has created its client.
\<close>

datatype task_pc = AtCreate | AtSetup

record task =
  tk_array :: nat
  tk_index :: nat
  tk_pc :: task_pc

text \<open>
  The controller.  \<open>netBatPairs\<close> is a slice: the number of its array, or nil.  An array
  stays as long as a goroutine points into it, also after the slice was replaced.
\<close>

record 'w tgc =
  tg_config :: "util_config option"
  tg_net_bat_pairs :: "nat option"
  tg_arrays :: "bat_pair list list"
  tg_net_pair_resource_version :: string
  tg_servers_map :: "(string \<times> nat list) list"
  tg_tasks :: "task list"
  tg_world :: 'w

definition new_pod_tg_controller :: "'w \<Rightarrow> 'w tgc" where
  "new_pod_tg_controller w =
     \<lparr>tg_config = None, tg_net_bat_pairs = None, tg_arrays = [], tg_net_pair_resource_version = [],
      tg_servers_map = [], tg_tasks = [], tg_world = w\<rparr>"

definition pairs_of :: "'w tgc \<Rightarrow> bat_pair list" where
  "pairs_of tg = (case tg_net_bat_pairs tg of None \<Rightarrow> [] | Some a \<Rightarrow> tg_arrays tg ! a)"

record view =
  vw_interfaces :: "interface_data list result go"
  vw_addrs :: "if_map result go"
  vw_order :: "string list \<Rightarrow> string list"
  vw_addr_order :: "if_map \<Rightarrow> if_map"
  vw_servers_order :: "(string \<times> nat list) list \<Rightarrow> (string \<times> nat list) list"

text \<open>\<open>range\<close> over a map visits every entry once.\<close>

definition view_ok :: "view \<Rightarrow> bool" where
  "view_ok vw \<longleftrightarrow> (\<forall>xs. mset (vw_order vw xs) = mset xs) \<and>
     (\<forall>m. mset (vw_addr_order vw m) = mset m) \<and> (\<forall>m. mset (vw_servers_order vw m) = mset m)"

lemma view_ok_sets:
  assumes "view_ok vw"
  shows "set (vw_order vw xs) = set xs" "set (vw_addr_order vw m) = set m"
    "set (vw_servers_order vw sm) = set sm"
  using assms unfolding view_ok_def by (metis mset_eq_setD)+

subsection \<open>Clients\<close>

text \<open>\<open>createNetBatTgenClients\<close> starts one goroutine per pair.\<close>

definition create_net_bat_tgen_clients :: "'w tgc \<Rightarrow> 'w tgc" where
  "create_net_bat_tgen_clients tg =
     (case tg_net_bat_pairs tg of
        None \<Rightarrow> tg
      | Some a \<Rightarrow>
          tg\<lparr>tg_tasks := tg_tasks tg @
            map (\<lambda>i. \<lparr>tk_array = a, tk_index = i, tk_pc = AtCreate\<rparr>) [0..<length (tg_arrays tg ! a)]\<rparr>)"

text \<open>The calls \<open>pair.ClientConnection.TearDownConnection()\<close>, in the order of the pairs.\<close>

definition teardown_pair :: "'w tgc_env \<Rightarrow> bat_pair \<Rightarrow> 'w \<Rightarrow> 'w go" where
  "teardown_pair env p w =
     (case bp_client_connection p of
        None \<Rightarrow> Inl NilDereference
      | Some n \<Rightarrow> md_teardown_client (te_modules env) n w)"

definition teardown_pairs :: "'w tgc_env \<Rightarrow> 'w tgc \<Rightarrow> 'w tgc go" where
  "teardown_pairs env tg =
     bindS (foldS (teardown_pair env) (pairs_of tg) (tg_world tg)) (\<lambda>w. Inr (tg\<lparr>tg_world := w\<rparr>))"

definition restart_net_bat_tgen_clients :: "'w tgc_env \<Rightarrow> 'w tgc \<Rightarrow> 'w tgc go" where
  "restart_net_bat_tgen_clients env tg =
     (if tg_net_bat_pairs tg = None then Inr tg
      else bindS (teardown_pairs env tg) (\<lambda>tg1. Inr (create_net_bat_tgen_clients tg1)))"

definition delete_net_bat_tgen_clients :: "'w tgc_env \<Rightarrow> 'w tgc \<Rightarrow> 'w tgc go" where
  "delete_net_bat_tgen_clients env tg =
     (if tg_net_bat_pairs tg = None then Inr tg
      else bindS (teardown_pairs env tg) (\<lambda>tg1. Inr (tg1\<lparr>tg_net_bat_pairs := None\<rparr>)))"

text \<open>One step of a goroutine of \<open>createNetBatTgenClients\<close>.\<close>

definition set_pair :: "nat \<Rightarrow> nat \<Rightarrow> (bat_pair \<Rightarrow> bat_pair) \<Rightarrow> 'w tgc \<Rightarrow> 'w tgc" where
  "set_pair a i f tg =
     tg\<lparr>tg_arrays := (tg_arrays tg)[a := (tg_arrays tg ! a)[i := f (tg_arrays tg ! a ! i)]]\<rparr>"

text \<open>\<open>p.PendingRequestsMap = make(map[int64]int64)\<close>: \<open>p\<close> is shared with its earlier clients.\<close>

definition clear_pending :: "'w tgc_env \<Rightarrow> nat \<times> nat \<Rightarrow> 'w tgc \<Rightarrow> 'w tgc" where
  "clear_pending env at tg =
     (set_pair (fst at) (snd at) (\<lambda>p. p\<lparr>bp_pending := Map.empty\<rparr>) tg)
       \<lparr>tg_world := md_clear_pending (te_modules env) at (tg_world tg)\<rparr>"

definition task_create :: "'w tgc_env \<Rightarrow> task \<Rightarrow> 'w tgc \<Rightarrow> ('w tgc \<times> task option) go" where
  "task_create env t tg =
     (let at = (tk_array t, tk_index t);
          tg1 = clear_pending env at tg;
          p = tg_arrays tg1 ! tk_array t ! tk_index t
      in if bp_traffic_profile p \<notin> set (te_proto_clients env) then Inr (tg1, None)
         else bindS (md_create_client (te_modules env) (bp_traffic_profile p) at p
                       (te_read_buffer_size env) (tg_world tg1))
           (\<lambda>(w, r). case r of
              Inl e \<Rightarrow> Inr (tg1\<lparr>tg_world := w\<rparr>, None)
            | Inr n \<Rightarrow>
                Inr (set_pair (tk_array t) (tk_index t) (\<lambda>p. p\<lparr>bp_client_connection := Some n\<rparr>)
                       (tg1\<lparr>tg_world := w\<rparr>),
                     Some (t\<lparr>tk_pc := AtSetup\<rparr>))))"

definition task_setup :: "'w tgc_env \<Rightarrow> task \<Rightarrow> 'w tgc \<Rightarrow> ('w tgc \<times> task option) go" where
  "task_setup env t tg =
     (case bp_client_connection (tg_arrays tg ! tk_array t ! tk_index t) of
        None \<Rightarrow> Inl NilDereference
      | Some n \<Rightarrow>
          bindS (md_setup_client (te_modules env) n (tg_world tg))
            (\<lambda>(w, err). case err of
               Some e \<Rightarrow> Inr (tg\<lparr>tg_world := w\<rparr>, None)
             | None \<Rightarrow> Inr (tg\<lparr>tg_world := md_start_client (te_modules env) n w\<rparr>, None)))"

definition task_step :: "'w tgc_env \<Rightarrow> nat \<Rightarrow> 'w tgc \<Rightarrow> 'w tgc go" where
  "task_step env k tg =
     (let t = tg_tasks tg ! k
      in bindS (case tk_pc t of AtCreate \<Rightarrow> task_create env t tg | AtSetup \<Rightarrow> task_setup env t tg)
           (\<lambda>(tg1, t'). Inr (tg1\<lparr>tg_tasks :=
               (case t' of
                  None \<Rightarrow> take k (tg_tasks tg) @ drop (Suc k) (tg_tasks tg)
                | Some u \<Rightarrow> (tg_tasks tg)[k := u])\<rparr>)))"

subsection \<open>Pairings\<close>

definition handle_net_bat_pairing_add_event ::
  "'w tgc_env \<Rightarrow> view \<Rightarrow> config_map \<Rightarrow> 'w tgc \<Rightarrow> 'w tgc go" where
  "handle_net_bat_pairing_add_event env vw cm tg =
     bindS (handle_add_net_bat_config_map (te_pairing env) (vw_interfaces vw) (vw_addrs vw) cm
              (te_namespace env) (te_pod_name env))
       (\<lambda>r. case r of
          Inl e \<Rightarrow> Inr tg
        | Inr pairs \<Rightarrow>
            (let tg1 = tg\<lparr>tg_arrays := tg_arrays tg @ [pairs],
                          tg_net_bat_pairs := Some (length (tg_arrays tg))\<rparr>
             in Inr (if tg_config tg1 \<noteq> None then create_net_bat_tgen_clients tg1 else tg1)))"

subsection \<open>Servers and modules\<close>

definition create_server_on ::
  "'w tgc_env \<Rightarrow> string \<Rightarrow> string \<times> string \<Rightarrow> 'w \<times> nat list \<Rightarrow> ('w \<times> nat list) go" where
  "create_server_on env protocol if_ip acc =
     bindS (md_create_server (te_modules env) protocol (te_namespace env) (te_pod_name env)
              (te_node_name env) (snd if_ip) (fst if_ip) (te_read_buffer_size env) (fst acc))
       (\<lambda>(w, r). Inr (w, case r of Inl e \<Rightarrow> snd acc | Inr n \<Rightarrow> snd acc @ [n]))"

text \<open>
  The loop of the profile's \<open>AddFunc\<close> over the server modules; the second result says
  whether it ran to its end.
\<close>

fun start_servers ::
  "'w tgc_env \<Rightarrow> profile option \<Rightarrow> if_map \<Rightarrow> string list \<Rightarrow> 'w tgc \<Rightarrow> ('w tgc \<times> bool) go" where
  "start_servers env pm addrs [] tg = Inr (tg, True)"
| "start_servers env pm addrs (protocol # ps) tg =
     (case md_load_server (te_modules env) protocol pm (tg_world tg) of
        (w, Some e) \<Rightarrow> Inr (tg\<lparr>tg_world := w\<rparr>, False)
      | (w, None) \<Rightarrow>
          bindS (foldS (create_server_on env protocol) addrs (w, []))
            (\<lambda>(w1, servers).
               start_servers env pm addrs ps
                 (tg\<lparr>tg_world := w1,
                     tg_servers_map := AList.update protocol servers (tg_servers_map tg)\<rparr>)))"

text \<open>The loops that hand the profile to modules: the first failure ends the handler.\<close>

definition load_modules ::
  "(string \<Rightarrow> profile option \<Rightarrow> 'w \<Rightarrow> 'w \<times> go_error option) \<Rightarrow> profile option \<Rightarrow> string list
    \<Rightarrow> 'w tgc \<Rightarrow> 'w tgc \<times> go_error option" where
  "load_modules load pm ps tg =
     (case seq_steps (map (\<lambda>protocol. load protocol pm) ps) (tg_world tg) of
        (w, err) \<Rightarrow> (tg\<lparr>tg_world := w\<rparr>, err))"

definition stop_servers :: "'w tgc_env \<Rightarrow> view \<Rightarrow> 'w tgc \<Rightarrow> 'w tgc go" where
  "stop_servers env vw tg =
     bindS (foldS (\<lambda>(_, servers). foldS (md_teardown_server (te_modules env)) servers)
              (vw_servers_order vw (tg_servers_map tg)) (tg_world tg))
       (\<lambda>w. Inr (tg\<lparr>tg_world := w\<rparr>))"

subsection \<open>The handlers\<close>

definition net_bat_pairing :: string where "net_bat_pairing = ''net-bat-pairing''"
definition net_bat_profile :: string where "net_bat_profile = ''net-bat-profile''"

definition add_pairing :: "'w tgc_env \<Rightarrow> view \<Rightarrow> config_map \<Rightarrow> 'w tgc \<Rightarrow> 'w tgc go" where
  "add_pairing env vw cm tg =
     handle_net_bat_pairing_add_event env vw cm
       (tg\<lparr>tg_net_pair_resource_version := cm_resource_version cm\<rparr>)"

definition add_profile :: "'w tgc_env \<Rightarrow> view \<Rightarrow> config_map \<Rightarrow> 'w tgc \<Rightarrow> 'w tgc go" where
  "add_profile env vw cm tg =
     (case load_config (te_yaml env) cm of
        Inl e \<Rightarrow> Inr tg
      | Inr c \<Rightarrow>
          (let tg1 = tg\<lparr>tg_config := Some c\<rparr>; pm = get_profile_map c
           in bindS (vw_addrs vw) (\<lambda>a. case a of
                Inl e \<Rightarrow> Inr tg1
              | Inr addrs \<Rightarrow>
                  bindS (start_servers env pm (vw_addr_order vw addrs)
                           (vw_order vw (te_proto_servers env)) tg1)
                    (\<lambda>(tg2, finished).
                       if \<not> finished then Inr tg2
                       else (case load_modules (md_load_client (te_modules env)) pm
                                    (vw_order vw (te_proto_clients env)) tg2 of
                               (tg3, Some e) \<Rightarrow> Inr tg3
                             | (tg3, None) \<Rightarrow>
                                 Inr (if tg_net_bat_pairs tg3 \<noteq> None
                                      then create_net_bat_tgen_clients tg3 else tg3))))))"

definition update_pairing :: "'w tgc_env \<Rightarrow> view \<Rightarrow> config_map \<Rightarrow> 'w tgc \<Rightarrow> 'w tgc go" where
  "update_pairing env vw cm tg =
     (if cm_resource_version cm = tg_net_pair_resource_version tg then Inr tg
      else bindS (delete_net_bat_tgen_clients env
                    (tg\<lparr>tg_net_pair_resource_version := cm_resource_version cm\<rparr>))
             (handle_net_bat_pairing_add_event env vw cm))"

definition update_profile :: "'w tgc_env \<Rightarrow> view \<Rightarrow> config_map \<Rightarrow> 'w tgc \<Rightarrow> 'w tgc go" where
  "update_profile env vw cm tg =
     (case tg_config tg of
        None \<Rightarrow> Inl NilDereference
      | Some c \<Rightarrow>
          if cm_resource_version cm = get_resource_version c then Inr tg
          else (case reload_config (te_yaml env) cm c of
             (c1, Some e) \<Rightarrow> Inr (tg\<lparr>tg_config := Some c1\<rparr>)
           | (c1, None) \<Rightarrow>
               (case load_modules (md_load_server (te_modules env)) (get_profile_map c1)
                       (vw_order vw (te_proto_servers env)) (tg\<lparr>tg_config := Some c1\<rparr>) of
                  (tg1, Some e) \<Rightarrow> Inr tg1
                | (tg1, None) \<Rightarrow>
                    (case load_modules (md_load_client (te_modules env)) (get_profile_map c1)
                            (vw_order vw (te_proto_clients env)) tg1 of
                       (tg2, Some e) \<Rightarrow> Inr tg2
                     | (tg2, None) \<Rightarrow>
                         if suspend_traffic c \<noteq> suspend_traffic c1 then Inr tg2
                         else restart_net_bat_tgen_clients env tg2))))"

definition delete_pairing :: "'w tgc_env \<Rightarrow> 'w tgc \<Rightarrow> 'w tgc go" where
  "delete_pairing env tg =
     delete_net_bat_tgen_clients env (tg\<lparr>tg_net_pair_resource_version := []\<rparr>)"

definition delete_profile :: "'w tgc_env \<Rightarrow> view \<Rightarrow> 'w tgc \<Rightarrow> 'w tgc go" where
  "delete_profile env vw tg =
     bindS (stop_servers env vw tg) (\<lambda>tg1. Inr (tg1\<lparr>tg_config := None\<rparr>))"

text \<open>\<open>StopTGC\<close>, after its wait for the informer.\<close>

definition stop_tgc :: "'w tgc_env \<Rightarrow> view \<Rightarrow> 'w tgc \<Rightarrow> 'w tgc go" where
  "stop_tgc env vw tg = bindS (delete_net_bat_tgen_clients env tg) (stop_servers env vw)"

text \<open>
  What the informer delivers: a config map, or, to \<open>DeleteFunc\<close> when it missed the
  deletion itself, another object (\<open>cache.DeletedFinalStateUnknown\<close>), on which the
  unchecked type assertion panics.
\<close>

datatype kube_obj = KubeConfigMap config_map | KubeOther

datatype tgc_event =
    AddEvent kube_obj
  | UpdateEvent kube_obj
  | DeleteEvent kube_obj
  | StopEvent

definition as_config_map :: "kube_obj \<Rightarrow> config_map go" where
  "as_config_map obj = (case obj of KubeConfigMap cm \<Rightarrow> Inr cm | KubeOther \<Rightarrow> Inl TypeAssertion)"

definition add_func :: "'w tgc_env \<Rightarrow> view \<Rightarrow> kube_obj \<Rightarrow> 'w tgc \<Rightarrow> 'w tgc go" where
  "add_func env vw obj tg =
     bindS (as_config_map obj) (\<lambda>cm.
       if cm_name cm = net_bat_pairing then add_pairing env vw cm tg
       else if cm_name cm = net_bat_profile then add_profile env vw cm tg
       else Inr tg)"

definition update_func :: "'w tgc_env \<Rightarrow> view \<Rightarrow> kube_obj \<Rightarrow> 'w tgc \<Rightarrow> 'w tgc go" where
  "update_func env vw obj tg =
     bindS (as_config_map obj) (\<lambda>cm.
       if cm_name cm = net_bat_pairing then update_pairing env vw cm tg
       else if cm_name cm = net_bat_profile then update_profile env vw cm tg
       else Inr tg)"

definition delete_func :: "'w tgc_env \<Rightarrow> view \<Rightarrow> kube_obj \<Rightarrow> 'w tgc \<Rightarrow> 'w tgc go" where
  "delete_func env vw obj tg =
     bindS (as_config_map obj) (\<lambda>cm.
       if cm_name cm = net_bat_pairing then delete_pairing env tg
       else if cm_name cm = net_bat_profile then delete_profile env vw tg
       else Inr tg)"

definition handle_event :: "'w tgc_env \<Rightarrow> view \<Rightarrow> tgc_event \<Rightarrow> 'w tgc \<Rightarrow> 'w tgc go" where
  "handle_event env vw ev =
     (case ev of
        AddEvent obj \<Rightarrow> add_func env vw obj
      | UpdateEvent obj \<Rightarrow> update_func env vw obj
      | DeleteEvent obj \<Rightarrow> delete_func env vw obj
      | StopEvent \<Rightarrow> stop_tgc env vw)"

lemma handle_event_cases:
  assumes "handle_event env vw ev tg = Inr tg'"
  shows "tg' = tg \<or> (\<exists>cm. add_pairing env vw cm tg = Inr tg') \<or>
    (\<exists>cm. add_profile env vw cm tg = Inr tg') \<or> (\<exists>cm. update_pairing env vw cm tg = Inr tg') \<or>
    (\<exists>cm. update_profile env vw cm tg = Inr tg') \<or> delete_pairing env tg = Inr tg' \<or>
    delete_profile env vw tg = Inr tg' \<or> stop_tgc env vw tg = Inr tg'"
proof (cases ev)
  case (AddEvent obj)
  then show ?thesis
    using assms by (cases obj) (auto simp: handle_event_def add_func_def as_config_map_def split: if_splits)
next
  case (UpdateEvent obj)
  then show ?thesis
    using assms by (cases obj) (auto simp: handle_event_def update_func_def as_config_map_def split: if_splits)
next
  case (DeleteEvent obj)
  then show ?thesis
    using assms by (cases obj) (auto simp: handle_event_def delete_func_def as_config_map_def split: if_splits)
next
  case StopEvent
  then show ?thesis using assms by (simp add: handle_event_def)
qed

subsection \<open>Runs\<close>

text \<open>
  The controller's steps: an event, a step of a client goroutine, or anything (\<open>act\<close>) that
  happens behind the modules' interfaces.  A panic ends the process.
\<close>

inductive tgc_step ::
  "'w tgc_env \<Rightarrow> ('w \<Rightarrow> 'w \<Rightarrow> bool) \<Rightarrow> 'w tgc \<Rightarrow> 'w tgc go \<Rightarrow> bool"
  for env :: "'w tgc_env" and act :: "'w \<Rightarrow> 'w \<Rightarrow> bool" where
  event: "view_ok vw \<Longrightarrow> tgc_step env act tg (handle_event env vw ev tg)"
| client_task: "k < length (tg_tasks tg) \<Longrightarrow> tgc_step env act tg (task_step env k tg)"
| activity: "act (tg_world tg) w \<Longrightarrow> tgc_step env act tg (Inr (tg\<lparr>tg_world := w\<rparr>))"

inductive tgc_reachable ::
  "'w tgc_env \<Rightarrow> ('w \<Rightarrow> 'w \<Rightarrow> bool) \<Rightarrow> 'w \<Rightarrow> 'w tgc \<Rightarrow> bool"
  for env :: "'w tgc_env" and act :: "'w \<Rightarrow> 'w \<Rightarrow> bool" and w0 :: 'w where
  start: "tgc_reachable env act w0 (new_pod_tg_controller w0)"
| step: "tgc_reachable env act w0 tg \<Longrightarrow> tgc_step env act tg (Inr tg') \<Longrightarrow>
    tgc_reachable env act w0 tg'"

inductive_cases tgc_stepE: "tgc_step env act tg r"

end
