(* ===== verification/TgenApp.thy ===== *)
theory TgenApp
  imports Tgc Tapp
begin

section \<open>The program (\<open>cmd/tgenapp/main.go\<close>)\<close>

text \<open>
  \<open>main\<close> up to the running controller.  The flags' values, the result of opening the log
  file, the environment, the number of processors, and what client-go and the HTTP server
  return are inputs.  What follows is \<open>TgenLife\<close>.
\<close>

definition pod_name_var :: string where "pod_name_var = ''POD_NAME''"
definition node_name_var :: string where "node_name_var = ''NODE_NAME''"
definition namespace_var :: string where "namespace_var = ''NAMESPACE''"

subsection \<open>Its helpers\<close>

text \<open>Where \<open>logrus\<close> writes to, and its time format (none: the default).\<close>

record log_setup =
  ls_outputs :: "string list"
  ls_timestamp_format :: "string option"

definition log_file :: string where "log_file = ''/var/log/tgc.log''"

definition initialize_log :: "go_error option \<Rightarrow> string \<Rightarrow> log_setup \<Rightarrow> log_setup \<times> go_error option" where
  "initialize_log open_err file ls =
     (case open_err of
        Some e \<Rightarrow> (ls, Some e)
      | None \<Rightarrow>
          (ls\<lparr>ls_outputs := [''/dev/stdout'', file], ls_timestamp_format := Some ''Jan _2 15:04:05.000000''\<rparr>,
           None))"

text \<open>
  \<open>getClient\<close>, over \<open>rest.InClusterConfig\<close> and \<open>kubernetes.NewForConfig\<close>: both errors are
  only logged, so the second is called with a nil configuration after the first failed,
  and the result is a nil client when the second failed.
\<close>

definition get_client :: "'c result \<Rightarrow> ('c option \<Rightarrow> 'k result go) \<Rightarrow> 'k option go" where
  "get_client in_cluster new_for_config =
     bindS (new_for_config (case in_cluster of Inl _ \<Rightarrow> None | Inr c \<Rightarrow> Some c))
       (\<lambda>r. Inr (case r of Inl _ \<Rightarrow> None | Inr k \<Rightarrow> Some k))"

subsection \<open>\<open>main\<close>\<close>

record ('c, 'k) process_in =
  pi_show_version :: bool
  pi_version :: string
  pi_read_buffer_size :: int64
  pi_prom_port :: int64
  pi_open_log :: "go_error option"
  pi_environ :: "string \<rightharpoonup> string"
  pi_num_cpu :: nat
  pi_listen :: "string \<Rightarrow> go_error"
  pi_in_cluster :: "'c result"
  pi_new_client :: "'c option \<Rightarrow> 'k result go"

record ('k, 'w) running_app =
  ra_log :: log_setup
  ra_max_procs :: "nat option"
  ra_endpoint :: "(string list \<times> go_error) go" \<comment> \<open>what the endpoint's goroutine ends with\<close>
  ra_client_set :: "'k option"
  ra_env :: "'w tgc_env"
  ra_controller :: "'w tgc"

datatype ('k, 'w) main_result =
    Printed string
  | LogPanic go_error
  | NotStarted string
  | ClientPanic go_panic
  | Running "('k, 'w) running_app"

text \<open>
  The \<open>init\<close> functions of \<open>pkg/tapp\<close> and \<open>pkg/tgen\<close>, which Go runs before \<open>main\<close>, in the order
  of their imports.
\<close>

definition register_modules :: "'w tgc_env \<Rightarrow> 'w tgc_env" where
  "register_modules env =
     register_protocol_client udp_protocol_str (register_protocol_server udp_protocol_str env)"

text \<open>
  The modules behind the keys, the YAML reader and the pairing libraries are those of \<open>env\<close>,
  whose pod names and buffer size \<open>NewPodTGController\<close> fills in.
\<close>

definition tgenapp_main ::
  "('c, 'k) process_in \<Rightarrow> 'w tgc_env \<Rightarrow> log_setup \<Rightarrow> 'w \<Rightarrow> ('k, 'w) main_result" where
  "tgenapp_main pi env ls w =
     (if pi_show_version pi then Printed (pi_version pi @ [CHR 0x0A])
      else case initialize_log (pi_open_log pi) log_file ls of
        (_, Some e) \<Rightarrow> LogPanic e
      | (log, None) \<Rightarrow>
          (let max_procs = (if pi_environ pi ''GOMAXPROCS'' \<in> {None, Some []}
                            then Some (pi_num_cpu pi) else None)
           in case pi_environ pi pod_name_var of
                None \<Rightarrow> NotStarted ''no pod name set in env variable''
              | Some pod \<Rightarrow>
                (case pi_environ pi node_name_var of
                   None \<Rightarrow> NotStarted ''no node name set in env variable''
                 | Some node \<Rightarrow>
                   (case pi_environ pi namespace_var of
                      None \<Rightarrow> NotStarted ''no namespace set in env variable''
                    | Some ns \<Rightarrow>
                      (case get_client (pi_in_cluster pi) (pi_new_client pi) of
                         Inl p \<Rightarrow> ClientPanic p
                       | Inr cs \<Rightarrow>
                           Running
                             \<lparr>ra_log = log, ra_max_procs = max_procs,
                              ra_endpoint = register_prom_handler (pi_listen pi) (pi_prom_port pi) [],
                              ra_client_set = cs,
                              ra_env = (register_modules env)\<lparr>te_pod_name := pod, te_node_name := node,
                                te_namespace := ns, te_read_buffer_size := pi_read_buffer_size pi\<rparr>,
                              ra_controller = new_pod_tg_controller w\<rparr>)))))"

lemma tgenapp_runs_iff:
  "(\<exists>app. tgenapp_main pi env ls w = Running app) \<longleftrightarrow>
     \<not> pi_show_version pi \<and> pi_open_log pi = None \<and>
     {pod_name_var, node_name_var, namespace_var} \<subseteq> dom (pi_environ pi) \<and>
     (\<exists>cs. get_client (pi_in_cluster pi) (pi_new_client pi) = Inr cs)"
  by (auto simp: tgenapp_main_def initialize_log_def Let_def split: option.splits sum.splits)

lemma tgenapp_running:
  assumes "tgenapp_main pi env ls w = Running app"
  shows "ra_controller app = new_pod_tg_controller w"
    and "te_modules (ra_env app) = te_modules env" "te_pairing (ra_env app) = te_pairing env"
    and "ra_endpoint app = Inr ([''/metrics''], pi_listen pi ('':'' @ go_itoa (pi_prom_port pi)))"
  using assms
  by (auto simp: tgenapp_main_def initialize_log_def register_prom_handler_def Let_def
      register_modules_def register_protocol_client_def register_protocol_server_def
      split: if_splits option.splits sum.splits)

lemma tgenapp_protocols:
  assumes "tgenapp_main pi env ls w = Running app" "te_proto_servers env = []" "te_proto_clients env = []"
  shows "te_proto_servers (ra_env app) = [udp_protocol_str]" "te_proto_clients (ra_env app) = [udp_protocol_str]"
  using assms
  by (auto simp: tgenapp_main_def Let_def register_modules_def register_protocol_client_def
      register_protocol_server_def split: if_splits option.splits sum.splits prod.splits)

text \<open>The controller a program starts with is the start of the controller's runs.\<close>

lemma tgenapp_reachable:
  "tgenapp_main pi env ls w = Running app \<Longrightarrow> tgc_reachable (ra_env app) act w (ra_controller app)"
  by (simp add: tgenapp_running(1) tgc_reachable.start)

end
