(* ===== verification/TgcRuntime.thy ===== *)
theory TgcRuntime
  imports Tgc PairingProps
begin

section \<open>What the controller relies on of the modules\<close>

text \<open>
  The contract of the objects behind the controller's interfaces, and what holds of every
  controller over objects that keep it: its references are good in every reachable state,
  and tearing down its pairs succeeds exactly when each of them has a client that has been
  through its setup.
\<close>

text \<open>A change that makes no object and changes no client's readiness.\<close>

definition same_objects ::
  "('w \<Rightarrow> nat) \<Rightarrow> ('w \<Rightarrow> nat) \<Rightarrow> ('w \<Rightarrow> nat \<Rightarrow> bool) \<Rightarrow> 'w \<Rightarrow> 'w \<Rightarrow> bool" where
  "same_objects nc ns ready w w' \<longleftrightarrow>
     nc w' = nc w \<and> ns w' = ns w \<and> (\<forall>n < nc w. ready w' n = ready w n)"

lemma same_objects_refl [simp]: "same_objects nc ns ready w w"
  by (simp add: same_objects_def)

lemma same_objects_trans:
  "same_objects nc ns ready w1 w2 \<Longrightarrow> same_objects nc ns ready w2 w3 \<Longrightarrow> same_objects nc ns ready w1 w3"
  by (simp add: same_objects_def)

text \<open>The references a controller holds are good: its state is well typed.\<close>

definition pair_typed :: "string list \<Rightarrow> nat \<Rightarrow> bat_pair \<Rightarrow> bool" where
  "pair_typed protos n p \<longleftrightarrow>
     (\<forall>c. bp_client_connection p = Some c \<longrightarrow> c < n \<and> bp_traffic_profile p \<in> set protos)"

definition task_typed :: "bat_pair list list \<Rightarrow> task \<Rightarrow> bool" where
  "task_typed arrays t \<longleftrightarrow> tk_array t < length arrays \<and> tk_index t < length (arrays ! tk_array t) \<and>
     (tk_pc t = AtSetup \<longrightarrow> bp_client_connection (arrays ! tk_array t ! tk_index t) \<noteq> None)"

definition tgc_typed :: "('w \<Rightarrow> nat) \<Rightarrow> ('w \<Rightarrow> nat) \<Rightarrow> 'w tgc_env \<Rightarrow> 'w tgc \<Rightarrow> bool" where
  "tgc_typed nc ns env tg \<longleftrightarrow>
     (\<forall>a. tg_net_bat_pairs tg = Some a \<longrightarrow> a < length (tg_arrays tg)) \<and>
     list_all (task_typed (tg_arrays tg)) (tg_tasks tg) \<and>
     list_all (list_all (pair_typed (te_proto_clients env) (nc (tg_world tg)))) (tg_arrays tg) \<and>
     list_all (\<lambda>(k, refs). k \<in> set (te_proto_servers env) \<and> list_all (\<lambda>n. n < ns (tg_world tg)) refs)
       (tg_servers_map tg)"

lemma pair_typed_mono: "pair_typed ps n p \<Longrightarrow> n \<le> m \<Longrightarrow> pair_typed ps m p"
  by (auto simp: pair_typed_def)

lemma tgc_typed_world:
  assumes "tgc_typed nc ns env tg" and "nc (tg_world tg) \<le> nc w" and "ns (tg_world tg) \<le> ns w"
  shows "tgc_typed nc ns env (tg\<lparr>tg_world := w\<rparr>)"
  using assms unfolding tgc_typed_def
  by (fastforce simp: list_all_iff intro: pair_typed_mono)

lemma tgc_typed_pairs:
  "tgc_typed nc ns env tg \<Longrightarrow> p \<in> set (pairs_of tg) \<Longrightarrow>
     pair_typed (te_proto_clients env) (nc (tg_world tg)) p"
  by (auto simp: tgc_typed_def pairs_of_def list_all_iff split: option.splits)

lemma tgc_typed_create:
  "tgc_typed nc ns env tg \<Longrightarrow> tgc_typed nc ns env (create_net_bat_tgen_clients tg)"
  by (auto simp: tgc_typed_def create_net_bat_tgen_clients_def task_typed_def list_all_iff
      split: option.splits)

text \<open>Writing through a goroutine's pointer.\<close>

lemma set_pair_simps [simp]:
  "tg_world (set_pair a i f tg) = tg_world tg" "tg_config (set_pair a i f tg) = tg_config tg"
  "tg_net_bat_pairs (set_pair a i f tg) = tg_net_bat_pairs tg"
  "tg_tasks (set_pair a i f tg) = tg_tasks tg" "tg_servers_map (set_pair a i f tg) = tg_servers_map tg"
  "length (tg_arrays (set_pair a i f tg)) = length (tg_arrays tg)"
  by (simp_all add: set_pair_def)

lemma set_pair_nth:
  assumes "a < length (tg_arrays tg)" and "i < length (tg_arrays tg ! a)"
  shows "length (tg_arrays (set_pair a i f tg) ! b) = length (tg_arrays tg ! b)"
    and "b < length (tg_arrays tg) \<Longrightarrow> j < length (tg_arrays tg ! b) \<Longrightarrow>
      tg_arrays (set_pair a i f tg) ! b ! j =
        (if b = a \<and> j = i then f (tg_arrays tg ! a ! i) else tg_arrays tg ! b ! j)"
  using assms by (auto simp: set_pair_def nth_list_update)

lemma tgc_typed_set_pair:
  assumes "tgc_typed nc ns env tg" and "a < length (tg_arrays tg)" and "i < length (tg_arrays tg ! a)"
    and "pair_typed (te_proto_clients env) (nc (tg_world tg)) (f (tg_arrays tg ! a ! i))"
    and "bp_client_connection (tg_arrays tg ! a ! i) \<noteq> None \<Longrightarrow>
      bp_client_connection (f (tg_arrays tg ! a ! i)) \<noteq> None"
  shows "tgc_typed nc ns env (set_pair a i f tg)"
proof -
  have "task_typed (tg_arrays (set_pair a i f tg)) t" if "task_typed (tg_arrays tg) t" for t
    using that assms(5) set_pair_nth(1) [OF assms(2,3), of f "tk_array t"]
      set_pair_nth(2) [OF assms(2,3), of "tk_array t" "tk_index t" f]
    by (auto simp: task_typed_def)
  moreover have "list_all (list_all (pair_typed (te_proto_clients env) (nc (tg_world tg))))
      (tg_arrays (set_pair a i f tg))"
  proof -
    let ?P = "list_all (pair_typed (te_proto_clients env) (nc (tg_world tg)))"
    have "list_all ?P (tg_arrays tg)" using assms(1) by (simp add: tgc_typed_def)
    moreover from this have "?P ((tg_arrays tg ! a)[i := f (tg_arrays tg ! a ! i)])"
      using assms(2-4) by (auto simp: list_all_length nth_list_update)
    ultimately show ?thesis
      using assms(2) by (auto simp: set_pair_def list_all_length nth_list_update)
  qed
  ultimately show ?thesis
    using assms(1) by (auto simp: tgc_typed_def list_all_iff)
qed

lemma tgc_typed_tasks:
  "tgc_typed nc ns env tg \<Longrightarrow> list_all (task_typed (tg_arrays tg)) ts \<Longrightarrow>
     tgc_typed nc ns env (tg\<lparr>tg_tasks := ts\<rparr>)"
  by (simp add: tgc_typed_def)

lemma tgc_typed_fields [simp]:
  "tgc_typed nc ns env (tg\<lparr>tg_config := c\<rparr>) = tgc_typed nc ns env tg"
  "tgc_typed nc ns env (tg\<lparr>tg_net_pair_resource_version := v\<rparr>) = tgc_typed nc ns env tg"
  by (simp_all add: tgc_typed_def)

lemma tgc_typed_no_pairs:
  "tgc_typed nc ns env tg \<Longrightarrow> tgc_typed nc ns env (tg\<lparr>tg_net_bat_pairs := None\<rparr>)"
  by (simp add: tgc_typed_def)

lemma tgc_typed_new_pairs:
  assumes "tgc_typed nc ns env tg" and "\<forall>p \<in> set ps. bp_client_connection p = None"
  shows "tgc_typed nc ns env
    (tg\<lparr>tg_arrays := tg_arrays tg @ [ps], tg_net_bat_pairs := Some (length (tg_arrays tg))\<rparr>)"
proof -
  have "task_typed (tg_arrays tg @ [ps]) t" if "task_typed (tg_arrays tg) t" for t
    using that by (simp add: task_typed_def nth_append)
  moreover have "list_all (pair_typed (te_proto_clients env) n) ps" for n
    using assms(2) by (simp add: list_all_iff pair_typed_def)
  ultimately show ?thesis
    using assms(1) by (auto simp: tgc_typed_def list_all_iff)
qed

text \<open>The pairs a config map gives have no client yet.\<close>

lemma handle_add_no_client:
  assumes "choice_ok pe" and "handle_add_net_bat_config_map pe ifs addrs cm ns pod = Inr (Inr ps)"
  shows "\<forall>p \<in> set ps. bp_client_connection p = None"
proof -
  obtain s where "get_available_net_bat_pairings pe ifs addrs ns pod s = Inr (Inr ps)"
    using assms(2) by (auto simp: handle_add_net_bat_config_map_def split: sum.splits)
  then obtain pc where "pairings_of_text pe pc s = Inr ps"
    unfolding get_available_net_bat_pairings_def bindS_result_Inr by (auto simp: bindS_Inr_iff)
  then show ?thesis using pairs_are_from_entries [OF assms(1)] by blast
qed

subsection \<open>The contract\<close>

locale client_runtime =
  fixes md :: "'w modules" and act :: "'w \<Rightarrow> 'w \<Rightarrow> bool"
    and nc :: "'w \<Rightarrow> nat" and ns :: "'w \<Rightarrow> nat" and ready :: "'w \<Rightarrow> nat \<Rightarrow> bool"
  assumes load_server:
      "md_load_server md k pm w = (w', e) \<Longrightarrow> same_objects nc ns ready w w'"
    and load_client:
      "md_load_client md k pm w = (w', e) \<Longrightarrow> same_objects nc ns ready w w'"
    and create_server:
      "md_create_server md k a b c d f sz w = Inr (w', r) \<Longrightarrow>
         same_objects nc (\<lambda>_. 0) ready w w' \<and> ns w \<le> ns w' \<and> (\<forall>n. r = Inr n \<longrightarrow> n < ns w')"
    and teardown_server:
      "n < ns w \<Longrightarrow> md_teardown_server md n w = Inr w' \<Longrightarrow> same_objects nc ns ready w w'"
    and clear_pending: "same_objects nc ns ready w (md_clear_pending md at w)"
    and create_client:
      "md_create_client md k at p sz w = Inr (w', r) \<Longrightarrow>
         ns w' = ns w \<and> nc w \<le> nc w' \<and> (\<forall>n < nc w. ready w' n = ready w n) \<and>
         (\<forall>n. r = Inr n \<longrightarrow> nc w \<le> n \<and> n < nc w' \<and> \<not> ready w' n)"
    and setup_client:
      "n < nc w \<Longrightarrow> md_setup_client md n w = Inr (w', e) \<Longrightarrow>
         nc w' = nc w \<and> ns w' = ns w \<and> (\<forall>m < nc w. ready w' m = (m = n \<or> ready w m))"
    and start_client:
      "n < nc w \<Longrightarrow> same_objects nc ns ready w (md_start_client md n w)"
    and teardown_ready:
      "n < nc w \<Longrightarrow> ready w n \<Longrightarrow>
         \<exists>w'. md_teardown_client md n w = Inr w' \<and> same_objects nc ns ready w w'"
    and teardown_early:
      "n < nc w \<Longrightarrow> \<not> ready w n \<Longrightarrow> \<exists>e. md_teardown_client md n w = Inl e"
    and act_same: "act w w' \<Longrightarrow> same_objects nc ns ready w w'"
begin

text \<open>The contract is about less activity, too.\<close>

lemma less_activity:
  assumes "\<And>w w'. act' w w' \<Longrightarrow> act w w'"
  shows "client_runtime md act' nc ns ready"
proof unfold_locales
qed (fact load_server load_client create_server teardown_server clear_pending create_client
    setup_client start_client teardown_ready teardown_early act_same [OF assms])+

text \<open>A pair that can be torn down: it has a client, and the client was set up.\<close>

definition served :: "'w \<Rightarrow> bat_pair \<Rightarrow> bool" where
  "served w p \<longleftrightarrow> (\<exists>n. bp_client_connection p = Some n \<and> ready w n)"

lemma teardown_pairs_ok:
  assumes "\<forall>p \<in> set ps. pair_typed protos (nc w) p" and "te_modules env = md"
  shows "(\<forall>p \<in> set ps. served w p) \<Longrightarrow>
      \<exists>w'. foldS (teardown_pair env) ps w = Inr w' \<and> same_objects nc ns ready w w'"
    and "\<not> (\<forall>p \<in> set ps. served w p) \<Longrightarrow> \<exists>e. foldS (teardown_pair env) ps w = Inl e"
proof -
  have "if \<forall>p \<in> set ps. served w p
      then \<exists>w'. foldS (teardown_pair env) ps w = Inr w' \<and> same_objects nc ns ready w w'
      else \<exists>e. foldS (teardown_pair env) ps w = Inl e"
    using assms(1)
  proof (induction ps arbitrary: w)
    case Nil
    then show ?case by simp
  next
    case (Cons p ps)
    show ?case
    proof (cases "served w p")
      case False
      then have "\<exists>e. teardown_pair env p w = Inl e"
        using teardown_early Cons.prems assms(2)
        by (auto simp: served_def teardown_pair_def pair_typed_def split: option.splits)
      then show ?thesis using False by auto
    next
      case True
      then obtain n where n: "bp_client_connection p = Some n" "ready w n" "n < nc w"
        using Cons.prems by (auto simp: served_def pair_typed_def)
      then obtain w1 where w1: "md_teardown_client md n w = Inr w1" "same_objects nc ns ready w w1"
        using teardown_ready by blast
      have "\<forall>q \<in> set ps. pair_typed protos (nc w1) q \<and> served w1 q = served w q"
        using Cons.prems w1(2) by (auto simp: served_def pair_typed_def same_objects_def)
      then have "if \<forall>q \<in> set ps. served w q
          then \<exists>w'. foldS (teardown_pair env) ps w1 = Inr w' \<and> same_objects nc ns ready w1 w'
          else \<exists>e. foldS (teardown_pair env) ps w1 = Inl e"
        using Cons.IH [of w1] by auto
      then show ?thesis
        using True n w1 assms(2) same_objects_trans [OF w1(2)]
        by (auto simp: teardown_pair_def)
    qed
  qed
  then show "(\<forall>p \<in> set ps. served w p) \<Longrightarrow>
      \<exists>w'. foldS (teardown_pair env) ps w = Inr w' \<and> same_objects nc ns ready w w'"
    and "\<not> (\<forall>p \<in> set ps. served w p) \<Longrightarrow> \<exists>e. foldS (teardown_pair env) ps w = Inl e"
    by (auto split: if_splits)
qed

lemma delete_clients_exact:
  assumes "tgc_typed nc ns env tg" and "te_modules env = md"
  shows "(\<exists>tg'. delete_net_bat_tgen_clients env tg = Inr tg') \<longleftrightarrow>
    (\<forall>p \<in> set (pairs_of tg). served (tg_world tg) p)"
  using teardown_pairs_ok [of "pairs_of tg" "te_proto_clients env" "tg_world tg" env]
    tgc_typed_pairs [OF assms(1)] assms(2)
  by (cases "tg_net_bat_pairs tg")
    (fastforce simp: delete_net_bat_tgen_clients_def teardown_pairs_def pairs_of_def)+

subsection \<open>Every operation keeps the references good\<close>

lemma teardown_pairs_typed:
  assumes "tgc_typed nc ns env tg" and "te_modules env = md" and "teardown_pairs env tg = Inr tg'"
  shows "tgc_typed nc ns env tg'" and "same_objects nc ns ready (tg_world tg) (tg_world tg')"
    and "\<exists>w. tg' = tg\<lparr>tg_world := w\<rparr>"
proof -
  obtain w where w: "foldS (teardown_pair env) (pairs_of tg) (tg_world tg) = Inr w"
    "tg' = tg\<lparr>tg_world := w\<rparr>"
    using assms(3) by (auto simp: teardown_pairs_def bindS_Inr_iff)
  then have "same_objects nc ns ready (tg_world tg) w"
    using teardown_pairs_ok [of "pairs_of tg" "te_proto_clients env" "tg_world tg" env]
      tgc_typed_pairs [OF assms(1)] assms(2)
    by (metis Inr_Inl_False sum.inject(2))
  then show "tgc_typed nc ns env tg'" "same_objects nc ns ready (tg_world tg) (tg_world tg')"
    "\<exists>w. tg' = tg\<lparr>tg_world := w\<rparr>"
    using w assms(1) by (auto intro!: tgc_typed_world simp: same_objects_def)
qed

lemma delete_clients_typed:
  assumes "tgc_typed nc ns env tg" and "te_modules env = md"
    and "delete_net_bat_tgen_clients env tg = Inr tg'"
  shows "tgc_typed nc ns env tg'"
  using assms teardown_pairs_typed(1) [OF assms(1,2)] tgc_typed_no_pairs
  by (auto simp: delete_net_bat_tgen_clients_def bindS_Inr_iff split: if_splits)

lemma restart_clients_typed:
  assumes "tgc_typed nc ns env tg" and "te_modules env = md"
    and "restart_net_bat_tgen_clients env tg = Inr tg'"
  shows "tgc_typed nc ns env tg'"
  using assms teardown_pairs_typed(1) [OF assms(1,2)] tgc_typed_create
  by (auto simp: restart_net_bat_tgen_clients_def bindS_Inr_iff split: if_splits)

lemma pairing_event_typed:
  assumes "tgc_typed nc ns env tg" and "choice_ok (te_pairing env)"
    and "handle_net_bat_pairing_add_event env vw cm tg = Inr tg'"
  shows "tgc_typed nc ns env tg'"
proof -
  let ?h = "handle_add_net_bat_config_map (te_pairing env) (vw_interfaces vw) (vw_addrs vw) cm
      (te_namespace env) (te_pod_name env)"
  obtain r where r: "?h = Inr r"
    using assms(3) by (auto simp: handle_net_bat_pairing_add_event_def bindS_Inr_iff)
  show ?thesis
  proof (cases r)
    case (Inl e)
    then show ?thesis using assms(1,3) r by (simp add: handle_net_bat_pairing_add_event_def)
  next
    case (Inr ps)
    then have "\<forall>p \<in> set ps. bp_client_connection p = None"
      using handle_add_no_client [OF assms(2)] r by blast
    note new = tgc_typed_new_pairs [OF assms(1) this]
    show ?thesis
      using assms(3) r Inr new tgc_typed_create [OF new]
      by (auto simp: handle_net_bat_pairing_add_event_def Let_def split: if_splits)
  qed
qed

lemma load_modules_same:
  assumes "\<And>k w w' e. load k pm w = (w', e) \<Longrightarrow> same_objects nc ns ready w w'"
    and "load_modules load pm ps tg = (tg', e)"
  shows "same_objects nc ns ready (tg_world tg) (tg_world tg') \<and> (\<exists>w. tg' = tg\<lparr>tg_world := w\<rparr>)"
proof -
  have "seq_steps (map (\<lambda>k. load k pm) ps) w = (w', e) \<Longrightarrow> same_objects nc ns ready w w'" for w w' e
    by (erule seq_steps_invariant) (use assms(1) same_objects_trans in auto)
  then show ?thesis using assms(2) by (auto simp: load_modules_def split: prod.splits)
qed

lemma load_modules_typed:
  assumes "\<And>k w w' e. load k pm w = (w', e) \<Longrightarrow> same_objects nc ns ready w w'"
    and "load_modules load pm ps tg = (tg', e)" and "tgc_typed nc ns env tg"
  shows "tgc_typed nc ns env tg'"
proof -
  have "same_objects nc ns ready (tg_world tg) (tg_world tg') \<and> (\<exists>w. tg' = tg\<lparr>tg_world := w\<rparr>)"
    by (rule load_modules_same) (fact assms(1), fact assms(2))
  then show ?thesis using tgc_typed_world [OF assms(3)] by (auto simp: same_objects_def)
qed

lemma create_servers_ok:
  assumes "foldS (create_server_on env k) addrs (w, rs) = Inr (w', rs')" and "te_modules env = md"
    and "list_all (\<lambda>n. n < ns w) rs"
  shows "nc w' = nc w \<and> ns w \<le> ns w' \<and> list_all (\<lambda>n. n < ns w') rs'"
  using assms(1,3)
proof (induction addrs arbitrary: w rs)
  case Nil
  then show ?case by simp
next
  case (Cons a addrs)
  obtain w1 rs1 where s: "create_server_on env k a (w, rs) = Inr (w1, rs1)"
    and rest: "foldS (create_server_on env k) addrs (w1, rs1) = Inr (w', rs')"
    using Cons.prems(1) by (auto simp: bindS_Inr_iff)
  obtain r where c: "md_create_server md k (te_namespace env) (te_pod_name env) (te_node_name env)
      (snd a) (fst a) (te_read_buffer_size env) w = Inr (w1, r)"
    and rs1: "rs1 = (case r of Inl e \<Rightarrow> rs | Inr n \<Rightarrow> rs @ [n])"
    using s assms(2) by (auto simp: create_server_on_def bindS_Inr_iff cong: sum.case_cong)
  note cs = create_server [OF c]
  then have "list_all (\<lambda>n. n < ns w1) rs1"
    using Cons.prems(2) rs1 by (fastforce simp: list_all_iff split: sum.splits)
  then show ?case using Cons.IH [OF rest] cs by (auto simp: same_objects_def)
qed

lemma start_servers_typed:
  assumes "te_modules env = md" and "set ps \<subseteq> set (te_proto_servers env)"
    and "start_servers env pm addrs ps tg = Inr (tg', fin)" and "tgc_typed nc ns env tg"
  shows "tgc_typed nc ns env tg'"
  using assms(2-4)
proof (induction ps arbitrary: tg)
  case Nil
  then show ?case by simp
next
  case (Cons k ps)
  obtain w1 e where l: "md_load_server md k pm (tg_world tg) = (w1, e)" by fastforce
  note same = load_server [OF l]
  have t1: "tgc_typed nc ns env (tg\<lparr>tg_world := w1\<rparr>)"
    using Cons.prems(3) same by (intro tgc_typed_world) (auto simp: same_objects_def)
  show ?case
  proof (cases e)
    case (Some err)
    then show ?thesis using Cons.prems(2) l t1 assms(1) by simp
  next
    case None
    then obtain w2 rs where c: "foldS (create_server_on env k) addrs (w1, []) = Inr (w2, rs)"
      and rest: "start_servers env pm addrs ps (tg\<lparr>tg_world := w2,
        tg_servers_map := AList.update k rs (tg_servers_map tg)\<rparr>) = Inr (tg', fin)"
      using Cons.prems(2) l assms(1) by (auto simp: bindS_Inr_iff)
    note cs = create_servers_ok [OF c assms(1)]
    have "tgc_typed nc ns env (tg\<lparr>tg_world := w2\<rparr>)"
      using tgc_typed_world [OF t1, of w2] cs by simp
    then have "tgc_typed nc ns env
        (tg\<lparr>tg_world := w2, tg_servers_map := AList.update k rs (tg_servers_map tg)\<rparr>)"
      using Cons.prems(1) cs
      by (auto simp: tgc_typed_def list_all_iff dest!: alist_update_mem)
    then show ?thesis using Cons.IH [OF _ rest] Cons.prems(1) by simp
  qed
qed

lemma stop_servers_typed:
  assumes "te_modules env = md" and "view_ok vw" and "stop_servers env vw tg = Inr tg'"
    and "tgc_typed nc ns env tg"
  shows "tgc_typed nc ns env tg'" and "tg_tasks tg' = tg_tasks tg" and "tg_arrays tg' = tg_arrays tg"
    and "same_objects nc ns ready (tg_world tg) (tg_world tg')"
proof -
  have one: "foldS (md_teardown_server md) rs w = Inr w' \<Longrightarrow> list_all (\<lambda>n. n < ns w) rs \<Longrightarrow>
      same_objects nc ns ready w w'" for rs w w'
  proof (induction rs arbitrary: w)
    case Nil
    then show ?case by simp
  next
    case (Cons n rs)
    then obtain w1 where w1: "md_teardown_server md n w = Inr w1"
      "foldS (md_teardown_server md) rs w1 = Inr w'"
      by (auto simp: bindS_Inr_iff)
    have s1: "same_objects nc ns ready w w1" using teardown_server [OF _ w1(1)] Cons.prems(2) by simp
    have "list_all (\<lambda>n. n < ns w1) rs" using Cons.prems(2) s1 by (simp add: same_objects_def)
    then show ?case using Cons.IH [OF w1(2)] same_objects_trans [OF s1] by blast
  qed
  have all: "foldS (\<lambda>(_, rs). foldS (md_teardown_server md) rs) sm w = Inr w' \<Longrightarrow>
      \<forall>e \<in> set sm. list_all (\<lambda>n. n < ns w) (snd e) \<Longrightarrow> same_objects nc ns ready w w'"
    for sm :: "(string \<times> nat list) list" and w w'
  proof (induction sm arbitrary: w)
    case Nil
    then show ?case by simp
  next
    case (Cons e sm)
    then obtain w1 where w1: "foldS (md_teardown_server md) (snd e) w = Inr w1"
      "foldS (\<lambda>(_, rs). foldS (md_teardown_server md) rs) sm w1 = Inr w'"
      by (auto simp: bindS_Inr_iff case_prod_unfold)
    have s1: "same_objects nc ns ready w w1" using one [OF w1(1)] Cons.prems(2) by simp
    have "\<forall>e \<in> set sm. list_all (\<lambda>n. n < ns w1) (snd e)"
      using Cons.prems(2) s1 by (simp add: same_objects_def)
    then show ?case using Cons.IH [OF w1(2)] same_objects_trans [OF s1] by blast
  qed
  obtain w where w: "foldS (\<lambda>(_, rs). foldS (md_teardown_server md) rs)
      (vw_servers_order vw (tg_servers_map tg)) (tg_world tg) = Inr w" "tg' = tg\<lparr>tg_world := w\<rparr>"
    using assms(1,3) by (auto simp: stop_servers_def bindS_Inr_iff)
  have "\<forall>e \<in> set (vw_servers_order vw (tg_servers_map tg)).
      list_all (\<lambda>n. n < ns (tg_world tg)) (snd e)"
    using assms(4) view_ok_sets(3) [OF assms(2)] by (auto simp: tgc_typed_def list_all_iff)
  then show so: "same_objects nc ns ready (tg_world tg) (tg_world tg')"
    using all [OF w(1)] w(2) by simp
  show "tgc_typed nc ns env tg'"
    using so w(2) assms(4) by (auto intro!: tgc_typed_world simp: same_objects_def)
  show "tg_tasks tg' = tg_tasks tg" "tg_arrays tg' = tg_arrays tg" using w(2) by simp_all
qed

lemma add_profile_typed:
  assumes "te_modules env = md" and "view_ok vw" and "tgc_typed nc ns env tg"
    and "add_profile env vw cm tg = Inr tg'"
  shows "tgc_typed nc ns env tg'"
proof (cases "load_config (te_yaml env) cm")
  case (Inl e)
  then show ?thesis using assms(3,4) by (simp add: add_profile_def)
next
  case cfg: (Inr c)
  then obtain a where a: "vw_addrs vw = Inr a"
    using assms(4) by (auto simp: add_profile_def Let_def bindS_Inr_iff)
  show ?thesis
  proof (cases a)
    case (Inl e)
    then show ?thesis using assms(3,4) cfg a by (auto simp: add_profile_def Let_def)
  next
    case (Inr addrs)
    obtain tg2 fin where st: "start_servers env (cfg_profile_map c) (vw_addr_order vw addrs)
        (vw_order vw (te_proto_servers env)) (tg\<lparr>tg_config := Some c\<rparr>) = Inr (tg2, fin)"
      using assms(4) cfg a Inr by (auto simp: add_profile_def Let_def bindS_Inr_iff)
    have "set (vw_order vw (te_proto_servers env)) \<subseteq> set (te_proto_servers env)"
      by (simp add: view_ok_sets [OF assms(2)])
    note t2 = start_servers_typed [OF assms(1) this st] 
    obtain tg3 e where l: "load_modules (md_load_client (te_modules env)) (cfg_profile_map c)
        (vw_order vw (te_proto_clients env)) tg2 = (tg3, e)"
      by fastforce
    have t3: "tgc_typed nc ns env tg3"
      using load_modules_typed [OF _ l] t2 load_client assms(1,3) by fastforce
    show ?thesis
      using assms(1,3,4) cfg a Inr st l t2 t3 tgc_typed_create [OF t3]
      by (auto simp: add_profile_def Let_def split: if_splits option.splits)
  qed
qed

lemma update_profile_typed:
  assumes "te_modules env = md" and "tgc_typed nc ns env tg" and "update_profile env vw cm tg = Inr tg'"
  shows "tgc_typed nc ns env tg'"
proof -
  obtain c where c: "tg_config tg = Some c"
    using assms(3) by (auto simp: update_profile_def split: option.splits)
  obtain c1 e1 where r: "reload_config (te_yaml env) cm c = (c1, e1)" by fastforce
  obtain tg1 e2 where l1: "load_modules (md_load_server (te_modules env)) (cfg_profile_map c1)
      (vw_order vw (te_proto_servers env)) (tg\<lparr>tg_config := Some c1\<rparr>) = (tg1, e2)"
    by fastforce
  obtain tg2 e3 where l2: "load_modules (md_load_client (te_modules env)) (cfg_profile_map c1)
      (vw_order vw (te_proto_clients env)) tg1 = (tg2, e3)"
    by fastforce
  have t1: "tgc_typed nc ns env tg1"
    using load_modules_typed [OF _ l1] load_server assms(1,2) by fastforce
  have t2: "tgc_typed nc ns env tg2"
    using load_modules_typed [OF _ l2 t1] load_client assms(1) by fastforce
  show ?thesis
    using assms(2,3) c r l1 l2 t1 t2 restart_clients_typed [OF t2 assms(1)]
    by (auto simp: update_profile_def split: if_splits option.splits)
qed

lemma handle_event_typed:
  assumes "te_modules env = md" and "choice_ok (te_pairing env)" and "view_ok vw"
    and "tgc_typed nc ns env tg" and "handle_event env vw ev tg = Inr tg'"
  shows "tgc_typed nc ns env tg'"
proof -
  have up: "tgc_typed nc ns env tg'" if u: "update_pairing env vw cm tg = Inr tg'" for cm
  proof (cases "cm_resource_version cm = tg_net_pair_resource_version tg")
    case True
    then show ?thesis using u assms(4) by (simp add: update_pairing_def)
  next
    case False
    then obtain tg1 where "delete_net_bat_tgen_clients env
        (tg\<lparr>tg_net_pair_resource_version := cm_resource_version cm\<rparr>) = Inr tg1"
      and "handle_net_bat_pairing_add_event env vw cm tg1 = Inr tg'"
      using u by (auto simp: update_pairing_def bindS_Inr_iff)
    then show ?thesis
      using pairing_event_typed [OF _ assms(2)] delete_clients_typed [OF _ assms(1)] assms(4)
      by (metis tgc_typed_fields(2))
  qed
  have ap: "add_pairing env vw cm tg = Inr tg' \<Longrightarrow> tgc_typed nc ns env tg'" for cm
    using pairing_event_typed [OF _ assms(2),
        of "tg\<lparr>tg_net_pair_resource_version := cm_resource_version cm\<rparr>"] assms(4)
    by (simp add: add_pairing_def)
  have dp: "delete_pairing env tg = Inr tg' \<Longrightarrow> tgc_typed nc ns env tg'"
    using delete_clients_typed [OF _ assms(1), of "tg\<lparr>tg_net_pair_resource_version := []\<rparr>"] assms(4)
    by (simp add: delete_pairing_def)
  have df: "delete_profile env vw tg = Inr tg' \<Longrightarrow> tgc_typed nc ns env tg'"
    using stop_servers_typed(1) [OF assms(1,3) _ assms(4)]
    by (auto simp: delete_profile_def bindS_Inr_iff)
  have st: "stop_tgc env vw tg = Inr tg' \<Longrightarrow> tgc_typed nc ns env tg'"
    using stop_servers_typed(1) [OF assms(1,3)] delete_clients_typed [OF assms(4,1)]
    by (auto simp: stop_tgc_def bindS_Inr_iff)
  show ?thesis
    using handle_event_cases [OF assms(5)] up ap dp df st add_profile_typed [OF assms(1,3,4)]
      update_profile_typed [OF assms(1,4)] assms(4)
    by blast
qed

lemma task_create_typed:
  assumes "te_modules env = md" and "tgc_typed nc ns env tg" and "task_typed (tg_arrays tg) t"
    and "task_create env t tg = Inr (tg', t')"
  shows "tgc_typed nc ns env tg'" and "tg_tasks tg' = tg_tasks tg"
    and "t' = None \<or> (t' = Some (t\<lparr>tk_pc := AtSetup\<rparr>) \<and>
      bp_client_connection (tg_arrays tg' ! tk_array t ! tk_index t) \<noteq> None)"
    and "length (tg_arrays tg') = length (tg_arrays tg)"
    and "\<forall>b. length (tg_arrays tg' ! b) = length (tg_arrays tg ! b)"
proof -
  let ?a = "tk_array t" and ?i = "tk_index t"
  let ?tg1 = "clear_pending env (?a, ?i) tg"
  let ?p = "tg_arrays ?tg1 ! ?a ! ?i"
  have ai: "?a < length (tg_arrays tg)" "?i < length (tg_arrays tg ! ?a)"
    using assms(3) by (simp_all add: task_typed_def)
  have "pair_typed (te_proto_clients env) (nc (tg_world tg)) (tg_arrays tg ! ?a ! ?i)"
    using assms(2) ai by (auto simp: tgc_typed_def list_all_length)
  then have "tgc_typed nc ns env (set_pair ?a ?i (\<lambda>p. p\<lparr>bp_pending := Map.empty\<rparr>) tg)"
    using assms(2) ai by (intro tgc_typed_set_pair) (auto simp: pair_typed_def)
  then have t1: "tgc_typed nc ns env ?tg1"
    unfolding clear_pending_def fst_conv snd_conv
    by (rule tgc_typed_world) (use assms(1) clear_pending [of "tg_world tg" "(?a, ?i)"] in
      \<open>simp_all add: same_objects_def\<close>)
  have ai1: "?a < length (tg_arrays ?tg1)" "?i < length (tg_arrays ?tg1 ! ?a)"
    using ai by (simp_all add: clear_pending_def set_pair_nth(1))
  have len: "length (tg_arrays ?tg1 ! b) = length (tg_arrays tg ! b)"
    "length (tg_arrays ?tg1) = length (tg_arrays tg)" "tg_tasks ?tg1 = tg_tasks tg" for b
    using set_pair_nth(1) [OF ai] by (simp_all add: clear_pending_def)
  have "tgc_typed nc ns env tg' \<and> tg_tasks tg' = tg_tasks tg \<and>
      (t' = None \<or> (t' = Some (t\<lparr>tk_pc := AtSetup\<rparr>) \<and>
        bp_client_connection (tg_arrays tg' ! ?a ! ?i) \<noteq> None)) \<and>
      length (tg_arrays tg') = length (tg_arrays tg) \<and>
      (\<forall>b. length (tg_arrays tg' ! b) = length (tg_arrays tg ! b))"
  proof (cases "bp_traffic_profile ?p \<in> set (te_proto_clients env)")
    case False
    then show ?thesis
      using assms(4) t1 len by (auto simp: task_create_def Let_def)
  next
    case True
    obtain w r where c: "md_create_client md (bp_traffic_profile ?p) (?a, ?i) ?p (te_read_buffer_size env)
        (tg_world ?tg1) = Inr (w, r)"
      using assms(1,4) True by (auto simp: task_create_def Let_def bindS_Inr_iff)
    note cc = create_client [OF c]
    have t2: "tgc_typed nc ns env (?tg1\<lparr>tg_world := w\<rparr>)"
      using cc by (intro tgc_typed_world [OF t1]) auto
    show ?thesis
    proof (cases r)
      case (Inl e)
      then show ?thesis
        using assms(1,4) True c t2 len by (auto simp: task_create_def Let_def)
    next
      case (Inr n)
      let ?tg3 = "set_pair ?a ?i (\<lambda>p. p\<lparr>bp_client_connection := Some n\<rparr>) (?tg1\<lparr>tg_world := w\<rparr>)"
      have "tgc_typed nc ns env ?tg3"
        using t2 ai1 True cc Inr by (intro tgc_typed_set_pair) (auto simp: pair_typed_def)
      moreover have "tg' = ?tg3" "t' = Some (t\<lparr>tk_pc := AtSetup\<rparr>)"
        using assms(1,4) True c Inr by (auto simp: task_create_def Let_def)
      moreover have "bp_client_connection (tg_arrays ?tg3 ! ?a ! ?i) \<noteq> None"
        using ai1 by (simp add: set_pair_nth(2))
      moreover have "length (tg_arrays ?tg3 ! b) = length (tg_arrays tg ! b)" for b
        using len set_pair_nth(1) [of ?a "?tg1\<lparr>tg_world := w\<rparr>" ?i] ai1 by simp
      ultimately show ?thesis using len by simp
    qed
  qed
  then show "tgc_typed nc ns env tg'" "tg_tasks tg' = tg_tasks tg"
    "t' = None \<or> (t' = Some (t\<lparr>tk_pc := AtSetup\<rparr>) \<and>
      bp_client_connection (tg_arrays tg' ! tk_array t ! tk_index t) \<noteq> None)"
    "length (tg_arrays tg') = length (tg_arrays tg)"
    "\<forall>b. length (tg_arrays tg' ! b) = length (tg_arrays tg ! b)"
    by auto
qed

lemma task_setup_typed:
  assumes "te_modules env = md" and "tgc_typed nc ns env tg" and "task_typed (tg_arrays tg) t"
    and "task_setup env t tg = Inr (tg', t')"
  shows "tgc_typed nc ns env tg'" and "tg_tasks tg' = tg_tasks tg" and "t' = None"
    and "tg_arrays tg' = tg_arrays tg"
proof -
  obtain n where n: "bp_client_connection (tg_arrays tg ! tk_array t ! tk_index t) = Some n"
    using assms(4) by (auto simp: task_setup_def split: option.splits)
  have "pair_typed (te_proto_clients env) (nc (tg_world tg)) (tg_arrays tg ! tk_array t ! tk_index t)"
    using assms(2,3) by (auto simp: tgc_typed_def list_all_length task_typed_def)
  then have lt: "n < nc (tg_world tg)" using n by (simp add: pair_typed_def)
  obtain w e where s: "md_setup_client md n (tg_world tg) = Inr (w, e)"
    using assms(1,4) n by (auto simp: task_setup_def bindS_Inr_iff)
  note ss = setup_client [OF lt s]
  have "tg' = tg\<lparr>tg_world := if e = None then md_start_client md n w else w\<rparr> \<and> t' = None"
    using assms(1,4) n s by (auto simp: task_setup_def split: option.splits)
  moreover have "nc (md_start_client md n w) = nc w \<and> ns (md_start_client md n w) = ns w"
    using start_client [of n w] lt ss by (simp add: same_objects_def)
  ultimately show "tgc_typed nc ns env tg'" "tg_tasks tg' = tg_tasks tg" "t' = None"
    "tg_arrays tg' = tg_arrays tg"
    using ss by (auto intro!: tgc_typed_world [OF assms(2)])
qed

lemma task_step_typed:
  assumes "te_modules env = md" and "tgc_typed nc ns env tg" and "k < length (tg_tasks tg)"
    and "task_step env k tg = Inr tg'"
  shows "tgc_typed nc ns env tg'"
proof -
  let ?t = "tg_tasks tg ! k"
  have t: "task_typed (tg_arrays tg) ?t"
    using assms(2,3) by (simp add: tgc_typed_def list_all_length)
  obtain tg1 t1 where r: "(case tk_pc ?t of AtCreate \<Rightarrow> task_create env ?t tg
      | AtSetup \<Rightarrow> task_setup env ?t tg) = Inr (tg1, t1)"
    and tg': "tg' = tg1\<lparr>tg_tasks := (case t1 of
        None \<Rightarrow> take k (tg_tasks tg) @ drop (Suc k) (tg_tasks tg) | Some u \<Rightarrow> (tg_tasks tg)[k := u])\<rparr>"
    using assms(4) by (auto simp: task_step_def Let_def bindS_Inr_iff)
  have 1: "tgc_typed nc ns env tg1 \<and> tg_tasks tg1 = tg_tasks tg \<and>
      (\<forall>u. t1 = Some u \<longrightarrow> task_typed (tg_arrays tg1) u)"
  proof (cases "tk_pc ?t")
    case AtCreate
    note c = task_create_typed [OF assms(1,2) t, of tg1 t1]
    show ?thesis using c r AtCreate t by (auto simp: task_typed_def)
  next
    case AtSetup
    then show ?thesis using task_setup_typed [OF assms(1,2) t, of tg1 t1] r by auto
  qed
  then have "list_all (task_typed (tg_arrays tg1)) (tg_tasks tg)" unfolding tgc_typed_def by metis
  then show ?thesis
    using 1 tg'
    by (auto intro!: tgc_typed_tasks simp: list_all_iff split: option.splits
        dest!: in_set_takeD in_set_dropD set_update_subset_insert [THEN subsetD])
qed

lemma reachable_typed:
  assumes "tgc_reachable env act w0 tg" and "te_modules env = md" and "choice_ok (te_pairing env)"
  shows "tgc_typed nc ns env tg"
  using assms(1)
proof (induction rule: tgc_reachable.induct)
  case start
  then show ?case by (simp add: tgc_typed_def new_pod_tg_controller_def)
next
  case (step tg tg')
  from step.hyps(2) show ?case
  proof (cases rule: tgc_step.cases)
    case (event vw ev)
    then show ?thesis using handle_event_typed [OF assms(2,3) _ step.IH] by metis
  next
    case (client_task k)
    then show ?thesis using task_step_typed [OF assms(2) step.IH] by metis
  next
    case (activity w)
    then show ?thesis
      using act_same [OF activity(2)] activity(1) tgc_typed_world [OF step.IH] by (auto simp: same_objects_def)
  qed
qed

end

subsection \<open>Simulation\<close>

text \<open>
  Modules that move their state along a preorder with every call: so does the controller,
  whatever it is asked to do.  First the calls of the profile's handlers, which make no
  client.
\<close>

locale server_simulation = client_runtime md act nc ns ready
  for md :: "'w modules" and act nc ns ready +
  fixes R :: "'w \<Rightarrow> 'w \<Rightarrow> bool"
  assumes R_refl: "R w w" and R_trans: "R a b \<Longrightarrow> R b c \<Longrightarrow> R a c"
    and R_load_server: "md_load_server md k pm w = (w', e) \<Longrightarrow> R w w'"
    and R_load_client: "md_load_client md k pm w = (w', e) \<Longrightarrow> R w w'"
    and R_create_server: "md_create_server md k a1 b1 c1 d1 f1 sz w = Inr (w', r) \<Longrightarrow> R w w'"
    and R_teardown_server: "n < ns w \<Longrightarrow> md_teardown_server md n w = Inr w' \<Longrightarrow> R w w'"
begin

lemma load_modules_along:
  assumes "\<And>k w w' e. load k pm w = (w', e) \<Longrightarrow> R w w'" and "load_modules load pm ps tg = (tg', e)"
  shows "R (tg_world tg) (tg_world tg')"
proof -
  have step: "R d d'" if "f \<in> set (map (\<lambda>k. load k pm) ps)" "f d = (d', e')" for f d d' e'
    using that assms(1) by auto
  have "seq_steps (map (\<lambda>k. load k pm) ps) w = (w', e) \<Longrightarrow> R w w'" for w w' e
    by (erule seq_steps_invariant [where R = R]) (fact step R_refl R_trans)+
  then show ?thesis using assms(2) by (auto simp: load_modules_def split: prod.splits)
qed

lemma create_clients_world [simp]: "tg_world (create_net_bat_tgen_clients tg) = tg_world tg"
  by (simp add: create_net_bat_tgen_clients_def split: option.splits)

lemma create_servers_along:
  assumes "foldS (create_server_on env k) addrs (w, rs) = Inr (w', rs')" and "te_modules env = md"
  shows "R w w'"
proof -
  have "R (fst (w, rs)) (fst (w', rs')) \<and> True"
  proof (rule foldS_along [OF assms(1), where P = "\<lambda>_. True" and R = "\<lambda>a b. R (fst a) (fst b)"])
    fix a s s'
    assume "create_server_on env k a s = Inr s'"
    then show "R (fst s) (fst s') \<and> True"
      using R_create_server assms(2) by (auto simp: create_server_on_def bindS_Inr_iff)
  qed (use R_refl R_trans in auto)
  then show ?thesis by simp
qed

lemma start_servers_along:
  assumes "te_modules env = md" and "start_servers env pm addrs ps tg = Inr (tg', fin)"
  shows "R (tg_world tg) (tg_world tg')"
  using assms(2)
proof (induction ps arbitrary: tg)
  case Nil
  then show ?case using R_refl by simp
next
  case (Cons k ps)
  obtain w1 e where l: "md_load_server md k pm (tg_world tg) = (w1, e)" by fastforce
  show ?case
  proof (cases e)
    case (Some err)
    then show ?thesis using Cons.prems l assms(1) R_load_server [OF l] by auto
  next
    case None
    then obtain w2 rs where c: "foldS (create_server_on env k) addrs (w1, []) = Inr (w2, rs)"
      and rest: "start_servers env pm addrs ps (tg\<lparr>tg_world := w2,
        tg_servers_map := AList.update k rs (tg_servers_map tg)\<rparr>) = Inr (tg', fin)"
      using Cons.prems l assms(1) by (auto simp: bindS_Inr_iff)
    show ?thesis
      using R_trans [OF R_load_server [OF l] R_trans [OF create_servers_along [OF c assms(1)]]]
        Cons.IH [OF rest] by simp
  qed
qed

lemma stop_servers_along:
  assumes "te_modules env = md" and "view_ok vw" and "stop_servers env vw tg = Inr tg'"
    and "tgc_typed nc ns env tg"
  shows "R (tg_world tg) (tg_world tg')"
proof -
  obtain w where w: "foldS (\<lambda>(_, rs). foldS (md_teardown_server md) rs)
      (vw_servers_order vw (tg_servers_map tg)) (tg_world tg) = Inr w" "tg' = tg\<lparr>tg_world := w\<rparr>"
    using assms(1,3) by (auto simp: stop_servers_def bindS_Inr_iff)
  have "R (tg_world tg) w \<and> ns w = ns (tg_world tg)"
  proof (rule foldS_along [OF w(1), where P = "\<lambda>w. ns w = ns (tg_world tg)", OF _ R_refl R_trans])
    fix e w1 w2
    assume e: "e \<in> set (vw_servers_order vw (tg_servers_map tg))" "ns w1 = ns (tg_world tg)"
      and f: "(\<lambda>(_, rs). foldS (md_teardown_server md) rs) e w1 = Inr w2"
    have lt: "n < ns (tg_world tg)" if "n \<in> set (snd e)" for n
      using that e(1) assms(4) view_ok_sets(3) [OF assms(2)] by (auto simp: tgc_typed_def list_all_iff)
    have f': "foldS (md_teardown_server md) (snd e) w1 = Inr w2" using f by (cases e) simp
    show "R w1 w2 \<and> ns w2 = ns (tg_world tg)"
    proof (rule foldS_along [OF f', where P = "\<lambda>w. ns w = ns (tg_world tg)", OF e(2) R_refl R_trans])
      fix n w3 w4
      assume n: "n \<in> set (snd e)" "ns w3 = ns (tg_world tg)" "md_teardown_server md n w3 = Inr w4"
      then have "n < ns w3" using lt by simp
      then show "R w3 w4 \<and> ns w4 = ns (tg_world tg)"
        using R_teardown_server [OF _ n(3)] teardown_server [OF _ n(3)] n(2)
        by (simp add: same_objects_def)
    qed
  qed simp
  then show ?thesis using w(2) by simp
qed

lemma add_profile_along:
  assumes "te_modules env = md" and "add_profile env vw cm tg = Inr tg'"
  shows "R (tg_world tg) (tg_world tg')"
proof (cases "load_config (te_yaml env) cm")
  case (Inl e)
  then show ?thesis using assms(2) R_refl by (simp add: add_profile_def)
next
  case cfg: (Inr c)
  then obtain a where a: "vw_addrs vw = Inr a"
    using assms(2) by (auto simp: add_profile_def Let_def bindS_Inr_iff)
  show ?thesis
  proof (cases a)
    case (Inl e)
    then show ?thesis using assms(2) cfg a R_refl by (auto simp: add_profile_def Let_def)
  next
    case (Inr addrs)
    obtain tg2 fin where st: "start_servers env (cfg_profile_map c) (vw_addr_order vw addrs)
        (vw_order vw (te_proto_servers env)) (tg\<lparr>tg_config := Some c\<rparr>) = Inr (tg2, fin)"
      using assms(2) cfg a Inr by (auto simp: add_profile_def Let_def bindS_Inr_iff)
    obtain tg3 e where l: "load_modules (md_load_client md) (cfg_profile_map c)
        (vw_order vw (te_proto_clients env)) tg2 = (tg3, e)"
      by fastforce
    note r2 = start_servers_along [OF assms(1) st]
    have r3: "R (tg_world tg2) (tg_world tg3)"
      by (rule load_modules_along [OF _ l]) (rule R_load_client)
    show ?thesis
      using assms cfg a Inr st l r2 R_trans [OF r2 r3]
      by (auto simp: add_profile_def Let_def split: if_splits option.splits)
  qed
qed

end

text \<open>And all the calls.\<close>

locale event_simulation = server_simulation md act nc ns ready R
  for md :: "'w modules" and act nc ns ready R +
  assumes R_teardown_client: "n < nc w \<Longrightarrow> md_teardown_client md n w = Inr w' \<Longrightarrow> R w w'"
begin

lemma teardown_pairs_along:
  assumes "tgc_typed nc ns env tg" and "te_modules env = md" and "teardown_pairs env tg = Inr tg'"
  shows "R (tg_world tg) (tg_world tg')"
proof -
  obtain w where w: "foldS (teardown_pair env) (pairs_of tg) (tg_world tg) = Inr w"
    "tg' = tg\<lparr>tg_world := w\<rparr>"
    using assms(3) by (auto simp: teardown_pairs_def bindS_Inr_iff)
  have "R (tg_world tg) w \<and> nc w = nc (tg_world tg)"
  proof (rule foldS_along [OF w(1), where P = "\<lambda>w. nc w = nc (tg_world tg)", OF _ R_refl R_trans])
    fix p w1 w2
    assume p: "p \<in> set (pairs_of tg)" "nc w1 = nc (tg_world tg)" "teardown_pair env p w1 = Inr w2"
    then obtain n where n: "bp_client_connection p = Some n" "md_teardown_client md n w1 = Inr w2"
      using assms(2) by (auto simp: teardown_pair_def split: option.splits)
    have lt: "n < nc w1" using tgc_typed_pairs [OF assms(1) p(1)] n(1) p(2) by (simp add: pair_typed_def)
    then have "same_objects nc ns ready w1 w2"
      using teardown_ready teardown_early n(2) by (metis Inr_Inl_False sum.inject(2))
    then show "R w1 w2 \<and> nc w2 = nc (tg_world tg)"
      using R_teardown_client [OF lt n(2)] p(2) by (simp add: same_objects_def)
  qed simp
  then show ?thesis using w(2) by simp
qed

lemma delete_clients_along:
  "tgc_typed nc ns env tg \<Longrightarrow> te_modules env = md \<Longrightarrow> delete_net_bat_tgen_clients env tg = Inr tg' \<Longrightarrow>
     R (tg_world tg) (tg_world tg')"
  using teardown_pairs_along R_refl
  by (fastforce simp: delete_net_bat_tgen_clients_def bindS_Inr_iff split: if_splits)

lemma restart_clients_along:
  "tgc_typed nc ns env tg \<Longrightarrow> te_modules env = md \<Longrightarrow> restart_net_bat_tgen_clients env tg = Inr tg' \<Longrightarrow>
     R (tg_world tg) (tg_world tg')"
  using teardown_pairs_along R_refl
  by (fastforce simp: restart_net_bat_tgen_clients_def bindS_Inr_iff split: if_splits)

lemma pairing_event_world:
  assumes "handle_net_bat_pairing_add_event env vw cm tg = Inr tg'"
  shows "tg_world tg' = tg_world tg"
proof -
  obtain r where "handle_add_net_bat_config_map (te_pairing env) (vw_interfaces vw) (vw_addrs vw) cm
      (te_namespace env) (te_pod_name env) = Inr r"
    using assms by (auto simp: handle_net_bat_pairing_add_event_def bindS_Inr_iff)
  then show ?thesis
    using assms by (cases r) (auto simp: handle_net_bat_pairing_add_event_def Let_def split: if_splits)
qed

lemma update_profile_along:
  assumes "te_modules env = md" and "tgc_typed nc ns env tg" and "update_profile env vw cm tg = Inr tg'"
  shows "R (tg_world tg) (tg_world tg')"
proof -
  obtain c where c: "tg_config tg = Some c"
    using assms(3) by (auto simp: update_profile_def split: option.splits)
  obtain c1 e1 where r: "reload_config (te_yaml env) cm c = (c1, e1)" by fastforce
  obtain tg1 e2 where l1: "load_modules (md_load_server md) (cfg_profile_map c1)
      (vw_order vw (te_proto_servers env)) (tg\<lparr>tg_config := Some c1\<rparr>) = (tg1, e2)"
    by fastforce
  obtain tg2 e3 where l2: "load_modules (md_load_client md) (cfg_profile_map c1)
      (vw_order vw (te_proto_clients env)) tg1 = (tg2, e3)"
    by fastforce
  have t1: "tgc_typed nc ns env tg1"
    by (rule load_modules_typed [OF _ l1]) (rule load_server, simp_all add: assms(2))
  have t2: "tgc_typed nc ns env tg2"
    by (rule load_modules_typed [OF _ l2 t1]) (rule load_client)
  have r1: "R (tg_world tg) (tg_world tg1)"
    using load_modules_along [OF _ l1] R_load_server by fastforce
  have "R (tg_world tg1) (tg_world tg2)"
    by (rule load_modules_along [OF _ l2]) (rule R_load_client)
  then have r2: "R (tg_world tg) (tg_world tg2)" by (rule R_trans [OF r1])
  have r3: "restart_net_bat_tgen_clients env tg2 = Inr tg' \<Longrightarrow> R (tg_world tg) (tg_world tg')"
    using R_trans [OF r2] restart_clients_along [OF t2 assms(1)] by blast
  show ?thesis
    using assms(1,3) c r l1 l2 r1 r2 r3 R_refl
    by (auto simp: update_profile_def split: if_splits option.splits)
qed

lemma handle_event_along:
  assumes "te_modules env = md" and "view_ok vw" and "tgc_typed nc ns env tg"
    and "handle_event env vw ev tg = Inr tg'"
  shows "R (tg_world tg) (tg_world tg')"
proof -
  have del: "R (tg_world tg) (tg_world tg1)"
    if "delete_net_bat_tgen_clients env (tg\<lparr>tg_net_pair_resource_version := v\<rparr>) = Inr tg1" for v tg1
    using delete_clients_along [of env "tg\<lparr>tg_net_pair_resource_version := v\<rparr>"] assms(1,3) that by simp
  have up: "R (tg_world tg) (tg_world tg')" if u: "update_pairing env vw cm tg = Inr tg'" for cm
  proof (cases "cm_resource_version cm = tg_net_pair_resource_version tg")
    case True
    then show ?thesis using u R_refl by (simp add: update_pairing_def)
  next
    case False
    then obtain tg1 where "delete_net_bat_tgen_clients env
        (tg\<lparr>tg_net_pair_resource_version := cm_resource_version cm\<rparr>) = Inr tg1"
      and "handle_net_bat_pairing_add_event env vw cm tg1 = Inr tg'"
      using u by (auto simp: update_pairing_def bindS_Inr_iff)
    then show ?thesis using del pairing_event_world by fastforce
  qed
  have ap: "add_pairing env vw cm tg = Inr tg' \<Longrightarrow> R (tg_world tg) (tg_world tg')" for cm
    using pairing_event_world R_refl by (fastforce simp: add_pairing_def)
  have dp: "delete_pairing env tg = Inr tg' \<Longrightarrow> R (tg_world tg) (tg_world tg')"
    using del by (simp add: delete_pairing_def)
  have df: "delete_profile env vw tg = Inr tg' \<Longrightarrow> R (tg_world tg) (tg_world tg')"
    using stop_servers_along [OF assms(1,2) _ assms(3)] by (auto simp: delete_profile_def bindS_Inr_iff)
  have st: "R (tg_world tg) (tg_world tg')" if s: "stop_tgc env vw tg = Inr tg'"
  proof -
    obtain tg1 where d: "delete_net_bat_tgen_clients env tg = Inr tg1"
      and s1: "stop_servers env vw tg1 = Inr tg'"
      using s by (auto simp: stop_tgc_def bindS_Inr_iff)
    show ?thesis
      using R_trans [OF delete_clients_along [OF assms(3,1) d]]
        stop_servers_along [OF assms(1,2) s1 delete_clients_typed [OF assms(3,1) d]] by blast
  qed
  show ?thesis
    using handle_event_cases [OF assms(4)] up ap dp df st R_refl add_profile_along [OF assms(1)]
      update_profile_along [OF assms(1,3)]
    by blast
qed

end

text \<open>With what the goroutines of the clients do, every step of the controller is such a move.\<close>

locale client_simulation = event_simulation md act nc ns ready R
  for md :: "'w modules" and act nc ns ready R +
  assumes R_clear_pending: "R w (md_clear_pending md at w)"
    and R_create_client:
      "bp_pending p = Map.empty \<Longrightarrow> md_create_client md k at p sz w = Inr (w', r) \<Longrightarrow> R w w'"
    and R_setup_failed:
      "n < nc w \<Longrightarrow> md_setup_client md n w = Inr (w', Some err) \<Longrightarrow> R w w'"
    and R_setup_started:
      "n < nc w \<Longrightarrow> md_setup_client md n w = Inr (w', None) \<Longrightarrow> R w (md_start_client md n w')"
    and R_act: "act w w' \<Longrightarrow> R w w'"
begin

lemma task_step_along:
  assumes "te_modules env = md" and "tgc_typed nc ns env tg" and "k < length (tg_tasks tg)"
    and "task_step env k tg = Inr tg'"
  shows "R (tg_world tg) (tg_world tg')"
proof -
  let ?t = "tg_tasks tg ! k"
  have t: "task_typed (tg_arrays tg) ?t"
    using assms(2,3) by (simp add: tgc_typed_def list_all_length)
  obtain tg1 t1 where r: "(case tk_pc ?t of AtCreate \<Rightarrow> task_create env ?t tg
      | AtSetup \<Rightarrow> task_setup env ?t tg) = Inr (tg1, t1)"
    and w: "tg_world tg' = tg_world tg1"
    using assms(4) by (auto simp: task_step_def Let_def bindS_Inr_iff)
  have "R (tg_world tg) (tg_world tg1)"
  proof (cases "tk_pc ?t")
    case AtCreate
    let ?p = "(tg_arrays tg ! tk_array ?t ! tk_index ?t)\<lparr>bp_pending := Map.empty\<rparr>"
    let ?at = "(tk_array ?t, tk_index ?t)"
    have p: "tg_arrays (clear_pending env ?at tg) ! tk_array ?t ! tk_index ?t = ?p"
      "tg_world (clear_pending env ?at tg) = md_clear_pending md ?at (tg_world tg)"
      using t assms(1) by (simp_all add: task_typed_def set_pair_nth(2) clear_pending_def)
    show ?thesis
    proof (cases "bp_traffic_profile ?p \<in> set (te_proto_clients env)")
      case False
      then show ?thesis using r AtCreate R_clear_pending p by (auto simp: task_create_def Let_def)
    next
      case True
      then obtain w1 r1 where c: "md_create_client md (bp_traffic_profile ?p) ?at ?p
          (te_read_buffer_size env) (md_clear_pending md ?at (tg_world tg)) = Inr (w1, r1)"
        using r AtCreate assms(1) p by (auto simp: task_create_def Let_def bindS_Inr_iff)
      then have "tg_world tg1 = w1"
        using r AtCreate assms(1) p True by (cases r1) (auto simp: task_create_def Let_def)
      then show ?thesis using R_trans [OF R_clear_pending R_create_client [OF _ c]] by simp
    qed
  next
    case AtSetup
    then obtain n where n: "bp_client_connection (tg_arrays tg ! tk_array ?t ! tk_index ?t) = Some n"
      using r by (auto simp: task_setup_def split: option.splits)
    have "pair_typed (te_proto_clients env) (nc (tg_world tg)) (tg_arrays tg ! tk_array ?t ! tk_index ?t)"
      using assms(2) t by (auto simp: tgc_typed_def list_all_length task_typed_def)
    then have lt: "n < nc (tg_world tg)" using n by (simp add: pair_typed_def)
    obtain w1 e where s: "md_setup_client md n (tg_world tg) = Inr (w1, e)"
      using assms(1) r AtSetup n by (auto simp: task_setup_def bindS_Inr_iff)
    have "tg_world tg1 = (if e = None then md_start_client md n w1 else w1)"
      using assms(1) r AtSetup n s by (auto simp: task_setup_def split: option.splits)
    then show ?thesis
      using s R_setup_failed [OF lt] R_setup_started [OF lt] by (cases e) simp_all
  qed
  then show ?thesis using w by simp
qed

lemma step_along:
  assumes "tgc_step env act tg (Inr tg')" and "te_modules env = md" and "tgc_typed nc ns env tg"
  shows "R (tg_world tg) (tg_world tg')"
  using assms(1)
proof (cases rule: tgc_step.cases)
  case (event vw ev)
  then show ?thesis using handle_event_along [OF assms(2) _ assms(3)] by metis
next
  case (client_task k)
  then show ?thesis using task_step_along [OF assms(2,3)] by metis
next
  case (activity w)
  then show ?thesis using R_act by simp
qed

end

end
