(* ===== verification/TgcWorld.thy ===== *)
theory TgcWorld
  imports TgcRuntime TgenShutdown TappSystem
begin

section \<open>The UDP modules and their goroutines\<close>

text \<open>
  What is behind the controller's interfaces in this program: the modules registered under
  \<open>udp\<close> (the two \<open>init\<close> functions) with their configurations, the client streams and
  servers they made, numbered in the order they were made, with their goroutines, and the
  shared metric registry.  Each interface call is the operation modelled in \<open>Tapp\<close> and
  \<open>TgenStream\<close>; between two calls any goroutine may take a step (\<open>udp_work\<close>).

  A stream keeps the pointer to its pair.  The model gives each stream its own copy and
  writes every change through to the other streams of the same pair.  There are several
  of them after a restart, and while an older client of the pair is still running.  The
  pair's \<open>ClientConnection\<close> is not kept current in the streams' copies: only the controller
  reads it.  What the goroutines of a stream do while \<open>TearDownConnection\<close> waits for them is
  seen as steps after it (they finish: \<open>TgenShutdown\<close>).
\<close>

subsection \<open>State\<close>

record 'r udp_libs =
  ul_codec :: codec
  ul_prom :: "'r prom"
  ul_client_net :: client_net
  ul_server_net :: server_net

text \<open>The local variables of the three goroutines one start of a stream makes.\<close>

record goroutines =
  gr_sender :: sender
  gr_scanner :: scanner
  gr_reader :: read_pc
  gr_buffer :: "byte list"
  gr_written :: "byte list list"

text \<open>
  \<open>uw_pair_at\<close> says which pair a stream was created for.  \<open>uw_disturbed\<close> is an auxiliary
  variable, which nothing reads: it is set for a stream whose pair something else has
  written to since the stream was created, and for one that was set up twice.
\<close>

record 'r udp_world =
  uw_clients :: "stream list"
  uw_pair_at :: "nat \<Rightarrow> nat \<times> nat"
  uw_procs :: "nat \<Rightarrow> goroutines list"
  uw_disturbed :: "nat \<Rightarrow> bool"
  uw_servers :: "server_sys list"
  uw_client_config :: tgen_config
  uw_server_config :: tapp_config
  uw_registry :: 'r

definition udp_initial_world :: "'r \<Rightarrow> 'r udp_world" where
  "udp_initial_world reg =
     \<lparr>uw_clients = [], uw_pair_at = (\<lambda>_. (0, 0)), uw_procs = (\<lambda>_. []), uw_disturbed = (\<lambda>_. False),
      uw_servers = [], uw_client_config = tgen_initial_config,
      uw_server_config = tapp_initial_config, uw_registry = reg\<rparr>"

subsection \<open>Shared pairs\<close>

definition put_stream :: "nat \<Rightarrow> 'r stream_reg \<Rightarrow> 'r udp_world \<Rightarrow> 'r udp_world" where
  "put_stream n sr w = w\<lparr>uw_clients := (uw_clients w)[n := fst sr], uw_registry := snd sr\<rparr>"

text \<open>A write \<open>f\<close> to the pair of the streams for which \<open>P\<close> holds.\<close>

definition write_pairs ::
  "(nat \<Rightarrow> bool) \<Rightarrow> (bat_pair \<Rightarrow> bat_pair) \<Rightarrow> 'r udp_world \<Rightarrow> 'r udp_world" where
  "write_pairs P f w =
     w\<lparr>uw_clients :=
         map (\<lambda>m. if P m then (uw_clients w ! m)\<lparr>st_pair := f (st_pair (uw_clients w ! m))\<rparr>
                  else uw_clients w ! m) [0..<length (uw_clients w)],
       uw_disturbed := (\<lambda>m. uw_disturbed w m \<or> P m)\<rparr>"

text \<open>A stream that may have changed its pair.\<close>

definition put_shared :: "nat \<Rightarrow> 'r stream_reg \<Rightarrow> 'r udp_world \<Rightarrow> 'r udp_world" where
  "put_shared n sr w =
     (let p = st_pair (uw_clients w ! n); p' = st_pair (fst sr)
      in write_pairs (\<lambda>m. m \<noteq> n \<and> uw_pair_at w m = uw_pair_at w n \<and> p' \<noteq> p)
           (\<lambda>q. q\<lparr>bp_destination := bp_destination p', bp_pending := bp_pending p'\<rparr>)
           (put_stream n sr w))"

text \<open>The destination of the pair a new stream is made for, as earlier streams have left it.\<close>

definition shared_destination :: "nat \<times> nat \<Rightarrow> 'r udp_world \<Rightarrow> bat_pair \<Rightarrow> bat_pair" where
  "shared_destination at w p =
     (case filter (\<lambda>m. uw_pair_at w m = at) [0..<length (uw_clients w)] of
        [] \<Rightarrow> p
      | m # _ \<Rightarrow> p\<lparr>bp_destination := bp_destination (st_pair (uw_clients w ! m))\<rparr>)"

subsection \<open>The interface calls\<close>

definition udp_load_server :: "string \<Rightarrow> profile option \<Rightarrow> 'r udp_world \<Rightarrow> 'r udp_world \<times> go_error option" where
  "udp_load_server protocol pm w =
     (case tapp_load_profile pm (uw_server_config w) of (c, e) \<Rightarrow> (w\<lparr>uw_server_config := c\<rparr>, e))"

definition udp_load_client :: "string \<Rightarrow> profile option \<Rightarrow> 'r udp_world \<Rightarrow> 'r udp_world \<times> go_error option" where
  "udp_load_client protocol pm w =
     (case tgen_load_profile pm (uw_client_config w) of (c, e) \<Rightarrow> (w\<lparr>uw_client_config := c\<rparr>, e))"

definition udp_create_server ::
  "'r udp_libs \<Rightarrow> string \<Rightarrow> string \<Rightarrow> string \<Rightarrow> string \<Rightarrow> string \<Rightarrow> string \<Rightarrow> int64
    \<Rightarrow> 'r udp_world \<Rightarrow> ('r udp_world \<times> nat result) go" where
  "udp_create_server ul protocol namespace pod node ip ifn sz w =
     bindS (create_server (ul_codec ul) (ul_prom ul) (ul_server_net ul)
              (uw_server_config w) namespace pod node ip sz (uw_registry w))
       (\<lambda>(r, reg). Inr (case r of
            Inl e \<Rightarrow> (w\<lparr>uw_registry := reg\<rparr>, Inl e)
          | Inr s \<Rightarrow> (w\<lparr>uw_registry := reg, uw_servers := uw_servers w @ [server_start s]\<rparr>,
                      Inr (length (uw_servers w)))))"

definition udp_teardown_server :: "'r udp_libs \<Rightarrow> nat \<Rightarrow> 'r udp_world \<Rightarrow> 'r udp_world go" where
  "udp_teardown_server ul n w =
     (let sy = uw_servers w ! n; s = teardown_server_begin (sy_server sy)
      in Inr (w\<lparr>uw_servers := (uw_servers w)[n := sy\<lparr>sy_server := s\<rparr>],
                uw_registry := teardown_server_finish (ul_prom ul) s (uw_registry w)\<rparr>))"

definition udp_clear_pending :: "nat \<times> nat \<Rightarrow> 'r udp_world \<Rightarrow> 'r udp_world" where
  "udp_clear_pending at w =
     write_pairs (\<lambda>m. uw_pair_at w m = at) (\<lambda>q. q\<lparr>bp_pending := Map.empty\<rparr>) w"

definition udp_create_client ::
  "'r udp_libs \<Rightarrow> string \<Rightarrow> nat \<times> nat \<Rightarrow> bat_pair \<Rightarrow> int64 \<Rightarrow> 'r udp_world
    \<Rightarrow> ('r udp_world \<times> nat result) go" where
  "udp_create_client ul protocol at p sz w =
     bindS (create_client (ul_codec ul) (shared_destination at w p) sz)
       (\<lambda>r. Inr (case r of
            Inl e \<Rightarrow> (w, Inl e)
          | Inr s \<Rightarrow>
              (let n = length (uw_clients w)
               in (w\<lparr>uw_clients := uw_clients w @ [s], uw_pair_at := (uw_pair_at w)(n := at),
                     uw_procs := (uw_procs w)(n := []), uw_disturbed := (uw_disturbed w)(n := False)\<rparr>,
                   Inr n))))"

definition udp_setup_client ::
  "'r udp_libs \<Rightarrow> nat \<Rightarrow> 'r udp_world \<Rightarrow> ('r udp_world \<times> go_error option) go" where
  "udp_setup_client ul n w =
     (case setup_connection (ul_prom ul) (ul_client_net ul) (uw_client_config w)
             (uw_clients w ! n, uw_registry w) of
        (sr, e) \<Rightarrow>
          Inr ((put_shared n sr w)\<lparr>uw_disturbed := (\<lambda>m. uw_disturbed (put_shared n sr w) m \<or>
                  (m = n \<and> st_traffic_not_started (uw_clients w ! n) \<noteq> None))\<rparr>, e))"

text \<open>The three \<open>go\<close> statements.\<close>

definition new_goroutines :: goroutines where
  "new_goroutines =
     \<lparr>gr_sender = new_sender, gr_scanner = new_scanner, gr_reader = RdInit, gr_buffer = [],
      gr_written = []\<rparr>"

definition udp_start_client :: "nat \<Rightarrow> 'r udp_world \<Rightarrow> 'r udp_world" where
  "udp_start_client n w = w\<lparr>uw_procs := (uw_procs w)(n := uw_procs w n @ [new_goroutines])\<rparr>"

definition udp_teardown_client :: "'r udp_libs \<Rightarrow> nat \<Rightarrow> 'r udp_world \<Rightarrow> 'r udp_world go" where
  "udp_teardown_client ul n w =
     bindS (teardown_begin (ul_prom ul) (uw_clients w ! n, uw_registry w))
       (\<lambda>sr. Inr (put_stream n (teardown_finish (ul_prom ul) sr) w))"

definition udp_modules :: "'r udp_libs \<Rightarrow> 'r udp_world modules" where
  "udp_modules ul =
     \<lparr>md_load_server = udp_load_server, md_create_server = udp_create_server ul,
      md_teardown_server = udp_teardown_server ul, md_load_client = udp_load_client,
      md_clear_pending = udp_clear_pending, md_create_client = udp_create_client ul,
      md_setup_client = udp_setup_client ul, md_start_client = udp_start_client,
      md_teardown_client = udp_teardown_client ul\<rparr>"

subsection \<open>The goroutines\<close>

text \<open>A stream with one set of its goroutines is a running client stream of \<open>TgenSystem\<close>.\<close>

definition stream_sys :: "'r udp_world \<Rightarrow> nat \<Rightarrow> goroutines \<Rightarrow> 'r client_sys" where
  "stream_sys w n g =
     \<lparr>cs_stream = uw_clients w ! n, cs_conf = uw_client_config w, cs_registry = uw_registry w,
      cs_sender = gr_sender g, cs_scanner = gr_scanner g, cs_reader = gr_reader g,
      cs_buffer = gr_buffer g, cs_panic = None, cs_written = gr_written g\<rparr>"

definition goroutines_of :: "'r client_sys \<Rightarrow> goroutines" where
  "goroutines_of sy =
     \<lparr>gr_sender = cs_sender sy, gr_scanner = cs_scanner sy, gr_reader = cs_reader sy,
      gr_buffer = cs_buffer sy, gr_written = cs_written sy\<rparr>"

definition put_sys :: "nat \<Rightarrow> nat \<Rightarrow> 'r client_sys \<Rightarrow> 'r udp_world \<Rightarrow> 'r udp_world" where
  "put_sys n k sy w =
     (put_shared n (cs_stream sy, cs_registry sy) w)
       \<lparr>uw_procs := (uw_procs w)(n := (uw_procs w n)[k := goroutines_of sy])\<rparr>"

inductive udp_work :: "'r udp_libs \<Rightarrow> 'r udp_world \<Rightarrow> 'r udp_world \<Rightarrow> bool"
  for ul :: "'r udp_libs" where
  client: "n < length (uw_clients w) \<Longrightarrow> k < length (uw_procs w n) \<Longrightarrow>
    client_step (ul_codec ul) (ul_prom ul) (stream_sys w n (uw_procs w n ! k)) sy \<Longrightarrow>
    cs_panic sy = None \<Longrightarrow> udp_work ul w (put_sys n k sy w)"
| server: "n < length (uw_servers w) \<Longrightarrow>
    server_step (ul_codec ul) (ul_prom ul) (uw_servers w ! n) sy \<Longrightarrow> sy_panic sy = None \<Longrightarrow>
    udp_work ul w (w\<lparr>uw_servers := (uw_servers w)[n := sy]\<rparr>)"

inductive_cases udp_workE: "udp_work ul w w'"

lemma write_pairs_simps [simp]:
  "length (uw_clients (write_pairs P f w)) = length (uw_clients w)"
  "m < length (uw_clients w) \<Longrightarrow> uw_clients (write_pairs P f w) ! m =
     (if P m then (uw_clients w ! m)\<lparr>st_pair := f (st_pair (uw_clients w ! m))\<rparr> else uw_clients w ! m)"
  "uw_disturbed (write_pairs P f w) m \<longleftrightarrow> uw_disturbed w m \<or> P m"
  "uw_pair_at (write_pairs P f w) = uw_pair_at w" "uw_procs (write_pairs P f w) = uw_procs w"
  "uw_servers (write_pairs P f w) = uw_servers w" "uw_registry (write_pairs P f w) = uw_registry w"
  "uw_client_config (write_pairs P f w) = uw_client_config w"
  "uw_server_config (write_pairs P f w) = uw_server_config w"
  by (simp_all add: write_pairs_def)

lemma put_stream_simps [simp]:
  "uw_clients (put_stream n sr w) = (uw_clients w)[n := fst sr]"
  "uw_pair_at (put_stream n sr w) = uw_pair_at w" "uw_procs (put_stream n sr w) = uw_procs w"
  "uw_disturbed (put_stream n sr w) = uw_disturbed w"
  "uw_servers (put_stream n sr w) = uw_servers w" "uw_registry (put_stream n sr w) = snd sr"
  "uw_client_config (put_stream n sr w) = uw_client_config w"
  by (simp_all add: put_stream_def)

text \<open>The streams after a stream was put back: its own new state, and shared writes elsewhere.\<close>

lemma put_shared_simps [simp]:
  "length (uw_clients (put_shared n sr w)) = length (uw_clients w)"
  "uw_pair_at (put_shared n sr w) = uw_pair_at w" "uw_procs (put_shared n sr w) = uw_procs w"
  "uw_servers (put_shared n sr w) = uw_servers w" "uw_registry (put_shared n sr w) = snd sr"
  "uw_client_config (put_shared n sr w) = uw_client_config w"
  "n < length (uw_clients w) \<Longrightarrow> uw_clients (put_shared n sr w) ! n = fst sr"
  "uw_disturbed (put_shared n sr w) n = uw_disturbed w n"
  by (simp_all add: put_shared_def Let_def)

lemma put_shared_other:
  assumes "m < length (uw_clients w)" and "m \<noteq> n"
  shows "\<exists>q. uw_clients (put_shared n sr w) ! m = (uw_clients w ! m)\<lparr>st_pair := q\<rparr>"
    and "\<not> uw_disturbed (put_shared n sr w) m \<Longrightarrow>
      \<not> uw_disturbed w m \<and> uw_clients (put_shared n sr w) ! m = uw_clients w ! m"
  using assms by (auto simp: put_shared_def Let_def) (metis stream.surjective stream.update_convs(4))+

end
