(* ===== verification/TgcUdp.thy ===== *)
theory TgcUdp
  imports TgcWorld
begin

section \<open>The controller over the UDP modules\<close>

text \<open>
  The UDP modules of \<open>TgcWorld\<close> keep the contract of \<open>TgcRuntime\<close>, and what the controller
  does to its clients is a run of their life cycle, whatever the goroutines do
  (\<open>udp_activity\<close>, of which their steps are a special case).
\<close>

subsection \<open>The life of a stream\<close>

text \<open>
  The abstract states of a client as the controller uses it: created, set up without a
  connection (\<open>SetupConnection\<close> failed on the way to it), connected, stopped.
\<close>

datatype client_phase = PhCreated | PhUnconnected | PhConnected | PhStopped

definition phase_of :: "stream \<Rightarrow> client_phase" where
  "phase_of s =
     (if st_traffic_not_started s = None then PhCreated
      else if st_connection s = None then PhUnconnected
      else if st_stop s then PhStopped else PhConnected)"

definition phase_teardown :: "client_phase \<Rightarrow> client_phase option" where
  "phase_teardown ph =
     (case ph of
        PhCreated \<Rightarrow> None
      | PhUnconnected \<Rightarrow> Some PhUnconnected
      | PhConnected \<Rightarrow> Some PhStopped
      | PhStopped \<Rightarrow> Some PhStopped)"

definition phase_setup :: "client_phase \<Rightarrow> client_phase set" where
  "phase_setup ph =
     (case ph of
        PhCreated \<Rightarrow> {PhUnconnected, PhConnected}
      | PhUnconnected \<Rightarrow> {PhUnconnected, PhConnected}
      | PhConnected \<Rightarrow> {PhConnected}
      | PhStopped \<Rightarrow> {PhStopped})"

lemma close_conn_simps [simp]:
  "close_conn c = None \<longleftrightarrow> c = None" "close_conn (Some u) = Some (u\<lparr>uc_closed := True\<rparr>)"
  by (simp_all add: close_conn_def)

lemma teardown_finish_stream [simp]: "fst (teardown_finish pr sr) = fst sr"
  by (simp add: teardown_finish_def deregister_stream_metrics_def)

lemma teardown_phase:
  "teardown_begin pr (s, reg) = Inl e \<Longrightarrow> phase_teardown (phase_of s) = None"
  "teardown_begin pr (s, reg) = Inr sr \<Longrightarrow> phase_teardown (phase_of s) = Some (phase_of (fst sr))"
  by (auto simp: teardown_begin_def phase_teardown_def phase_of_def Let_def
      split: option.splits if_splits)

subsection \<open>Streams\<close>

text \<open>A stream without a connection was never stopped, and one with a connection was set up.\<close>

definition stream_ok :: "stream \<Rightarrow> bool" where
  "stream_ok s \<longleftrightarrow> (st_connection s = None \<longrightarrow> \<not> st_stop s) \<and>
     (st_traffic_not_started s = None \<longrightarrow> st_connection s = None)"

lemma new_stream_ok:
  "new_stream cd p n = Inr s \<Longrightarrow> stream_ok s \<and> phase_of s = PhCreated"
  by (auto simp: new_stream_def stream_ok_def phase_of_def split: sum.splits go_error.splits)

lemma teardown_ok:
  "stream_ok s \<Longrightarrow> teardown_begin pr (s, reg) = Inr sr \<Longrightarrow> stream_ok (fst sr)"
  by (auto simp: teardown_begin_def stream_ok_def Let_def split: option.splits if_splits)

lemma mark_destination_fields [simp]:
  "st_connection (mark_destination s) = st_connection s" "st_stop (mark_destination s) = st_stop s"
  "st_traffic_not_started (mark_destination s) = st_traffic_not_started s"
  by (simp_all add: mark_destination_def set_destination_def Let_def)

lemma set_destination_fields [simp]:
  "st_connection (set_destination f s) = st_connection s" "st_stop (set_destination f s) = st_stop s"
  "st_traffic_not_started (set_destination f s) = st_traffic_not_started s"
  by (simp_all add: set_destination_def)

lemma not_started_fields [simp]:
  "st_connection (not_started s) = st_connection s" "st_stop (not_started s) = st_stop s"
  "st_traffic_not_started (not_started s) = None \<longleftrightarrow> st_traffic_not_started s = None"
  by (simp_all add: not_started_def)

lemma connect_stream_fields:
  assumes "connect_stream net conf s = (s', e)"
  shows "st_stop s' = st_stop s"
    "st_traffic_not_started s' = None \<longleftrightarrow> st_traffic_not_started s = None"
    "st_connection s' = st_connection s \<or> st_connection s' \<noteq> None"
    "e = None \<Longrightarrow> st_connection s' \<noteq> None"
  using assms
  by (auto simp: connect_stream_def Let_def new_conn_def split: sum.splits option.splits)

lemma register_metric_fields:
  "register_metric pr m sr = (sr', e) \<Longrightarrow>
     st_stop (fst sr') = st_stop (fst sr) \<and> st_connection (fst sr') = st_connection (fst sr) \<and>
     st_traffic_not_started (fst sr') = st_traffic_not_started (fst sr)"
  by (auto simp: register_metric_def split: sum.splits)

definition same_life :: "stream \<Rightarrow> stream \<Rightarrow> bool" where
  "same_life s s' \<longleftrightarrow> st_stop s' = st_stop s \<and> st_connection s' = st_connection s \<and>
     st_traffic_not_started s' = st_traffic_not_started s"

lemma register_counter_life:
  assumes "register_counter pr name help val put sr = (sr', e)"
    and "\<And>m s. same_life s (put m s)"
  shows "same_life (fst sr) (fst sr')"
proof -
  define m where "m = new_counter prom_namespace (bp_traffic_profile (st_pair (fst sr))) name help
      (st_metric_labels (fst sr))"
  obtain s1 reg1 e1 where r: "register_metric pr m (put m (fst sr), snd sr) = ((s1, reg1), e1)"
    by (metis prod.collapse)
  have "same_life (fst sr) s1"
    using register_metric_fields [OF r] assms(2) [of "fst sr" m] by (simp add: same_life_def)
  moreover have "sr' = (s1, reg1) \<or> (\<exists>m1. sr' = (put m1 s1, reg1))"
    using assms(1) r
    by (auto simp: register_counter_def m_def [symmetric] Let_def split: option.splits if_splits sum.splits)
  ultimately show ?thesis using assms(2) by (auto simp: same_life_def)
qed

lemma register_stream_metrics_life:
  assumes "register_stream_metrics pr sr = (sr', e)"
  shows "same_life (fst sr) (fst sr')"
  using assms unfolding register_stream_metrics_def
proof (rule seq_steps_invariant [where R = "\<lambda>a b. same_life (fst a) (fst b)"])
  fix f d d' e'
  assume "f \<in> set (stream_metric_steps pr)" and f: "f d = (d', e')"
  then consider n h v put where "f = register_counter pr n h v put"
      "\<And>m s. same_life s (put m s)" | "f = register_latency pr"
    by (auto simp: stream_metric_steps_def same_life_def)
  then show "same_life (fst d) (fst d')"
  proof cases
    case 1
    then show ?thesis using register_counter_life f by blast
  next
    case 2
    then show ?thesis
      using f register_metric_fields by (fastforce simp: register_latency_def Let_def same_life_def)
  qed
qed (simp_all add: same_life_def)

lemma setup_fields:
  assumes "setup_connection pr net conf (s, reg) = ((s', reg'), e)"
  shows "st_stop s' = st_stop s \<and> st_traffic_not_started s' \<noteq> None \<and>
      (st_connection s' = st_connection s \<or> st_connection s' \<noteq> None) \<and>
      (e = None \<longrightarrow> st_connection s' \<noteq> None)"
proof -
  let ?m = "new_counter prom_namespace (bp_traffic_profile (st_pair s)) ''traffic_not_started''
      ''traffic not started'' (stream_labels conf (st_pair s))"
  let ?s1 = "s\<lparr>st_metric_labels := stream_labels conf (st_pair s), st_traffic_not_started := Some ?m\<rparr>"
  show ?thesis
  proof (cases "prom_register pr reg ?m")
    case (Inl msg)
    then show ?thesis using assms(1) by (auto simp: setup_connection_def Let_def)
  next
    case (Inr reg1)
    obtain s2 e2 where c: "connect_stream net conf ?s1 = (s2, e2)" by fastforce
    note cf = connect_stream_fields [OF c]
    show ?thesis
    proof (cases e2)
      case (Some err)
      then show ?thesis using assms(1) Inr c cf by (auto simp: setup_connection_def Let_def)
    next
      case None
      obtain s3 reg3 e3 where r: "register_stream_metrics pr
          (s2\<lparr>st_metric_labels := clear_server_labels (st_metric_labels s2)\<rparr>, reg1) = ((s3, reg3), e3)"
        by (metis prod.collapse)
      have "s' = s3"
        using assms(1) Inr c None r by (auto simp: setup_connection_def Let_def split: option.splits)
      then show ?thesis
        using register_stream_metrics_life [OF r] cf None by (auto simp: same_life_def)
    qed
  qed
qed

lemmas setup_not_started = setup_fields [THEN conjunct2, THEN conjunct1]

lemma setup_phase:
  assumes "setup_connection pr net conf (s, reg) = ((s', reg'), e)" and "stream_ok s"
  shows "stream_ok s'" and "phase_of s' \<in> phase_setup (phase_of s)"
    and "e = None \<Longrightarrow> phase_of s' \<noteq> PhUnconnected"
  using setup_fields [OF assms(1)] assms(2)
  by (auto simp: stream_ok_def phase_of_def phase_setup_def)

subsection \<open>What the goroutines of a stream may change of its life\<close>

definition stream_activity :: "stream \<Rightarrow> stream \<Rightarrow> bool" where
  "stream_activity s s' \<longleftrightarrow> same_life s s' \<or>
     (st_connection s \<noteq> None \<and> st_connection s' \<noteq> None \<and> st_stop s' = st_stop s \<and>
      (st_traffic_not_started s' = None \<longleftrightarrow> st_traffic_not_started s = None))"

lemma stream_activity_phase:
  "stream_activity s s' \<Longrightarrow> phase_of s' = phase_of s \<and> (stream_ok s \<longrightarrow> stream_ok s')"
  by (cases "same_life s s'")
    (simp add: phase_of_def stream_ok_def same_life_def,
      auto simp: stream_activity_def phase_of_def stream_ok_def)

lemma activity_same_life: "same_life s s' \<Longrightarrow> st_connection s \<noteq> None \<Longrightarrow> stream_activity s s'"
  by (simp add: stream_activity_def)

lemma same_life_updates [simp]:
  "same_life s s" "same_life s (set_pending f s)" "same_life s (count_dropped k s)"
  "same_life s (count_reply r k m s)" "same_life s (s\<lparr>st_is_stopped := i\<rparr>)"
  by (simp_all add: same_life_def set_pending_def count_dropped_def count_reply_def)

lemma same_life_trans: "same_life s t \<Longrightarrow> same_life t u \<Longrightarrow> same_life s u"
  by (simp add: same_life_def)

lemma client_handle_life:
  assumes "client_handle cd pr now rd buf (s, reg) = Inr (buf', sr')"
  shows "same_life s (fst sr')"
proof (rule client_handle_cases [OF assms])
  assume "sr' = (s, reg)"
  then show ?thesis by simp
next
  fix msg info
  assume r: "receive_reply pr now msg info (s, reg) = Inr sr'"
  have follow: "same_life (fst sr) (fst sr1)" if "follow_server pr info sr = Inr sr1" for sr sr1
  proof (cases "server_changed info (st_metric_labels (fst sr))")
    case True
    then have "register_stream_metrics pr (deregister_stream_metrics pr
        ((fst sr)\<lparr>st_metric_labels := set_server_labels info (st_metric_labels (fst sr))\<rparr>, snd sr)) =
        (sr1, None)"
      using that by (auto simp: follow_server_def reregister_stream_metrics_def split: prod.splits option.splits)
    from register_stream_metrics_life [OF this] show ?thesis
      by (simp add: same_life_def deregister_stream_metrics_def)
  qed (use that in \<open>simp add: follow_server_def\<close>)
  show ?thesis
  proof (cases "bp_pending (st_pair s) (sequence_number msg)")
    case None
    then show ?thesis using r by (auto simp: receive_reply_def)
  next
    case (Some v)
    then obtain m where "follow_server pr info (count_reply (sint (now - send_time_stamp msg))
        (sequence_number msg) m s, reg) = Inr sr'"
      using r by (auto simp: receive_reply_def Let_def bindS_Inr_iff)
    from follow [OF this] show ?thesis
      using same_life_trans [OF same_life_updates(4)] by (metis fst_conv)
  qed
qed

lemma redial_connection:
  "redial_destination net conf force s = (s', e) \<Longrightarrow> st_connection s \<noteq> None \<Longrightarrow>
     st_connection s' \<noteq> None"
  by (auto simp: redial_destination_def Let_def split: sum.splits if_splits option.splits)

lemma redial_fields:
  assumes "redial_destination net conf force s = (s', e)"
  shows "st_stop s' = st_stop s \<and> st_traffic_not_started s' = st_traffic_not_started s \<and>
     (st_connection s \<noteq> None \<longrightarrow> st_connection s' \<noteq> None)"
  using core_fields(2,17) [OF redial_core [OF assms]] redial_connection [OF assms] by simp

lemma redial_activity:
  "redial_destination net conf force s = (s', e) \<Longrightarrow> st_connection s \<noteq> None \<Longrightarrow>
     stream_activity s s'"
  using redial_fields by (simp add: stream_activity_def)

lemma scan_redial_activity:
  "st_connection s \<noteq> None \<Longrightarrow> stream_activity s (snd (scan_redial net conf now (t, s)))"
  using redial_activity
  by (auto simp: scan_redial_def Let_def stream_activity_def split: prod.splits)

lemma dummy_packet_activity:
  "st_connection s \<noteq> None \<Longrightarrow> stream_activity s (snd (dummy_packet net conf we k (d, s)))"
  using redial_activity
  by (auto simp: dummy_packet_def Let_def stream_activity_def split: prod.splits)

lemma client_done_life:
  "(\<And>sy. same_life (cs_stream sy) (cs_stream (f sy))) \<Longrightarrow>
     same_life (cs_stream sy) (cs_stream (client_done f sy))"
  unfolding client_done_def
  by (cases "wg_done (st_is_stopped (cs_stream sy))")
    (auto simp: same_life_def)

text \<open>Every step of the goroutines is such a change.\<close>

lemma reader_activity:
  assumes "st_connection (cs_stream sy) \<noteq> None"
  shows "stream_activity (cs_stream sy) (cs_stream (socket_read_step cd pr now rd sy))"
proof -
  have "same_life (cs_stream sy) (cs_stream (socket_read_step cd pr now rd sy))"
    using client_done_life [of "\<lambda>sy. sy\<lparr>cs_reader := RdDone\<rparr>" sy] client_handle_life
    by (auto simp: socket_read_step_def split: read_pc.splits sum.splits prod.splits)
  then show ?thesis using assms by (rule activity_same_life)
qed

lemma timeouts_activity:
  assumes "st_connection (cs_stream sy) \<noteq> None"
  shows "stream_activity (cs_stream sy) (cs_stream (timeouts_step net now1 now2 sy))"
proof (cases "tm_pc (cs_scanner sy)")
  case TimRedial
  then show ?thesis
    using scan_redial_activity [OF assms] by (simp add: timeouts_step_def put_scan_def Let_def)
next
  case TimLookup
  have "same_life (cs_stream sy) (snd (scan_lookup now1 now2 (cs_scanner sy, cs_stream sy)))"
    by (simp add: scan_lookup_def Let_def split: option.splits)
  then show ?thesis
    using activity_same_life assms TimLookup
    by (simp add: timeouts_step_def put_scan_def Let_def)
qed (use assms client_done_life [of "at_scan TimDone" sy] activity_same_life in
    \<open>auto simp: timeouts_step_def put_scan_def at_scan_def stream_activity_def same_life_def Let_def\<close>)

lemma sender_activity:
  assumes "st_connection (cs_stream sy) \<noteq> None"
  shows "stream_activity (cs_stream sy) (cs_stream (start_packets_step cd i sy))"
proof -
  have nn: "stream_activity (cs_stream sy) s'" if "same_life (cs_stream sy) s'" for s'
    using activity_same_life that assms by blast
  have done1: "same_life (cs_stream sy) (cs_stream (client_done (at_send SndDone) sy))"
    by (rule client_done_life) (simp add: at_send_def)
  have done2: "stream_activity (cs_stream sy) (cs_stream (client_done
      (\<lambda>sy. at_send SndDone (sy\<lparr>cs_stream := not_started (cs_stream sy)\<rparr>)) sy))"
    using assms
    by (cases "wg_done (st_is_stopped (cs_stream sy))")
      (auto simp: client_done_def stream_activity_def at_send_def)
  have burst: "same_life (cs_stream sy) (snd (send_burst cd n now (d, cs_stream sy)))" for n now d
    by (auto simp: send_burst_def same_life_def Let_def split: sum.splits)
  show ?thesis
  proof (cases "sd_pc (cs_sender sy)")
    case SndInit
    show ?thesis
    proof (cases "send_init cd (cs_conf sy) (st_msg_header_length (cs_stream sy)) (si_now1 i) (cs_sender sy)")
      case (Inl p)
      then show ?thesis
        using SndInit nn by (simp add: start_packets_step_def Let_def)
    next
      case (Inr r)
      then show ?thesis
        using SndInit nn done2
        by (cases r) (simp_all add: start_packets_step_def Let_def put_send_def)
    qed
  next
    case (SndDummy k)
    then show ?thesis
      using dummy_packet_activity [OF assms] by (simp add: start_packets_step_def Let_def put_send_def)
  next
    case SndHead
    then show ?thesis
      using nn done1 by (simp add: start_packets_step_def Let_def at_send_def)
  qed (use nn burst in \<open>simp_all add: start_packets_step_def Let_def put_send_def at_send_def
        send_store_def send_unstore_def same_life_def set_pending_def\<close>)
qed

lemma client_step_activity:
  assumes "client_step cd pr sy sy'" and "st_connection (cs_stream sy) \<noteq> None"
  shows "stream_activity (cs_stream sy) (cs_stream sy')"
  using assms(1)
  by cases (simp_all add: reader_activity timeouts_activity sender_activity assms(2))

text \<open>
  What may happen behind the interfaces between two steps of the controller: streams with a
  connection work, pairs are written to, and anything happens to the registry and inside
  the servers, but no goroutine of a stream is started.
\<close>

definition udp_activity :: "'r udp_world \<Rightarrow> 'r udp_world \<Rightarrow> bool" where
  "udp_activity w w' \<longleftrightarrow>
     list_all2 stream_activity (uw_clients w) (uw_clients w') \<and>
     (\<forall>n. uw_procs w' n = [] \<longleftrightarrow> uw_procs w n = []) \<and>
     uw_pair_at w' = uw_pair_at w \<and>
     length (uw_servers w') = length (uw_servers w)"

text \<open>A write through the pair's pointer changes no stream's life.\<close>

lemma same_life_pair [simp]: "same_life s (s\<lparr>st_pair := q\<rparr>)"
  by (simp add: same_life_def)

lemma write_pairs_activity: "udp_activity w (write_pairs P f w)"
  by (simp add: udp_activity_def list_all2_conv_all_nth stream_activity_def same_life_def)

lemma put_shared_life:
  assumes "m < length (uw_clients w)" and "m \<noteq> n"
  shows "same_life (uw_clients w ! m) (uw_clients (put_shared n sr w) ! m)"
  using put_shared_other(1) [OF assms, of sr] by fastforce

subsection \<open>The contract holds\<close>

abbreviation udp_ready :: "'r udp_world \<Rightarrow> nat \<Rightarrow> bool" where
  "udp_ready w n \<equiv> st_traffic_not_started (uw_clients w ! n) \<noteq> None"

abbreviation n_clients :: "'r udp_world \<Rightarrow> nat" where "n_clients w \<equiv> length (uw_clients w)"
abbreviation n_servers :: "'r udp_world \<Rightarrow> nat" where "n_servers w \<equiv> length (uw_servers w)"

lemma phase_created_iff: "phase_of s = PhCreated \<longleftrightarrow> st_traffic_not_started s = None"
  by (simp add: phase_of_def)

lemma udp_create_client_ok:
  assumes "udp_create_client ul k at p sz w = Inr (w', r)"
  obtains s where "new_stream (ul_codec ul) (shared_destination at w p) sz = Inr s"
    "w' = w\<lparr>uw_clients := uw_clients w @ [s], uw_pair_at := (uw_pair_at w)(n_clients w := at),
       uw_procs := (uw_procs w)(n_clients w := []), uw_disturbed := (uw_disturbed w)(n_clients w := False)\<rparr>"
    "r = Inr (n_clients w)"
  using assms
  by (cases "new_stream (ul_codec ul) (shared_destination at w p) sz")
    (auto simp: udp_create_client_def create_client_def Let_def)

interpretation udp_runtime: client_runtime "udp_modules ul" udp_activity n_clients n_servers udp_ready
  for ul :: "'r udp_libs"
proof unfold_locales
  fix n :: nat and w w' :: "'r udp_world" and e
  assume n: "n < n_clients w" and s: "md_setup_client (udp_modules ul) n w = Inr (w', e)"
  obtain s1 reg e1 where su: "setup_connection (ul_prom ul) (ul_client_net ul)
      (uw_client_config w) (uw_clients w ! n, uw_registry w) = ((s1, reg), e1)"
    by (metis prod.collapse)
  then obtain D where w': "w' = (put_shared n (s1, reg) w)\<lparr>uw_disturbed := D\<rparr>"
    using s by (auto simp: udp_modules_def udp_setup_client_def)
  have "udp_ready w' m = (m = n \<or> udp_ready w m)" if "m < n_clients w" for m
    using that n w' setup_not_started [OF su] put_shared_life [OF that, of n "(s1, reg)"]
    by (cases "m = n") (auto simp: same_life_def)
  then show "n_clients w' = n_clients w \<and> n_servers w' = n_servers w \<and>
      (\<forall>m < n_clients w. udp_ready w' m = (m = n \<or> udp_ready w m))"
    using w' by simp
next
  fix n :: nat and w :: "'r udp_world"
  assume n: "n < n_clients w" and r: "udp_ready w n"
  obtain sr where sr: "teardown_begin (ul_prom ul) (uw_clients w ! n, uw_registry w) = Inr sr"
    using teardown_phase(1) r
    by (cases "teardown_begin (ul_prom ul) (uw_clients w ! n, uw_registry w)")
      (auto simp: teardown_begin_def Let_def split: if_splits)
  then have "st_traffic_not_started (fst sr) = st_traffic_not_started (uw_clients w ! n)"
    by (auto simp: teardown_begin_def Let_def split: option.splits if_splits)
  then have "same_objects n_clients n_servers udp_ready w
      (put_stream n (teardown_finish (ul_prom ul) sr) w)"
    using n by (simp add: same_objects_def nth_list_update)
  then show "\<exists>w'. md_teardown_client (udp_modules ul) n w = Inr w' \<and>
      same_objects n_clients n_servers udp_ready w w'"
    using sr by (simp add: udp_modules_def udp_teardown_client_def)
next
  fix n :: nat and w :: "'r udp_world"
  assume "n < n_clients w" and "\<not> udp_ready w n"
  then show "\<exists>e. md_teardown_client (udp_modules ul) n w = Inl e"
    by (simp add: udp_modules_def udp_teardown_client_def teardown_begin_def)
next
  fix at :: "nat \<times> nat" and w :: "'r udp_world"
  show "same_objects n_clients n_servers udp_ready w (md_clear_pending (udp_modules ul) at w)"
    by (simp add: same_objects_def udp_modules_def udp_clear_pending_def)
next
  fix k at p sz and w w' :: "'r udp_world" and r
  assume "md_create_client (udp_modules ul) k at p sz w = Inr (w', r)"
  then obtain s where "new_stream (ul_codec ul) (shared_destination at w p) sz = Inr s"
    "uw_clients w' = uw_clients w @ [s]" "uw_servers w' = uw_servers w" "r = Inr (length (uw_clients w))"
    by (auto simp: udp_modules_def elim: udp_create_client_ok)
  then show "n_servers w' = n_servers w \<and> n_clients w \<le> n_clients w' \<and>
      (\<forall>n < n_clients w. udp_ready w' n = udp_ready w n) \<and>
      (\<forall>n. r = Inr n \<longrightarrow> n_clients w \<le> n \<and> n < n_clients w' \<and> \<not> udp_ready w' n)"
    using new_stream_ok by (auto simp: nth_append phase_created_iff)
next
  fix w w' :: "'r udp_world"
  assume "udp_activity w w'"
  then show "same_objects n_clients n_servers udp_ready w w'"
    by (auto simp: udp_activity_def same_objects_def list_all2_conv_all_nth stream_activity_def same_life_def)
next
  fix k a b c d f sz and w w' :: "'r udp_world" and r
  assume m: "md_create_server (udp_modules ul) k a b c d f sz w = Inr (w', r)"
  then obtain r0 reg where "create_server (ul_codec ul) (ul_prom ul)
      (ul_server_net ul) (uw_server_config w) a b c d sz (uw_registry w) = Inr (r0, reg)"
    by (auto simp: udp_modules_def udp_create_server_def bindS_Inr_iff)
  with m show "same_objects n_clients (\<lambda>_. 0) udp_ready w w' \<and> n_servers w \<le> n_servers w' \<and>
      (\<forall>n. r = Inr n \<longrightarrow> n < n_servers w')"
    by (cases r0) (auto simp: udp_modules_def udp_create_server_def same_objects_def)
qed (auto simp: udp_modules_def udp_load_server_def udp_load_client_def udp_teardown_server_def
    udp_start_client_def same_objects_def Let_def split: prod.splits)

subsection \<open>The life of all clients\<close>

text \<open>
  The specification the controller and the UDP module are measured against: clients are
  made, set up, and torn down; none is torn down before its setup, and a stopped one stays
  stopped.
\<close>

inductive lifecycle :: "client_phase list \<Rightarrow> client_phase list \<Rightarrow> bool" where
  new_client: "lifecycle phs (phs @ [PhCreated])"
| set_up: "n < length phs \<Longrightarrow> ph \<in> phase_setup (phs ! n) \<Longrightarrow> lifecycle phs (phs[n := ph])"
| torn_down: "n < length phs \<Longrightarrow> phase_teardown (phs ! n) = Some ph \<Longrightarrow> lifecycle phs (phs[n := ph])"

inductive_cases lifecycleE: "lifecycle phs phs'"

definition phases :: "'r udp_world \<Rightarrow> client_phase list" where
  "phases w = map phase_of (uw_clients w)"

definition udp_world_ok :: "'r udp_world \<Rightarrow> bool" where
  "udp_world_ok w \<longleftrightarrow> list_all stream_ok (uw_clients w)"

definition udp_moves :: "'r udp_world \<Rightarrow> 'r udp_world \<Rightarrow> bool" where
  "udp_moves w w' \<longleftrightarrow>
     (udp_world_ok w \<longrightarrow> udp_world_ok w' \<and> lifecycle\<^sup>*\<^sup>* (phases w) (phases w'))"

definition same_clients :: "'r udp_world \<Rightarrow> 'r udp_world \<Rightarrow> bool" where
  "same_clients w w' \<longleftrightarrow> uw_clients w' = uw_clients w \<and> uw_pair_at w' = uw_pair_at w"

lemma same_clients_moves: "same_clients w w' \<Longrightarrow> udp_moves w w'"
  by (simp add: same_clients_def udp_moves_def udp_world_ok_def phases_def)

lemma udp_moves_put:
  assumes "n < n_clients w" and "stream_ok (uw_clients w ! n) \<Longrightarrow> stream_ok (fst sr)"
    and "stream_ok (uw_clients w ! n) \<Longrightarrow>
      lifecycle (phases w) ((phases w)[n := phase_of (fst sr)])"
  shows "udp_moves w (put_stream n sr w)"
  using assms
  by (auto simp: udp_moves_def udp_world_ok_def phases_def list_all_length map_update nth_list_update)

interpretation udp_servers: server_simulation "udp_modules ul" udp_activity n_clients n_servers
    udp_ready same_clients
  for ul :: "'r udp_libs"
proof unfold_locales
  fix k a b c d f sz and w w' :: "'r udp_world" and r
  assume m: "md_create_server (udp_modules ul) k a b c d f sz w = Inr (w', r)"
  then obtain r0 reg where "create_server (ul_codec ul) (ul_prom ul)
      (ul_server_net ul) (uw_server_config w) a b c d sz (uw_registry w) = Inr (r0, reg)"
    by (auto simp: udp_modules_def udp_create_server_def bindS_Inr_iff)
  with m show "same_clients w w'"
    by (cases r0) (auto simp: udp_modules_def udp_create_server_def same_clients_def)
qed (auto simp: udp_modules_def udp_load_server_def udp_load_client_def udp_teardown_server_def
    same_clients_def Let_def split: prod.splits)

lemma activity_moves: "udp_activity w w' \<Longrightarrow> udp_moves w w'"
proof -
  assume a: "udp_activity w w'"
  then have "phases w' = phases w"
    using stream_activity_phase
    by (auto simp: udp_activity_def phases_def list_all2_conv_all_nth intro!: nth_equalityI)
  moreover have "udp_world_ok w \<longrightarrow> udp_world_ok w'"
    using a stream_activity_phase
    by (auto simp: udp_activity_def udp_world_ok_def list_all2_conv_all_nth list_all_length)
  ultimately show "udp_moves w w'" by (simp add: udp_moves_def)
qed

lemma setup_moves:
  assumes n: "n < n_clients w" and s: "md_setup_client (udp_modules ul) n w = Inr (w', e)"
  shows "udp_moves w w'"
proof -
  obtain s1 reg e1 where su: "setup_connection (ul_prom ul) (ul_client_net ul)
      (uw_client_config w) (uw_clients w ! n, uw_registry w) = ((s1, reg), e1)"
    by (metis prod.collapse)
  then obtain D where w': "w' = (put_shared n (s1, reg) w)\<lparr>uw_disturbed := D\<rparr>"
    using s by (auto simp: udp_modules_def udp_setup_client_def)
  have m1: "udp_moves w (put_stream n (s1, reg) w)"
    using n setup_phase [OF su] by (intro udp_moves_put lifecycle.set_up) (auto simp: phases_def)
  have "udp_activity (put_stream n (s1, reg) w) w'"
    using write_pairs_activity [of "put_stream n (s1, reg) w"]
    unfolding w' put_shared_def Let_def udp_activity_def by simp
  then have "udp_moves (put_stream n (s1, reg) w) w'" by (rule activity_moves)
  with m1 show ?thesis by (auto simp: udp_moves_def)
qed

interpretation udp_life: client_simulation "udp_modules ul" udp_activity n_clients n_servers
    udp_ready udp_moves
  for ul :: "'r udp_libs"
proof unfold_locales
  fix w :: "'r udp_world"
  show "udp_moves w w" by (simp add: udp_moves_def)
next
  fix a b c :: "'r udp_world"
  assume "udp_moves a b" "udp_moves b c"
  then show "udp_moves a c" by (auto simp: udp_moves_def)
next
  fix k pm e and w w' :: "'r udp_world"
  assume "md_load_server (udp_modules ul) k pm w = (w', e)"
  then show "udp_moves w w'" by (rule same_clients_moves [OF udp_servers.R_load_server])
next
  fix k pm e and w w' :: "'r udp_world"
  assume "md_load_client (udp_modules ul) k pm w = (w', e)"
  then show "udp_moves w w'" by (rule same_clients_moves [OF udp_servers.R_load_client])
next
  fix k a b c d f sz r and w w' :: "'r udp_world"
  assume "md_create_server (udp_modules ul) k a b c d f sz w = Inr (w', r)"
  then show "udp_moves w w'" by (rule same_clients_moves [OF udp_servers.R_create_server])
next
  fix n and w w' :: "'r udp_world"
  assume "n < n_servers w" "md_teardown_server (udp_modules ul) n w = Inr w'"
  then show "udp_moves w w'" by (rule same_clients_moves [OF udp_servers.R_teardown_server])
next
  fix at and w :: "'r udp_world"
  show "udp_moves w (md_clear_pending (udp_modules ul) at w)"
    by (rule activity_moves) (simp add: udp_modules_def udp_clear_pending_def write_pairs_activity)
next
  fix k at p sz r and w w' :: "'r udp_world"
  assume "md_create_client (udp_modules ul) k at p sz w = Inr (w', r)"
  then obtain s where "new_stream (ul_codec ul) (shared_destination at w p) sz = Inr s"
    "uw_clients w' = uw_clients w @ [s]"
    by (auto simp: udp_modules_def elim: udp_create_client_ok)
  then show "udp_moves w w'"
    using new_stream_ok [of "ul_codec ul" _ sz s] lifecycle.new_client [of "phases w"]
    by (auto simp: udp_moves_def udp_world_ok_def phases_def)
next
  fix n err and w w' :: "'r udp_world"
  assume "n < n_clients w" "md_setup_client (udp_modules ul) n w = Inr (w', Some err)"
  then show "udp_moves w w'" by (rule setup_moves)
next
  fix n and w w' :: "'r udp_world"
  assume "n < n_clients w" "md_setup_client (udp_modules ul) n w = Inr (w', None)"
  then have "udp_moves w w'" by (rule setup_moves)
  then show "udp_moves w (md_start_client (udp_modules ul) n w')"
    by (simp add: udp_moves_def udp_world_ok_def phases_def udp_modules_def udp_start_client_def)
next
  fix n and w w' :: "'r udp_world"
  assume n: "n < n_clients w" and t: "md_teardown_client (udp_modules ul) n w = Inr w'"
  obtain sr where sr: "teardown_begin (ul_prom ul) (uw_clients w ! n, uw_registry w) = Inr sr"
    and w': "w' = put_stream n (teardown_finish (ul_prom ul) sr) w"
    using t by (auto simp: udp_modules_def udp_teardown_client_def bindS_Inr_iff)
  show "udp_moves w w'"
    unfolding w'
    using n teardown_ok [OF _ sr] teardown_phase(2) [OF sr]
    by (intro udp_moves_put lifecycle.torn_down) (auto simp: phases_def)
next
  fix w w' :: "'r udp_world"
  assume "udp_activity w w'"
  then show "udp_moves w w'" by (rule activity_moves)
qed

text \<open>A client's phase only moves forward.\<close>

fun phase_rank :: "client_phase \<Rightarrow> nat" where
  "phase_rank PhCreated = 0"
| "phase_rank PhUnconnected = 1"
| "phase_rank PhConnected = 2"
| "phase_rank PhStopped = 3"

lemma lifecycle_forward:
  assumes "lifecycle phs phs'"
  shows "length phs \<le> length phs' \<and> (\<forall>n < length phs. phase_rank (phs ! n) \<le> phase_rank (phs' ! n))"
  using assms
proof cases
  case new_client
  then show ?thesis by (simp add: nth_append)
next
  case (set_up n ph)
  then show ?thesis
    by (auto simp: nth_list_update phase_setup_def split: client_phase.splits)
next
  case (torn_down n ph)
  then show ?thesis
    by (auto simp: nth_list_update phase_teardown_def split: client_phase.splits)
qed

lemma lifecycles_forward:
  assumes "lifecycle\<^sup>*\<^sup>* phs phs'"
  shows "length phs \<le> length phs' \<and> (\<forall>n < length phs. phase_rank (phs ! n) \<le> phase_rank (phs' ! n))"
  using assms
  by (induction rule: rtranclp_induct) (auto dest!: lifecycle_forward intro: le_trans)

end
