(* ===== verification/TgcFrames.thy ===== *)
theory TgcFrames
  imports TgcRuntime
begin

section \<open>What the controller's handlers leave alone\<close>

text \<open>
  Which fields of the controller each handler may change, and how the arrays of pairs grow:
  a handler only ever adds an array, whose pairs have no client yet.  The goroutines that
  are about to set up a client (\<open>setups\<close>) are no handler's business.
\<close>

definition setups :: "'w tgc \<Rightarrow> task list" where
  "setups tg = filter (\<lambda>t. tk_pc t = AtSetup) (tg_tasks tg)"

lemma setups_update [simp]:
  "setups (tg\<lparr>tg_world := w\<rparr>) = setups tg" "setups (tg\<lparr>tg_config := c\<rparr>) = setups tg"
  "setups (tg\<lparr>tg_servers_map := sm\<rparr>) = setups tg" "setups (tg\<lparr>tg_net_bat_pairs := ps\<rparr>) = setups tg"
  "setups (tg\<lparr>tg_arrays := ar\<rparr>) = setups tg"
  "setups (tg\<lparr>tg_net_pair_resource_version := v\<rparr>) = setups tg"
  by (simp_all add: setups_def)

lemma setups_create [simp]: "setups (create_net_bat_tgen_clients tg) = setups tg"
  by (simp add: setups_def create_net_bat_tgen_clients_def split: option.splits)

lemma load_modules_frame:
  "load_modules load pm ps tg = (tg', e) \<Longrightarrow> \<exists>w. tg' = tg\<lparr>tg_world := w\<rparr>"
  by (auto simp: load_modules_def split: prod.splits)

lemma start_servers_frame:
  "start_servers env pm addrs ks tg = Inr (tg', b) \<Longrightarrow>
     \<exists>w sm. tg' = tg\<lparr>tg_world := w, tg_servers_map := sm\<rparr>"
proof (induction ks arbitrary: tg)
  case Nil
  then have "tg' = tg\<lparr>tg_world := tg_world tg, tg_servers_map := tg_servers_map tg\<rparr>" by simp
  then show ?case by blast
next
  case (Cons k ks)
  obtain w e where l: "md_load_server (te_modules env) k pm (tg_world tg) = (w, e)" by fastforce
  show ?case
  proof (cases e)
    case (Some err)
    then have "tg' = tg\<lparr>tg_world := w\<rparr>" using Cons.prems l by simp
    then have "tg' = tg\<lparr>tg_world := w, tg_servers_map := tg_servers_map tg\<rparr>" by simp
    then show ?thesis by blast
  next
    case None
    then obtain w2 rs where "start_servers env pm addrs ks
        (tg\<lparr>tg_world := w2, tg_servers_map := AList.update k rs (tg_servers_map tg)\<rparr>) = Inr (tg', b)"
      using Cons.prems l by (auto simp: bindS_Inr_iff)
    from Cons.IH [OF this] show ?thesis by fastforce
  qed
qed

lemma add_profile_frame:
  assumes "add_profile env vw cm tg = Inr tg'"
  shows "tg_arrays tg' = tg_arrays tg \<and> tg_net_bat_pairs tg' = tg_net_bat_pairs tg \<and>
    (tg_tasks tg' = tg_tasks tg \<or> tg_tasks tg' = tg_tasks (create_net_bat_tgen_clients tg))"
proof (cases "load_config (te_yaml env) cm")
  case (Inl e)
  then show ?thesis using assms by (simp add: add_profile_def)
next
  case cfg: (Inr c)
  then obtain a where a: "vw_addrs vw = Inr a"
    using assms by (auto simp: add_profile_def Let_def bindS_Inr_iff)
  show ?thesis
  proof (cases a)
    case (Inl e)
    then show ?thesis using assms cfg a by (auto simp: add_profile_def Let_def)
  next
    case (Inr addrs)
    obtain tg2 fin where st: "start_servers env (cfg_profile_map c) (vw_addr_order vw addrs)
        (vw_order vw (te_proto_servers env)) (tg\<lparr>tg_config := Some c\<rparr>) = Inr (tg2, fin)"
      using assms cfg a Inr by (auto simp: add_profile_def Let_def bindS_Inr_iff)
    obtain tg3 e where l: "load_modules (md_load_client (te_modules env)) (cfg_profile_map c)
        (vw_order vw (te_proto_clients env)) tg2 = (tg3, e)"
      by fastforce
    obtain w2 sm where t2: "tg2 = tg\<lparr>tg_config := Some c, tg_world := w2, tg_servers_map := sm\<rparr>"
      using start_servers_frame [OF st] by blast
    obtain w3 where t3: "tg3 = tg2\<lparr>tg_world := w3\<rparr>" using load_modules_frame [OF l] by blast
    have "tg' = tg2 \<or> tg' = tg3 \<or> tg' = create_net_bat_tgen_clients tg3"
      using assms cfg a Inr st l
      by (auto simp: add_profile_def Let_def split: if_splits option.splits)
    then show ?thesis
      using t2 t3 by (cases "tg_net_bat_pairs tg") (auto simp: create_net_bat_tgen_clients_def)
  qed
qed

lemma delete_profile_frame:
  "delete_profile env vw tg = Inr tg' \<Longrightarrow> \<exists>w. tg' = tg\<lparr>tg_world := w, tg_config := None\<rparr>"
  by (auto simp: delete_profile_def stop_servers_def bindS_Inr_iff)

lemma teardown_pairs_frame:
  "teardown_pairs env tg = Inr tg' \<Longrightarrow> \<exists>w. tg' = tg\<lparr>tg_world := w\<rparr>"
  by (auto simp: teardown_pairs_def bindS_Inr_iff)

lemma delete_clients_frame:
  assumes "delete_net_bat_tgen_clients env tg = Inr tg'"
  shows "tg_arrays tg' = tg_arrays tg" and "tg_tasks tg' = tg_tasks tg"
    and "tg_net_bat_pairs tg' = None"
proof -
  have "tg_arrays tg' = tg_arrays tg \<and> tg_tasks tg' = tg_tasks tg \<and> tg_net_bat_pairs tg' = None"
  proof (cases "tg_net_bat_pairs tg")
    case None
    then show ?thesis using assms by (simp add: delete_net_bat_tgen_clients_def)
  next
    case (Some a)
    then obtain tg1 where "teardown_pairs env tg = Inr tg1" "tg' = tg1\<lparr>tg_net_bat_pairs := None\<rparr>"
      using assms by (auto simp: delete_net_bat_tgen_clients_def bindS_Inr_iff)
    then show ?thesis using teardown_pairs_frame by fastforce
  qed
  then show "tg_arrays tg' = tg_arrays tg" "tg_tasks tg' = tg_tasks tg" "tg_net_bat_pairs tg' = None"
    by simp_all
qed

lemma create_clients_frame [simp]:
  "tg_arrays (create_net_bat_tgen_clients tg) = tg_arrays tg"
  "tg_net_bat_pairs (create_net_bat_tgen_clients tg) = tg_net_bat_pairs tg"
  "tg_config (create_net_bat_tgen_clients tg) = tg_config tg"
  by (simp_all add: create_net_bat_tgen_clients_def split: option.splits)

lemma restart_clients_frame:
  "restart_net_bat_tgen_clients env tg = Inr tg' \<Longrightarrow>
     tg_arrays tg' = tg_arrays tg \<and> setups tg' = setups tg"
  using teardown_pairs_frame
  by (fastforce simp: restart_net_bat_tgen_clients_def bindS_Inr_iff split: if_splits)

lemma update_profile_frame:
  assumes "update_profile env vw cm tg = Inr tg'"
  shows "tg_arrays tg' = tg_arrays tg \<and> setups tg' = setups tg"
proof -
  obtain c where c: "tg_config tg = Some c"
    using assms by (auto simp: update_profile_def split: option.splits)
  obtain c1 e1 where r: "reload_config (te_yaml env) cm c = (c1, e1)" by fastforce
  obtain tg1 e2 where l1: "load_modules (md_load_server (te_modules env)) (cfg_profile_map c1)
      (vw_order vw (te_proto_servers env)) (tg\<lparr>tg_config := Some c1\<rparr>) = (tg1, e2)"
    by fastforce
  obtain tg2 e3 where l2: "load_modules (md_load_client (te_modules env)) (cfg_profile_map c1)
      (vw_order vw (te_proto_clients env)) tg1 = (tg2, e3)"
    by fastforce
  show ?thesis
    using assms c r l1 l2 load_modules_frame [OF l1] load_modules_frame [OF l2] restart_clients_frame
    by (fastforce simp: update_profile_def split: if_splits option.splits)
qed

definition arrays_grow :: "'w tgc \<Rightarrow> 'w tgc \<Rightarrow> bool" where
  "arrays_grow tg tg' \<longleftrightarrow> (\<exists>as. tg_arrays tg' = tg_arrays tg @ as \<and>
     (\<forall>ps \<in> set as. \<forall>p \<in> set ps. bp_client_connection p = None))"

lemma arrays_grow_same: "tg_arrays tg' = tg_arrays tg \<Longrightarrow> arrays_grow tg tg'"
  by (auto simp: arrays_grow_def)

lemma pairing_event_grows:
  assumes "handle_net_bat_pairing_add_event env vw cm tg = Inr tg'" and "choice_ok (te_pairing env)"
  shows "arrays_grow tg tg'"
proof -
  obtain r where r: "handle_add_net_bat_config_map (te_pairing env) (vw_interfaces vw) (vw_addrs vw) cm
      (te_namespace env) (te_pod_name env) = Inr r"
    using assms(1) by (auto simp: handle_net_bat_pairing_add_event_def bindS_Inr_iff)
  show ?thesis
  proof (cases r)
    case (Inl e)
    then show ?thesis
      using assms(1) r by (simp add: handle_net_bat_pairing_add_event_def arrays_grow_same)
  next
    case (Inr ps)
    then have "tg_arrays tg' = tg_arrays tg @ [ps]"
      using assms(1) r by (auto simp: handle_net_bat_pairing_add_event_def Let_def split: if_splits)
    then show ?thesis
      using handle_add_no_client [OF assms(2)] r Inr by (auto simp: arrays_grow_def)
  qed
qed

lemma handle_event_grows:
  assumes "handle_event env vw ev tg = Inr tg'" and "choice_ok (te_pairing env)"
  shows "arrays_grow tg tg'"
proof -
  have ap: "arrays_grow tg tg'" if "add_pairing env vw cm tg = Inr tg'" for cm
    using pairing_event_grows [OF that [unfolded add_pairing_def] assms(2)] by (simp add: arrays_grow_def)
  have up: "arrays_grow tg tg'" if u: "update_pairing env vw cm tg = Inr tg'" for cm
  proof (cases "cm_resource_version cm = tg_net_pair_resource_version tg")
    case True
    then show ?thesis using u by (simp add: update_pairing_def arrays_grow_same)
  next
    case False
    then obtain tg1 where "delete_net_bat_tgen_clients env
        (tg\<lparr>tg_net_pair_resource_version := cm_resource_version cm\<rparr>) = Inr tg1"
      and h: "handle_net_bat_pairing_add_event env vw cm tg1 = Inr tg'"
      using u by (auto simp: update_pairing_def bindS_Inr_iff)
    then show ?thesis
      using pairing_event_grows [OF h assms(2)] delete_clients_frame(1) by (fastforce simp: arrays_grow_def)
  qed
  have dp: "delete_pairing env tg = Inr tg' \<Longrightarrow> tg_arrays tg' = tg_arrays tg"
    using delete_clients_frame(1) by (fastforce simp: delete_pairing_def)
  have st: "stop_tgc env vw tg = Inr tg' \<Longrightarrow> tg_arrays tg' = tg_arrays tg"
    using delete_clients_frame(1) by (fastforce simp: stop_tgc_def stop_servers_def bindS_Inr_iff)
  have df: "delete_profile env vw tg = Inr tg' \<Longrightarrow> tg_arrays tg' = tg_arrays tg"
    by (auto dest!: delete_profile_frame)
  show ?thesis
    using handle_event_cases [OF assms(1)] ap up dp st df add_profile_frame update_profile_frame
      arrays_grow_same by blast
qed

lemma pairing_event_setups:
  assumes "handle_net_bat_pairing_add_event env vw cm tg = Inr tg'"
  shows "setups tg' = setups tg"
proof -
  obtain r where "handle_add_net_bat_config_map (te_pairing env) (vw_interfaces vw) (vw_addrs vw) cm
      (te_namespace env) (te_pod_name env) = Inr r"
    using assms by (auto simp: handle_net_bat_pairing_add_event_def bindS_Inr_iff)
  then show ?thesis
    using assms by (cases r) (auto simp: handle_net_bat_pairing_add_event_def Let_def split: if_splits)
qed

lemma handle_event_setups:
  assumes "handle_event env vw ev tg = Inr tg'"
  shows "setups tg' = setups tg"
proof -
  have del: "setups tg2 = setups tg1" if "delete_net_bat_tgen_clients env tg1 = Inr tg2" for tg1 tg2
    using delete_clients_frame(2) [OF that] by (simp add: setups_def)
  have pr: "setups tg2 = setups tg1" if "add_profile env vw cm tg1 = Inr tg2" for cm tg1 tg2
    using add_profile_frame [OF that] setups_create [of tg1] unfolding setups_def by metis
  have up: "setups tg' = setups tg" if "update_pairing env vw cm tg = Inr tg'" for cm
    using that by (auto simp: update_pairing_def bindS_Inr_iff split: if_splits
        dest!: del pairing_event_setups)
  have ap: "setups tg' = setups tg" if "add_pairing env vw cm tg = Inr tg'" for cm
    using that pairing_event_setups by (fastforce simp: add_pairing_def)
  have dp: "setups tg' = setups tg" if "delete_pairing env tg = Inr tg'"
    using del that by (fastforce simp: delete_pairing_def)
  have st: "setups tg' = setups tg" if "stop_tgc env vw tg = Inr tg'"
    using that by (auto simp: stop_tgc_def stop_servers_def bindS_Inr_iff dest!: del)
  have df: "setups tg' = setups tg" if "delete_profile env vw tg = Inr tg'"
    using that by (auto dest!: delete_profile_frame)
  show ?thesis
    using handle_event_cases [OF assms] ap up dp st df pr update_profile_frame by metis
qed

end
