(* ===== verification/TgcStreams.thy ===== *)
theory TgcStreams
  imports TgcUdp TgcFrames
begin

section \<open>The streams and servers of a running controller\<close>

text \<open>
  The composition of the controller with the goroutines of its clients and servers: every
  server it ever created is a run of \<open>TappSystem\<close>, and every client stream whose pair
  nothing else has written to is a run of \<open>TgenSystem\<close>.  So what those theories prove of one
  server or one stream holds of each of them in the whole program, whatever config maps
  arrive and however all goroutines interleave.
\<close>

subsection \<open>The invariant\<close>

definition started_ok :: "'r udp_world \<Rightarrow> bool" where
  "started_ok w \<longleftrightarrow> (\<forall>n < n_clients w. uw_procs w n \<noteq> [] \<longrightarrow>
     st_connection (uw_clients w ! n) \<noteq> None \<and> st_traffic_not_started (uw_clients w ! n) \<noteq> None)"

definition stream_life :: "'r udp_libs \<Rightarrow> 'r udp_world \<Rightarrow> nat \<Rightarrow> bool" where
  "stream_life ul w n \<longleftrightarrow>
     (uw_procs w n = [] \<and> st_traffic_not_started (uw_clients w ! n) = None \<and>
       (\<exists>p sz. bp_pending p = Map.empty \<and> new_stream (ul_codec ul) p sz = Inr (uw_clients w ! n))) \<or>
     (uw_procs w n = [] \<and> st_traffic_not_started (uw_clients w ! n) \<noteq> None) \<or>
     (\<exists>g. uw_procs w n = [g] \<and>
       client_reachable (ul_codec ul) (ul_prom ul) (stream_sys w n g))"

definition streams_ok :: "'r udp_libs \<Rightarrow> 'r udp_world \<Rightarrow> bool" where
  "streams_ok ul w \<longleftrightarrow> (\<forall>n < n_clients w. \<not> uw_disturbed w n \<longrightarrow> stream_life ul w n)"

definition server_ok :: "'r udp_libs \<Rightarrow> server_sys \<Rightarrow> bool" where
  "server_ok ul sy \<longleftrightarrow> (\<exists>s0. clients_wf s0 \<and> sv_wait s0 = 2 \<and>
     server_reachable (ul_codec ul) (ul_prom ul) s0 sy)"

definition goroutines_ok :: "'r udp_libs \<Rightarrow> 'r udp_world \<Rightarrow> bool" where
  "goroutines_ok ul w \<longleftrightarrow> started_ok w \<and> streams_ok ul w \<and> list_all (server_ok ul) (uw_servers w)"

definition same_addresses :: "'r udp_world \<Rightarrow> 'r udp_world \<Rightarrow> bool" where
  "same_addresses w w' \<longleftrightarrow> n_clients w \<le> n_clients w' \<and>
     (\<forall>n < n_clients w. uw_pair_at w' n = uw_pair_at w n)"

definition udp_sound :: "'r udp_libs \<Rightarrow> 'r udp_world \<Rightarrow> 'r udp_world \<Rightarrow> bool" where
  "udp_sound ul w w' \<longleftrightarrow> same_addresses w w' \<and> (goroutines_ok ul w \<longrightarrow> goroutines_ok ul w')"

text \<open>The goroutines' steps, in a world whose started streams are connected.\<close>

definition started_work :: "'r udp_libs \<Rightarrow> 'r udp_world \<Rightarrow> 'r udp_world \<Rightarrow> bool" where
  "started_work ul w w' \<longleftrightarrow> started_ok w \<and> udp_work ul w w'"

subsection \<open>A stream that is left alone\<close>

lemma stream_life_env:
  assumes "stream_life ul w n" and "uw_clients w' ! n = uw_clients w ! n"
    and "uw_procs w' n = uw_procs w n"
  shows "stream_life ul w' n"
proof -
  have "stream_sys w' n g = (stream_sys w n g)\<lparr>cs_conf := uw_client_config w', cs_registry := uw_registry w'\<rparr>" for g
    using assms(2) by (simp add: stream_sys_def)
  then show ?thesis
    using assms client_reachable.environment unfolding stream_life_def by metis
qed

lemma left_alone:
  assumes "n_clients w' = n_clients w" and "uw_procs w' = uw_procs w" and "uw_pair_at w' = uw_pair_at w"
    and "uw_clients w' = uw_clients w" and "uw_disturbed w' = uw_disturbed w"
    and "list_all (server_ok ul) (uw_servers w) \<Longrightarrow> list_all (server_ok ul) (uw_servers w')"
  shows "udp_sound ul w w'"
  using assms stream_life_env
  unfolding udp_sound_def goroutines_ok_def streams_ok_def started_ok_def same_addresses_def
  by fastforce

subsection \<open>Goroutine steps\<close>

lemma client_step_connected:
  assumes "client_step cd pr sy sy'" and "st_connection (cs_stream sy) \<noteq> None"
    and "st_traffic_not_started (cs_stream sy) \<noteq> None"
  shows "st_connection (cs_stream sy') \<noteq> None \<and> st_traffic_not_started (cs_stream sy') \<noteq> None"
  using client_step_activity [OF assms(1,2)] assms(2,3)
  by (auto simp: stream_activity_def same_life_def)

lemma put_sys_simps [simp]:
  "n_clients (put_sys n k sy w) = n_clients w"
  "uw_procs (put_sys n k sy w) = (uw_procs w)(n := (uw_procs w n)[k := goroutines_of sy])"
  "uw_pair_at (put_sys n k sy w) = uw_pair_at w" "uw_servers (put_sys n k sy w) = uw_servers w"
  "uw_disturbed (put_sys n k sy w) = uw_disturbed (put_shared n (cs_stream sy, cs_registry sy) w)"
  "uw_clients (put_sys n k sy w) = uw_clients (put_shared n (cs_stream sy, cs_registry sy) w)"
  by (simp_all add: put_sys_def)

lemma started_work_activity:
  assumes "started_work ul w w'"
  shows "udp_activity w w'"
proof -
  from assms have st: "started_ok w" and "udp_work ul w w'" by (simp_all add: started_work_def)
  from this(2) show ?thesis
  proof cases
    case (client n k sy)
    have g: "uw_procs w n \<noteq> []" using client(3) by auto
    have act: "stream_activity (uw_clients w ! n) (cs_stream sy)"
      using client_step_activity [OF client(4)] st g client(2)
      by (simp add: stream_sys_def started_ok_def)
    have "stream_activity (uw_clients w ! m) (uw_clients w' ! m)" if "m < n_clients w" for m
    proof (cases "m = n")
      case True
      then show ?thesis using act client(1,2) by simp
    next
      case False
      then show ?thesis
        using put_shared_life [OF that, of n] client(1) by (simp add: stream_activity_def)
    qed
    then show ?thesis
      using client(1) g by (auto simp: udp_activity_def list_all2_conv_all_nth)
  next
    case (server n sy)
    then show ?thesis
      by (simp add: udp_activity_def list_all2_conv_all_nth stream_activity_def same_life_def)
  qed
qed

interpretation udp_goroutine_runtime: client_runtime "udp_modules ul" "started_work ul" n_clients n_servers
    udp_ready for ul :: "'r udp_libs"
  by (rule udp_runtime.less_activity) (rule started_work_activity)

lemma put_shared_started:
  assumes "started_ok w" and "n < n_clients w"
    and "uw_procs w n \<noteq> [] \<Longrightarrow> st_connection (fst sr) \<noteq> None \<and> st_traffic_not_started (fst sr) \<noteq> None"
    and "uw_clients w' = uw_clients (put_shared n sr w)"
    and "\<And>m. m < n_clients w \<Longrightarrow> uw_procs w' m \<noteq> [] \<Longrightarrow> m \<noteq> n \<or> uw_procs w n \<noteq> [] \<Longrightarrow> uw_procs w m \<noteq> []"
    and "uw_procs w' n \<noteq> [] \<Longrightarrow> uw_procs w n = [] \<Longrightarrow>
      st_connection (fst sr) \<noteq> None \<and> st_traffic_not_started (fst sr) \<noteq> None"
  shows "started_ok w'"
  unfolding started_ok_def
proof (intro allI impI)
  fix m assume m: "m < n_clients w'" "uw_procs w' m \<noteq> []"
  then have lt: "m < n_clients w" using assms(4) by simp
  show "st_connection (uw_clients w' ! m) \<noteq> None \<and> st_traffic_not_started (uw_clients w' ! m) \<noteq> None"
  proof (cases "m = n")
    case True
    then show ?thesis using assms(2,3,4,6) m(2) by (cases "uw_procs w n = []") simp_all
  next
    case False
    then have "uw_procs w m \<noteq> []" using assms(5) lt m(2) by blast
    then show ?thesis
      using put_shared_life [OF lt False, of sr] assms(1,4) lt by (auto simp: started_ok_def same_life_def)
  qed
qed

text \<open>A stream that was put back changes no other stream that stays undisturbed.\<close>

lemma put_shared_lives:
  assumes "streams_ok ul w" and "m < n_clients w" and "m \<noteq> n"
    and "uw_clients w' = uw_clients (put_shared n sr w)" and "uw_procs w' m = uw_procs w m"
    and "\<not> uw_disturbed w' m" and "uw_disturbed (put_shared n sr w) m \<Longrightarrow> uw_disturbed w' m"
  shows "stream_life ul w' m"
proof -
  have d: "\<not> uw_disturbed (put_shared n sr w) m" using assms(6,7) by blast
  note o = put_shared_other(2) [OF assms(2,3) d]
  have "stream_life ul w m" using assms(1,2) o by (simp add: streams_ok_def)
  then show ?thesis by (rule stream_life_env) (use o assms(4,5) in simp_all)
qed

lemma client_work_sound:
  assumes st: "goroutines_ok ul w" and n: "n < n_clients w" "k < length (uw_procs w n)"
    and step: "client_step (ul_codec ul) (ul_prom ul) (stream_sys w n (uw_procs w n ! k)) sy"
    and np: "cs_panic sy = None"
  shows "goroutines_ok ul (put_sys n k sy w)"
proof -
  let ?w = "put_sys n k sy w"
  have ne: "uw_procs w n \<noteq> []" using n(2) by auto
  have old: "started_ok w" "streams_ok ul w" using st by (simp_all add: goroutines_ok_def)
  have con: "st_connection (cs_stream sy) \<noteq> None \<and> st_traffic_not_started (cs_stream sy) \<noteq> None"
    using client_step_connected [OF step] old(1) n(1) ne by (simp add: stream_sys_def started_ok_def)
  have "started_ok ?w"
    by (rule put_shared_started [OF old(1) n(1), of "(cs_stream sy, cs_registry sy)"])
      (use con in \<open>auto split: if_splits\<close>)
  moreover have "stream_life ul ?w n" if "\<not> uw_disturbed ?w n"
  proof -
    have "stream_life ul w n" using old(2) n(1) that by (simp add: streams_ok_def)
    then obtain g where g: "uw_procs w n = [g]"
      "client_reachable (ul_codec ul) (ul_prom ul) (stream_sys w n g)"
      using ne by (auto simp: stream_life_def)
    have k: "k = 0" using n(2) g(1) by simp
    have "client_reachable (ul_codec ul) (ul_prom ul) sy"
      using client_reachable.work [OF g(2)] step g(1) k by simp
    from client_reachable.environment [OF this]
    have "client_reachable (ul_codec ul) (ul_prom ul)
        (sy\<lparr>cs_conf := uw_client_config ?w, cs_registry := uw_registry ?w\<rparr>)" .
    moreover have "stream_sys ?w n (goroutines_of sy) =
        sy\<lparr>cs_conf := uw_client_config ?w, cs_registry := uw_registry ?w\<rparr>"
      using n(1) np by (cases sy) (simp add: stream_sys_def goroutines_of_def)
    ultimately show ?thesis using g(1) k by (simp add: stream_life_def)
  qed
  moreover have "stream_life ul ?w m" if "m < n_clients w" "m \<noteq> n" "\<not> uw_disturbed ?w m" for m
    by (rule put_shared_lives [OF old(2) that(1,2), of _ "(cs_stream sy, cs_registry sy)"])
      (use that in simp_all)
  ultimately show ?thesis
    using st unfolding goroutines_ok_def streams_ok_def by (metis put_sys_simps(1,4))
qed

lemma started_work_sound:
  assumes "started_work ul w w'"
  shows "udp_sound ul w w'"
proof -
  from assms have "udp_work ul w w'" by (simp add: started_work_def)
  then show ?thesis
  proof cases
    case (client n k sy)
    then show ?thesis
      using client_work_sound [OF _ client(2-5)] by (simp add: udp_sound_def same_addresses_def)
  next
    case (server n sy)
    have "server_ok ul sy" if "list_all (server_ok ul) (uw_servers w)"
      using that server server_reachable.work by (fastforce simp: list_all_length server_ok_def)
    then show ?thesis
      unfolding server(1)
      by (intro left_alone) (auto simp: list_all_iff dest: set_update_subset_insert [THEN subsetD])
  qed
qed

subsection \<open>The interface calls\<close>

lemma created_server_ok:
  assumes "create_server cd pr net conf a b c d sz reg = Inr (Inr s, reg')"
  shows "clients_wf s \<and> sv_wait s = 2"
proof -
  obtain s0 where s0: "new_udp_server cd a b c d sz = Inr s0"
    and su: "setup_server_connection pr net conf (s0, reg) = Inr ((s, reg'), None)"
    using assms by (auto simp: create_server_def bindS_Inr_iff split: option.splits)
  have "sv_wait s0 = 2"
    using s0 by (auto simp: new_udp_server_def wg_add_def Let_def split: sum.splits go_error.splits)
  then show ?thesis
    using su
    by (auto simp: setup_server_connection_def setup_server_metrics_def sv_register_metric_def Let_def
        bindS_Inr_iff clients_wf_def new_gauge_def split: sum.splits option.splits)
qed

lemma create_server_sound:
  assumes "udp_create_server ul k a b c d f sz w = Inr (w', r)"
  shows "udp_sound ul w w'"
proof -
  obtain r0 reg where cs: "create_server (ul_codec ul) (ul_prom ul)
      (ul_server_net ul) (uw_server_config w) a b c d sz (uw_registry w) = Inr (r0, reg)"
    using assms by (auto simp: udp_create_server_def bindS_Inr_iff)
  show ?thesis
  proof (cases r0)
    case (Inl e)
    then have "w' = w\<lparr>uw_registry := reg\<rparr>" using assms cs by (simp add: udp_create_server_def)
    then show ?thesis by (intro left_alone) simp_all
  next
    case (Inr s)
    have "server_reachable (ul_codec ul) (ul_prom ul) s (server_start s)" by (rule server_reachable.start)
    then have ok: "server_ok ul (server_start s)"
      using created_server_ok [OF cs [unfolded Inr]] unfolding server_ok_def by blast
    have "w' = w\<lparr>uw_registry := reg, uw_servers := uw_servers w @ [server_start s]\<rparr>"
      using assms cs Inr by (simp add: udp_create_server_def)
    then show ?thesis using ok by (intro left_alone) simp_all
  qed
qed

lemma create_client_sound:
  assumes "bp_pending p = Map.empty" and "udp_create_client ul k at p sz w = Inr (w', r)"
  shows "udp_sound ul w w'"
proof -
  obtain s where s: "new_stream (ul_codec ul) (shared_destination at w p) sz = Inr s"
    and w': "w' = w\<lparr>uw_clients := uw_clients w @ [s], uw_pair_at := (uw_pair_at w)(n_clients w := at),
       uw_procs := (uw_procs w)(n_clients w := []), uw_disturbed := (uw_disturbed w)(n_clients w := False)\<rparr>"
    using assms(2) by (rule udp_create_client_ok)
  have e: "bp_pending (shared_destination at w p) = Map.empty"
    using assms(1) by (simp add: shared_destination_def split: list.splits)
  have new: "stream_life ul w' (n_clients w)"
    using s e new_stream_ok [OF s] w' by (auto simp: stream_life_def phase_created_iff)
  have old: "stream_life ul w' n" if "n < n_clients w" "stream_life ul w n" for n
    by (rule stream_life_env [OF that(2)]) (use that(1) w' in \<open>simp_all add: nth_append\<close>)
  have "goroutines_ok ul w'" if g: "goroutines_ok ul w"
  proof -
    have "started_ok w'"
      using g w' by (auto simp: goroutines_ok_def started_ok_def nth_append less_Suc_eq)
    moreover have "streams_ok ul w'"
      using g w' new old by (auto simp: goroutines_ok_def streams_ok_def less_Suc_eq)
    ultimately show ?thesis using g w' by (simp add: goroutines_ok_def)
  qed
  then show ?thesis using w' by (simp add: udp_sound_def same_addresses_def)
qed

lemma clear_pending_sound: "udp_sound ul w (udp_clear_pending at w)"
proof -
  let ?w = "udp_clear_pending at w"
  have "stream_life ul ?w n" if "streams_ok ul w" "n < n_clients w" "\<not> uw_disturbed ?w n" for n
    by (rule stream_life_env [of ul w])
      (use that in \<open>simp_all add: udp_clear_pending_def streams_ok_def\<close>)
  moreover have "started_ok ?w" if "started_ok w"
    using that by (simp add: started_ok_def udp_clear_pending_def)
  ultimately show ?thesis
    by (simp add: udp_sound_def same_addresses_def goroutines_ok_def streams_ok_def udp_clear_pending_def)
qed

lemma teardown_client_sound:
  assumes n: "n < n_clients w" and t: "udp_teardown_client ul n w = Inr w'"
  shows "udp_sound ul w w'"
proof -
  obtain s1 reg where sr: "teardown_begin (ul_prom ul) (uw_clients w ! n, uw_registry w) = Inr (s1, reg)"
    and "w' = put_stream n (teardown_finish (ul_prom ul) (s1, reg)) w"
    using t by (auto simp: udp_teardown_client_def bindS_Inr_iff)
  then have w': "uw_clients w' = (uw_clients w)[n := s1]" "uw_procs w' = uw_procs w"
    "uw_pair_at w' = uw_pair_at w" "uw_disturbed w' = uw_disturbed w" "uw_servers w' = uw_servers w"
    by simp_all
  have keep: "st_traffic_not_started (uw_clients w ! n) \<noteq> None"
    "st_traffic_not_started s1 = st_traffic_not_started (uw_clients w ! n)"
    "st_connection (uw_clients w ! n) \<noteq> None \<Longrightarrow> st_connection s1 \<noteq> None"
    using sr by (auto simp: teardown_begin_def Let_def split: option.splits if_splits)
  have "stream_life ul w' n" if "stream_life ul w n"
  proof (cases "uw_procs w n = []")
    case True
    then show ?thesis using w' keep n by (simp add: stream_life_def)
  next
    case False
    then obtain g where g: "uw_procs w n = [g]"
      "client_reachable (ul_codec ul) (ul_prom ul) (stream_sys w n g)"
      using \<open>stream_life ul w n\<close> by (auto simp: stream_life_def)
    have "client_reachable (ul_codec ul) (ul_prom ul)
        ((stream_sys w n g)\<lparr>cs_stream := s1, cs_registry := reg\<rparr>)"
      using g(2) sr by (intro client_reachable.teardown) (simp_all add: stream_sys_def)
    from client_reachable.environment [OF this]
    have "client_reachable (ul_codec ul) (ul_prom ul) (stream_sys w' n g)"
      using n w' by (simp add: stream_sys_def)
    then show ?thesis using g(1) w' by (simp add: stream_life_def)
  qed
  moreover have "stream_life ul w' m" if "stream_life ul w m" "m \<noteq> n" for m
    by (rule stream_life_env [OF that(1)]) (use that(2) w' in simp_all)
  ultimately have "streams_ok ul w'" if "streams_ok ul w"
    using that w' by (metis length_list_update streams_ok_def)
  moreover have "started_ok w'" if "started_ok w"
    using that w' keep n by (auto simp: started_ok_def nth_list_update)
  ultimately show ?thesis
    using w' by (simp add: udp_sound_def same_addresses_def goroutines_ok_def)
qed

text \<open>
  The setup, up to the \<open>go\<close> statements: a stream that is set up for the first time and is
  undisturbed is the one \<open>newStream\<close> made.
\<close>

lemma setup_client_parts:
  assumes g: "goroutines_ok ul w" and n: "n < n_clients w"
    and s: "udp_setup_client ul n w = Inr (w', e)"
  obtains s1 reg where
    "setup_connection (ul_prom ul) (ul_client_net ul) (uw_client_config w)
       (uw_clients w ! n, uw_registry w) = ((s1, reg), e)"
    "uw_clients w' = uw_clients (put_shared n (s1, reg) w)" "uw_procs w' = uw_procs w"
    "uw_pair_at w' = uw_pair_at w" "uw_servers w' = uw_servers w" "started_ok w'"
    "uw_clients w' ! n = s1"
    "\<And>m. m < n_clients w \<Longrightarrow> m \<noteq> n \<Longrightarrow> \<not> uw_disturbed w' m \<Longrightarrow> stream_life ul w' m"
    "\<not> uw_disturbed w' n \<Longrightarrow> uw_procs w n = [] \<and>
      (\<exists>p sz. bp_pending p = Map.empty \<and> new_stream (ul_codec ul) p sz = Inr (uw_clients w ! n))"
proof -
  obtain s1 reg where su: "setup_connection (ul_prom ul) (ul_client_net ul)
      (uw_client_config w) (uw_clients w ! n, uw_registry w) = ((s1, reg), e)"
    and w': "w' = (put_shared n (s1, reg) w)\<lparr>uw_disturbed := (\<lambda>m. uw_disturbed (put_shared n (s1, reg) w) m \<or>
      (m = n \<and> st_traffic_not_started (uw_clients w ! n) \<noteq> None))\<rparr>"
    using s by (auto simp: udp_setup_client_def split: prod.splits)
  have old: "started_ok w" "streams_ok ul w" using g by (simp_all add: goroutines_ok_def)
  note f = setup_fields [OF su]
  have "started_ok w'"
    by (rule put_shared_started [OF old(1) n, of "(s1, reg)"])
      (use f old(1) n w' in \<open>auto simp: started_ok_def\<close>)
  moreover have "stream_life ul w' m" if "m < n_clients w" "m \<noteq> n" "\<not> uw_disturbed w' m" for m
    by (rule put_shared_lives [OF old(2) that(1,2), of _ "(s1, reg)"]) (use that w' in simp_all)
  moreover have "uw_procs w n = [] \<and>
      (\<exists>p sz. bp_pending p = Map.empty \<and> new_stream (ul_codec ul) p sz = Inr (uw_clients w ! n))"
    if "\<not> uw_disturbed w' n"
  proof -
    have "stream_life ul w n" and t: "st_traffic_not_started (uw_clients w ! n) = None"
      using that w' old(2) n by (auto simp: streams_ok_def)
    moreover have "uw_procs w n = []" using old(1) n t by (auto simp: started_ok_def)
    ultimately show ?thesis by (auto simp: stream_life_def)
  qed
  ultimately show ?thesis using that [OF su] w' n by simp
qed

lemma setup_failed_sound:
  assumes n: "n < n_clients w" and s: "udp_setup_client ul n w = Inr (w', Some err)"
  shows "udp_sound ul w w'"
proof -
  have "goroutines_ok ul w'" if g: "goroutines_ok ul w"
  proof (rule setup_client_parts [OF g n s])
    fix s1 reg
    assume su: "setup_connection (ul_prom ul) (ul_client_net ul) (uw_client_config w)
        (uw_clients w ! n, uw_registry w) = ((s1, reg), Some err)"
      and c: "uw_clients w' = uw_clients (put_shared n (s1, reg) w)" "uw_procs w' = uw_procs w"
        "uw_servers w' = uw_servers w" "started_ok w'" "uw_clients w' ! n = s1"
        "\<And>m. m < n_clients w \<Longrightarrow> m \<noteq> n \<Longrightarrow> \<not> uw_disturbed w' m \<Longrightarrow> stream_life ul w' m"
        "\<not> uw_disturbed w' n \<Longrightarrow> uw_procs w n = [] \<and>
          (\<exists>p sz. bp_pending p = Map.empty \<and> new_stream (ul_codec ul) p sz = Inr (uw_clients w ! n))"
    have "stream_life ul w' n" if "\<not> uw_disturbed w' n"
      using c(2,5) c(7) [OF that] setup_not_started [OF su] by (simp add: stream_life_def)
    then have "streams_ok ul w'" using c(1,6) unfolding streams_ok_def by (metis put_shared_simps(1))
    then show "goroutines_ok ul w'" using g c(3,4) by (simp add: goroutines_ok_def)
  qed
  moreover have "same_addresses w w'"
    using s by (auto simp: udp_setup_client_def same_addresses_def split: prod.splits)
  ultimately show ?thesis by (simp add: udp_sound_def)
qed

lemma setup_started_sound:
  assumes n: "n < n_clients w" and s: "udp_setup_client ul n w = Inr (w', None)"
  shows "udp_sound ul w (udp_start_client n w')"
proof -
  let ?w = "udp_start_client n w'"
  have "goroutines_ok ul ?w" if g: "goroutines_ok ul w"
  proof (rule setup_client_parts [OF g n s])
    fix s1 reg
    assume su: "setup_connection (ul_prom ul) (ul_client_net ul) (uw_client_config w)
        (uw_clients w ! n, uw_registry w) = ((s1, reg), None)"
      and c: "uw_clients w' = uw_clients (put_shared n (s1, reg) w)" "uw_procs w' = uw_procs w"
        "uw_servers w' = uw_servers w" "started_ok w'" "uw_clients w' ! n = s1"
        "\<And>m. m < n_clients w \<Longrightarrow> m \<noteq> n \<Longrightarrow> \<not> uw_disturbed w' m \<Longrightarrow> stream_life ul w' m"
        "\<not> uw_disturbed w' n \<Longrightarrow> uw_procs w n = [] \<and>
          (\<exists>p sz. bp_pending p = Map.empty \<and> new_stream (ul_codec ul) p sz = Inr (uw_clients w ! n))"
    have W: "uw_clients ?w = uw_clients w'" "uw_disturbed ?w = uw_disturbed w'"
      "uw_servers ?w = uw_servers w'" "uw_procs ?w = (uw_procs w')(n := uw_procs w' n @ [new_goroutines])"
      by (simp_all add: udp_start_client_def)
    have "stream_life ul ?w n" if d: "\<not> uw_disturbed w' n"
    proof -
      obtain p sz where p: "bp_pending p = Map.empty" "new_stream (ul_codec ul) p sz = Inr (uw_clients w ! n)"
        "uw_procs w n = []"
        using c(7) [OF d] by blast
      have "client_reachable (ul_codec ul) (ul_prom ul)
          (client_start s1 (uw_client_config ?w) reg)"
        by (rule client_reachable.start [OF p(2,1) su])
      from client_reachable.environment [OF this]
      have "client_reachable (ul_codec ul) (ul_prom ul)
          ((client_start s1 (uw_client_config ?w) reg)
            \<lparr>cs_conf := uw_client_config ?w, cs_registry := uw_registry ?w\<rparr>)" .
      then have "client_reachable (ul_codec ul) (ul_prom ul) (stream_sys ?w n new_goroutines)"
        using c(5) W(1) by (simp add: stream_sys_def client_start_def new_goroutines_def)
      then show ?thesis using p(3) c(2) W(4) by (simp add: stream_life_def)
    qed
    moreover have "stream_life ul ?w m" if "m < n_clients w" "m \<noteq> n" "\<not> uw_disturbed w' m" for m
      by (rule stream_life_env [OF c(6) [OF that]]) (use that(2) W in simp_all)
    ultimately have "streams_ok ul ?w"
      using c(1) W(1,2) unfolding streams_ok_def by (metis put_shared_simps(1))
    moreover have "started_ok ?w"
      using c(1,4,5) W(1,4) setup_fields [OF su] n by (auto simp: started_ok_def)
    ultimately show "goroutines_ok ul ?w" using g c(3) W(3) by (simp add: goroutines_ok_def)
  qed
  moreover have "same_addresses w ?w"
    using s by (auto simp: udp_setup_client_def udp_start_client_def same_addresses_def split: prod.splits)
  ultimately show ?thesis by (simp add: udp_sound_def)
qed

subsection \<open>The whole program\<close>

lemma server_list_teardown:
  assumes "n < n_servers w" and "udp_teardown_server ul n w = Inr w'"
  shows "udp_sound ul w w'"
proof -
  let ?sy = "uw_servers w ! n"
  let ?t = "?sy\<lparr>sy_server := teardown_server_begin (sy_server ?sy)\<rparr>"
  have "server_ok ul ?t" if "list_all (server_ok ul) (uw_servers w)"
    using that assms(1) server_reachable.teardown by (fastforce simp: list_all_length server_ok_def)
  moreover have "w' = w\<lparr>uw_servers := (uw_servers w)[n := ?t],
      uw_registry := teardown_server_finish (ul_prom ul) (teardown_server_begin (sy_server ?sy)) (uw_registry w)\<rparr>"
    using assms(2) by (simp add: udp_teardown_server_def Let_def)
  ultimately show ?thesis
    by (intro left_alone) (auto simp: list_all_iff dest: set_update_subset_insert [THEN subsetD])
qed

interpretation udp_goroutines: client_simulation "udp_modules ul" "started_work ul" n_clients n_servers
    udp_ready "udp_sound ul" for ul :: "'r udp_libs"
proof unfold_locales
  fix a b c :: "'r udp_world"
  assume "udp_sound ul a b" "udp_sound ul b c"
  then show "udp_sound ul a c" by (auto simp: udp_sound_def same_addresses_def)
next
  fix n and w w' :: "'r udp_world"
  assume "n < n_clients w" "md_setup_client (udp_modules ul) n w = Inr (w', None)"
  then show "udp_sound ul w (md_start_client (udp_modules ul) n w')"
    using setup_started_sound by (simp add: udp_modules_def)
qed (auto simp: udp_modules_def udp_load_server_def udp_load_client_def left_alone
    create_server_sound server_list_teardown clear_pending_sound create_client_sound
    setup_failed_sound teardown_client_sound started_work_sound split: prod.splits)

lemma tgc_step_mono:
  assumes "tgc_step env act tg r" and "\<And>w. act (tg_world tg) w \<Longrightarrow> act' (tg_world tg) w"
  shows "tgc_step env act' tg r"
  using assms by (cases rule: tgc_step.cases) (auto intro: tgc_step.intros)

lemma program_goroutines_ok:
  assumes "tgc_reachable env (udp_work ul) (udp_initial_world reg) tg"
    and "te_modules env = udp_modules ul" and "choice_ok (te_pairing env)"
  shows "tgc_reachable env (started_work ul) (udp_initial_world reg) tg \<and> goroutines_ok ul (tg_world tg)"
  using assms(1)
proof (induction rule: tgc_reachable.induct)
  case start
  have "goroutines_ok ul (tg_world (new_pod_tg_controller (udp_initial_world reg)))"
    by (simp add: new_pod_tg_controller_def udp_initial_world_def goroutines_ok_def
        started_ok_def streams_ok_def)
  then show ?case by (intro conjI tgc_reachable.start)
next
  case (step tg tg')
  then have ok: "goroutines_ok ul (tg_world tg)" and r: "tgc_reachable env (started_work ul) (udp_initial_world reg) tg"
    by simp_all
  have st: "tgc_step env (started_work ul) tg (Inr tg')"
    by (rule tgc_step_mono [OF step.hyps(2)]) (use ok in \<open>simp add: started_work_def goroutines_ok_def\<close>)
  have "udp_sound ul (tg_world tg) (tg_world tg')"
    using udp_goroutines.step_along [OF st assms(2)]
      udp_goroutine_runtime.reachable_typed [OF r assms(2,3)] by simp
  then show ?case using ok tgc_reachable.step [OF r st] by (simp add: udp_sound_def)
qed

lemma program_activity:
  assumes "tgc_reachable env (started_work ul) w0 tg"
  shows "tgc_reachable env udp_activity w0 tg"
  using assms
proof (induction rule: tgc_reachable.induct)
  case start
  show ?case by (rule tgc_reachable.start)
next
  case (step tg tg')
  show ?case
    by (rule tgc_reachable.step [OF step.IH tgc_step_mono [OF step.hyps(2)]]) (rule started_work_activity)
qed

subsection \<open>A client stands in the pair it was created for\<close>

lemma sound_addresses: "udp_sound ul w w' \<Longrightarrow> same_addresses w w'"
  by (simp add: udp_sound_def)

interpretation udp_addresses: client_simulation "udp_modules ul" udp_activity n_clients n_servers
    udp_ready same_addresses for ul :: "'r udp_libs"
proof unfold_locales
  fix k a b c d f sz r and w w' :: "'r udp_world"
  assume "md_create_server (udp_modules ul) k a b c d f sz w = Inr (w', r)"
  then show "same_addresses w w'"
    using create_server_sound [THEN sound_addresses] by (simp add: udp_modules_def)
next
  fix k at p sz r and w w' :: "'r udp_world"
  assume "bp_pending p = Map.empty" "md_create_client (udp_modules ul) k at p sz w = Inr (w', r)"
  then show "same_addresses w w'"
    using create_client_sound [THEN sound_addresses] by (simp add: udp_modules_def)
next
  fix n and w w' :: "'r udp_world"
  assume "n < n_clients w" "md_setup_client (udp_modules ul) n w = Inr (w', None)"
  then show "same_addresses w (md_start_client (udp_modules ul) n w')"
    using setup_started_sound [THEN sound_addresses] by (simp add: udp_modules_def)
next
  fix n err and w w' :: "'r udp_world"
  assume "n < n_clients w" "md_setup_client (udp_modules ul) n w = Inr (w', Some err)"
  then show "same_addresses w w'"
    using setup_failed_sound [THEN sound_addresses] by (simp add: udp_modules_def)
next
  fix n and w w' :: "'r udp_world"
  assume "n < n_clients w" "md_teardown_client (udp_modules ul) n w = Inr w'"
  then show "same_addresses w w'"
    using teardown_client_sound [THEN sound_addresses] by (simp add: udp_modules_def)
next
  fix w w' :: "'r udp_world"
  assume "udp_activity w w'"
  then show "same_addresses w w'"
    by (auto simp: udp_activity_def same_addresses_def list_all2_lengthD)
qed (auto simp: udp_modules_def udp_load_server_def udp_load_client_def udp_teardown_server_def
    udp_clear_pending_def same_addresses_def Let_def split: prod.splits)

definition addressed :: "'r udp_world tgc \<Rightarrow> bool" where
  "addressed tg \<longleftrightarrow> (\<forall>a < length (tg_arrays tg). \<forall>i < length (tg_arrays tg ! a). \<forall>n.
     bp_client_connection (tg_arrays tg ! a ! i) = Some n \<longrightarrow> uw_pair_at (tg_world tg) n = (a, i))"

text \<open>The first part of a client's goroutine, over these modules.\<close>

lemma task_create_udp:
  assumes "te_modules env = udp_modules ul" and "task_typed (tg_arrays tg) t"
    and "bp_traffic_profile (tg_arrays tg ! tk_array t ! tk_index t) \<in> set (te_proto_clients env)"
    and "task_create env t tg = Inr (tg', t')"
  shows "\<exists>s. st_traffic_not_started s = None \<and> uw_clients (tg_world tg') =
      uw_clients (udp_clear_pending (tk_array t, tk_index t) (tg_world tg)) @ [s]"
    and "uw_pair_at (tg_world tg') = (uw_pair_at (tg_world tg))(n_clients (tg_world tg) := (tk_array t, tk_index t))"
    and "length (tg_arrays tg') = length (tg_arrays tg)"
    and "length (tg_arrays tg' ! b) = length (tg_arrays tg ! b)"
    and "b < length (tg_arrays tg) \<Longrightarrow> j < length (tg_arrays tg ! b) \<Longrightarrow>
      bp_client_connection (tg_arrays tg' ! b ! j) =
        (if (b, j) = (tk_array t, tk_index t) then Some (n_clients (tg_world tg))
         else bp_client_connection (tg_arrays tg ! b ! j))"
    and "uw_disturbed (tg_world tg') m \<longleftrightarrow> m \<noteq> n_clients (tg_world tg) \<and>
      (uw_disturbed (tg_world tg) m \<or> uw_pair_at (tg_world tg) m = (tk_array t, tk_index t))"
    and "t' = Some (t\<lparr>tk_pc := AtSetup\<rparr>)"
proof -
  let ?a = "tk_array t" and ?i = "tk_index t"
  let ?tg1 = "clear_pending env (?a, ?i) tg"
  let ?p = "tg_arrays ?tg1 ! ?a ! ?i" and ?w = "udp_clear_pending (?a, ?i) (tg_world tg)"
  have ai: "?a < length (tg_arrays tg)" "?i < length (tg_arrays tg ! ?a)"
    using assms(2) by (simp_all add: task_typed_def)
  have arr: "tg_arrays ?tg1 = tg_arrays (set_pair ?a ?i (\<lambda>p. p\<lparr>bp_pending := Map.empty\<rparr>) tg)"
    and world: "tg_world ?tg1 = ?w"
    using assms(1) by (simp_all add: clear_pending_def udp_modules_def)
  have ai1: "?a < length (tg_arrays ?tg1)" "?i < length (tg_arrays ?tg1 ! ?a)"
    using ai arr by (simp_all add: set_pair_nth(1))
  have n: "n_clients ?w = n_clients (tg_world tg)" by (simp add: udp_clear_pending_def)
  have reg: "bp_traffic_profile ?p \<in> set (te_proto_clients env)"
    using assms(3) set_pair_nth(2) [OF ai ai] arr by simp
  then obtain w r where c: "udp_create_client ul (bp_traffic_profile ?p) (?a, ?i) ?p (te_read_buffer_size env)
      ?w = Inr (w, r)"
    using assms(1,4) world by (auto simp: task_create_def Let_def bindS_Inr_iff udp_modules_def)
  then obtain s where s: "uw_clients w = uw_clients ?w @ [s]" "r = Inr (n_clients ?w)"
    "uw_pair_at w = (uw_pair_at ?w)(n_clients ?w := (?a, ?i))"
    "uw_disturbed w = (uw_disturbed ?w)(n_clients ?w := False)" "st_traffic_not_started s = None"
    by (rule udp_create_client_ok) (simp add: new_stream_ok phase_created_iff [symmetric])
  let ?tg2 = "?tg1\<lparr>tg_world := w\<rparr>"
  have tg': "tg' = set_pair ?a ?i (\<lambda>p. p\<lparr>bp_client_connection := Some (n_clients ?w)\<rparr>) ?tg2"
    and t': "t' = Some (t\<lparr>tk_pc := AtSetup\<rparr>)"
    using assms(1,4) reg c s(2) world by (auto simp: task_create_def Let_def udp_modules_def)
  show "\<exists>s. st_traffic_not_started s = None \<and> uw_clients (tg_world tg') = uw_clients ?w @ [s]"
    "uw_disturbed (tg_world tg') m \<longleftrightarrow> m \<noteq> n_clients (tg_world tg) \<and>
      (uw_disturbed (tg_world tg) m \<or> uw_pair_at (tg_world tg) m = (?a, ?i))"
    "t' = Some (t\<lparr>tk_pc := AtSetup\<rparr>)"
    "uw_pair_at (tg_world tg') = (uw_pair_at (tg_world tg))(n_clients (tg_world tg) := (?a, ?i))"
    "length (tg_arrays tg') = length (tg_arrays tg)"
    using tg' t' s n arr by (auto simp: udp_clear_pending_def)
  have ai2: "?a < length (tg_arrays ?tg2)" "?i < length (tg_arrays ?tg2 ! ?a)" using ai1 by simp_all
  show "length (tg_arrays tg' ! b) = length (tg_arrays tg ! b)"
    using tg' set_pair_nth(1) [OF ai2] set_pair_nth(1) [OF ai] arr by simp
  show "bp_client_connection (tg_arrays tg' ! b ! j) =
      (if (b, j) = (?a, ?i) then Some (n_clients (tg_world tg))
       else bp_client_connection (tg_arrays tg ! b ! j))"
    if "b < length (tg_arrays tg)" "j < length (tg_arrays tg ! b)"
  proof -
    have "b < length (tg_arrays ?tg2)" "j < length (tg_arrays ?tg2 ! b)"
      using that arr set_pair_nth(1) [OF ai] by simp_all
    from set_pair_nth(2) [OF ai2 this] set_pair_nth(2) [OF ai that] show ?thesis
      using tg' arr n by simp
  qed
qed

lemma addressed_same_arrays:
  assumes "addressed tg" and "tgc_typed n_clients n_servers env tg"
    and "arrays_grow tg tg'" and "same_addresses (tg_world tg) (tg_world tg')"
  shows "addressed tg'"
  unfolding addressed_def
proof (intro allI impI)
  fix a i n
  assume a: "a < length (tg_arrays tg')" "i < length (tg_arrays tg' ! a)"
    and c: "bp_client_connection (tg_arrays tg' ! a ! i) = Some n"
  obtain as where as: "tg_arrays tg' = tg_arrays tg @ as"
    "\<forall>ps \<in> set as. \<forall>p \<in> set ps. bp_client_connection p = None"
    using assms(3) by (auto simp: arrays_grow_def)
  have lt: "a < length (tg_arrays tg)"
  proof (rule ccontr)
    assume "\<not> a < length (tg_arrays tg)"
    then have "tg_arrays tg' ! a \<in> set as" using a(1) as(1) by (simp add: nth_append)
    then show False using as(2) a(2) c by (metis nth_mem option.distinct(1))
  qed
  then have old: "tg_arrays tg' ! a = tg_arrays tg ! a" using as(1) by (simp add: nth_append)
  have "pair_typed (te_proto_clients env) (n_clients (tg_world tg)) (tg_arrays tg ! a ! i)"
    using assms(2) lt a(2) old by (auto simp: tgc_typed_def list_all_length)
  then have "n < n_clients (tg_world tg)" using c old by (simp add: pair_typed_def)
  then show "uw_pair_at (tg_world tg') n = (a, i)"
    using assms(1,4) lt a(2) c old by (auto simp: addressed_def same_addresses_def)
qed

lemma task_step_addressed:
  assumes env: "te_modules env = udp_modules ul" and ty: "tgc_typed n_clients n_servers env tg"
    and ad: "addressed tg" and k: "k < length (tg_tasks tg)" and st: "task_step env k tg = Inr tg'"
  shows "addressed tg'"
proof -
  let ?t = "tg_tasks tg ! k"
  have t: "task_typed (tg_arrays tg) ?t" using ty k by (simp add: tgc_typed_def list_all_length)
  obtain tg1 t1 where r: "(case tk_pc ?t of AtCreate \<Rightarrow> task_create env ?t tg
      | AtSetup \<Rightarrow> task_setup env ?t tg) = Inr (tg1, t1)"
    and tg': "tg_arrays tg' = tg_arrays tg1" "tg_world tg' = tg_world tg1"
    using st by (auto simp: task_step_def Let_def bindS_Inr_iff)
  note same = udp_addresses.task_step_along [OF env ty k st]
  show ?thesis
  proof (cases "tk_pc ?t = AtSetup")
    case True
    then have "tg_arrays tg1 = tg_arrays tg"
      using r udp_runtime.task_setup_typed(4) [OF env ty t] by simp
    then show ?thesis
      by (intro addressed_same_arrays [OF ad ty _ same] arrays_grow_same) (simp add: tg')
  next
    case False
    then have c: "task_create env ?t tg = Inr (tg1, t1)" using r by (cases "tk_pc ?t") simp_all
    show ?thesis
    proof (cases "bp_traffic_profile (tg_arrays tg ! tk_array ?t ! tk_index ?t) \<in> set (te_proto_clients env)")
      case True
      note cu = task_create_udp [OF env t True c]
      show ?thesis
        unfolding addressed_def tg' cu(2,3,4)
      proof (intro allI impI)
        fix a i n
        assume a: "a < length (tg_arrays tg)" "i < length (tg_arrays tg ! a)"
          and n: "bp_client_connection (tg_arrays tg1 ! a ! i) = Some n"
        have ty1: "pair_typed (te_proto_clients env) (n_clients (tg_world tg)) (tg_arrays tg ! a ! i)"
          using ty a by (auto simp: tgc_typed_def list_all_length)
        show "((uw_pair_at (tg_world tg))(n_clients (tg_world tg) := (tk_array ?t, tk_index ?t))) n = (a, i)"
          using n cu(5) [OF a] ad a ty1
          by (auto simp: addressed_def pair_typed_def split: if_splits)
      qed
    next
      case unreg: False
      have ai: "tk_array ?t < length (tg_arrays tg)" "tk_index ?t < length (tg_arrays tg ! tk_array ?t)"
        using t by (simp_all add: task_typed_def)
      have "tg1 = clear_pending env (tk_array ?t, tk_index ?t) tg"
        using c unreg set_pair_nth(2) [OF ai ai] by (auto simp: task_create_def clear_pending_def Let_def)
      then show ?thesis
        using ad set_pair_nth [OF ai] env
        by (auto simp: addressed_def tg' clear_pending_def udp_modules_def udp_clear_pending_def
            split: if_splits)
    qed
  qed
qed

lemma reachable_addressed:
  assumes "tgc_reachable env udp_activity (udp_initial_world reg) tg"
    and "te_modules env = udp_modules ul" and "choice_ok (te_pairing env)"
  shows "addressed tg"
  using assms(1)
proof (induction rule: tgc_reachable.induct)
  case start
  then show ?case by (simp add: addressed_def new_pod_tg_controller_def)
next
  case (step tg tg')
  note ty = udp_runtime.reachable_typed [OF step.hyps(1) assms(2,3)]
  note same = udp_addresses.step_along [OF step.hyps(2) assms(2) ty]
  from step.hyps(2) show ?case
  proof (cases rule: tgc_step.cases)
    case (event vw ev)
    then show ?thesis
      using addressed_same_arrays [OF step.IH ty handle_event_grows [OF _ assms(3)] same] by metis
  next
    case (client_task k)
    then show ?thesis using task_step_addressed [OF assms(2) ty step.IH] by metis
  next
    case (activity w)
    then show ?thesis
      using addressed_same_arrays [OF step.IH ty arrays_grow_same same] by simp
  qed
qed

end
