(* ===== verification/TgcProps.thy ===== *)
theory TgcProps
  imports TgcStreams TgenSamples
begin

section \<open>What the controller does\<close>

text \<open>
  The properties of the controller over the UDP modules: its references are good, it is a
  refinement of the clients' life cycle, what its handlers stop and when they panic, what a profile update
  leaves running, and what the order of the config maps matters.
\<close>

subsection \<open>Reachable states\<close>

text \<open>
  C10: In every reachable state of the controller, whatever config map events arrive and
  however its client goroutines interleave with them, its references are good: the list of
  pairs and every goroutine's pointer refer to existing pairs, every client connection
  refers to a client the module made and stands in a pair with a registered protocol, a
  goroutine that is about to set up a client has one, and every server it keeps exists and
  is kept under a registered protocol.
\<close>
theorem controller_state_is_well_typed:
  assumes "tgc_reachable env udp_activity (udp_initial_world reg) tg"
    and "te_modules env = udp_modules ul" and "choice_ok (te_pairing env)"
  shows "tgc_typed n_clients n_servers env tg"
  using assms by (rule udp_runtime.reachable_typed)

lemma reachable_world_ok:
  assumes "tgc_reachable env udp_activity (udp_initial_world reg) tg"
    and "te_modules env = udp_modules ul" and "choice_ok (te_pairing env)"
  shows "udp_world_ok (tg_world tg)"
  using assms(1)
proof (induction rule: tgc_reachable.induct)
  case start
  then show ?case by (simp add: new_pod_tg_controller_def udp_initial_world_def udp_world_ok_def)
next
  case (step tg tg')
  have "udp_moves (tg_world tg) (tg_world tg')"
    using udp_life.step_along [OF step.hyps(2) assms(2)]
      udp_runtime.reachable_typed [OF step.hyps(1) assms(2,3)] by simp
  then show ?case using step.IH by (simp add: udp_moves_def)
qed


subsection \<open>Panics\<close>

lemma delete_exact:
  assumes "tgc_reachable env udp_activity (udp_initial_world reg) tg"
    and "te_modules env = udp_modules ul" and "choice_ok (te_pairing env)"
  shows "(\<exists>e. delete_net_bat_tgen_clients env (tg\<lparr>tg_net_pair_resource_version := v\<rparr>) = Inl e) \<longleftrightarrow>
    (\<exists>p \<in> set (pairs_of tg). bp_client_connection p = None \<or>
      (\<exists>n. bp_client_connection p = Some n \<and> phase_of (uw_clients (tg_world tg) ! n) = PhCreated))"
proof -
  let ?tg = "tg\<lparr>tg_net_pair_resource_version := v\<rparr>"
  have "tgc_typed n_clients n_servers env ?tg"
    using udp_runtime.reachable_typed [OF assms] by simp
  note d = udp_runtime.delete_clients_exact [OF this assms(2)]
  have pairs: "pairs_of ?tg = pairs_of tg" by (cases "tg_net_bat_pairs tg") (simp_all add: pairs_of_def)
  have served: "udp_runtime.served w p \<longleftrightarrow> \<not> (bp_client_connection p = None \<or>
      (\<exists>n. bp_client_connection p = Some n \<and> phase_of (uw_clients w ! n) = PhCreated))" for w p
    unfolding udp_runtime.served_def phase_created_iff by (cases "bp_client_connection p") auto
  have "(\<exists>x. delete_net_bat_tgen_clients env ?tg = Inr x) \<longleftrightarrow>
      \<not> (\<exists>p \<in> set (pairs_of tg). bp_client_connection p = None \<or>
        (\<exists>n. bp_client_connection p = Some n \<and> phase_of (uw_clients (tg_world tg) ! n) = PhCreated))"
    unfolding d pairs served by simp
  then show ?thesis by (cases "delete_net_bat_tgen_clients env ?tg") simp_all
qed

text \<open>Tearing down pairs moves the clients they name, and no other.\<close>

lemma teardown_pairs_phases:
  assumes "te_modules env = udp_modules ul" and "foldS (teardown_pair env) ps w = Inr w'"
    and "\<And>p n. p \<in> set ps \<Longrightarrow> bp_client_connection p = Some n \<Longrightarrow> n < n_clients w"
  shows "n_clients w' = n_clients w \<and> (\<forall>n < n_clients w. phase_of (uw_clients w' ! n) =
    (if Some n \<in> bp_client_connection ` set ps then the (phase_teardown (phase_of (uw_clients w ! n)))
     else phase_of (uw_clients w ! n)))"
  using assms(2,3)
proof (induction ps arbitrary: w)
  case Nil
  then show ?case by simp
next
  case (Cons p ps)
  then obtain w1 where w1: "teardown_pair env p w = Inr w1" "foldS (teardown_pair env) ps w1 = Inr w'"
    by (auto simp: bindS_Inr_iff)
  then obtain m where m: "bp_client_connection p = Some m" "udp_teardown_client ul m w = Inr w1"
    using assms(1) by (auto simp: teardown_pair_def udp_modules_def split: option.splits)
  then obtain sr where sr: "teardown_begin (ul_prom ul) (uw_clients w ! m, uw_registry w) = Inr sr"
    and "w1 = put_stream m (teardown_finish (ul_prom ul) sr) w"
    by (auto simp: udp_teardown_client_def bindS_Inr_iff)
  moreover have "m < n_clients w" using Cons.prems(2) [OF list.set_intros(1) m(1)] .
  ultimately have step: "n_clients w1 = n_clients w" "phase_of (uw_clients w1 ! n) =
      (if n = m then the (phase_teardown (phase_of (uw_clients w ! n))) else phase_of (uw_clients w ! n))"
    if "n < n_clients w" for n
    using that teardown_phase(2) [OF sr] by (auto simp: put_stream_def nth_list_update)
  have idem: "phase_teardown ph = Some ph' \<Longrightarrow> phase_teardown ph' = Some ph'" for ph ph'
    by (cases ph) (auto simp: phase_teardown_def)
  have "the (phase_teardown (the (phase_teardown (phase_of (uw_clients w ! m))))) =
      the (phase_teardown (phase_of (uw_clients w ! m)))"
    using idem teardown_phase(2) [OF sr] by simp
  moreover have "n < n_clients w1" if "q \<in> set ps" "bp_client_connection q = Some n" for q n
    using Cons.prems(2) [of q n] that step(1) [OF \<open>m < n_clients w\<close>] by simp
  note Cons.IH [OF w1(2) this]
  ultimately show ?case
    using step m(1) \<open>m < n_clients w\<close> by auto
qed

lemma deleted_clients_stopped:
  assumes "tgc_reachable env udp_activity (udp_initial_world reg) tg"
    and "te_modules env = udp_modules ul" and "choice_ok (te_pairing env)"
    and "delete_net_bat_tgen_clients env (tg\<lparr>tg_net_pair_resource_version := v\<rparr>) = Inr tg'"
  shows "tg_net_bat_pairs tg' = None \<and>
    (\<forall>p \<in> set (pairs_of tg). \<exists>n. bp_client_connection p = Some n \<and>
      phase_of (uw_clients (tg_world tg) ! n) \<noteq> PhCreated \<and>
      phase_of (uw_clients (tg_world tg') ! n) =
        (if phase_of (uw_clients (tg_world tg) ! n) = PhUnconnected then PhUnconnected
         else PhStopped)) \<and>
    (\<forall>n < n_clients (tg_world tg). Some n \<notin> bp_client_connection ` set (pairs_of tg) \<longrightarrow>
      phase_of (uw_clients (tg_world tg') ! n) = phase_of (uw_clients (tg_world tg) ! n))"
proof -
  let ?ps = "pairs_of tg" and ?w = "tg_world tg"
  have pairs: "pairs_of (tg\<lparr>tg_net_pair_resource_version := v\<rparr>) = ?ps"
    by (cases "tg_net_bat_pairs tg") (simp_all add: pairs_of_def)
  have none: "tg_net_bat_pairs tg' = None" by (rule delete_clients_frame(3) [OF assms(4)])
  have f: "foldS (teardown_pair env) ?ps ?w = Inr (tg_world tg')"
    using assms(4) pairs
    by (auto simp: delete_net_bat_tgen_clients_def teardown_pairs_def bindS_Inr_iff
        split: if_splits option.splits)
      (simp_all add: pairs_of_def)
  have typed: "n < n_clients ?w" if "p \<in> set ?ps" "bp_client_connection p = Some n" for p n
    using tgc_typed_pairs [OF udp_runtime.reachable_typed [OF assms(1-3)] that(1)] that(2)
    by (simp add: pair_typed_def)
  note ph = teardown_pairs_phases [OF assms(2) f typed]
  have "\<exists>n. bp_client_connection p = Some n \<and> phase_of (uw_clients ?w ! n) \<noteq> PhCreated \<and>
      phase_of (uw_clients (tg_world tg') ! n) =
        (if phase_of (uw_clients ?w ! n) = PhUnconnected then PhUnconnected else PhStopped)"
    if p: "p \<in> set ?ps" for p
  proof -
    obtain n where n: "bp_client_connection p = Some n" "phase_of (uw_clients ?w ! n) \<noteq> PhCreated"
      using delete_exact [OF assms(1-3), of v] p assms(4) by auto
    moreover have "Some n \<in> bp_client_connection ` set ?ps" using p n(1) by (metis imageI)
    ultimately show ?thesis
      using ph typed [OF p n(1)]
      by (cases "phase_of (uw_clients ?w ! n)") (auto simp: phase_teardown_def)
  qed
  then show ?thesis using none ph by simp
qed


text \<open>
  A pair whose traffic profile is not a registered protocol ends the process later: it
  never gets a client, so any change or deletion of the pairing config map and any
  shutdown of the controller panics.
\<close>
theorem unregistered_profile_panics_later:
  assumes reach: "tgc_reachable env udp_activity (udp_initial_world reg) tg"
    and env: "te_modules env = udp_modules ul" "choice_ok (te_pairing env)"
    and p: "p \<in> set (pairs_of tg)" "bp_traffic_profile p \<notin> set (te_proto_clients env)"
  shows "(\<exists>e. delete_pairing env tg = Inl e) \<and> (\<exists>e. stop_tgc env vw tg = Inl e) \<and>
    (cm_resource_version cm \<noteq> tg_net_pair_resource_version tg \<longrightarrow>
      (\<exists>e. update_pairing env vw cm tg = Inl e))"
proof -
  have "bp_client_connection p = None"
    using tgc_typed_pairs [OF udp_runtime.reachable_typed [OF reach env] p(1)] p(2)
    by (auto simp: pair_typed_def)
  then have d: "\<exists>e. delete_net_bat_tgen_clients env (tg\<lparr>tg_net_pair_resource_version := v\<rparr>) = Inl e" for v
    using delete_exact [OF reach env] p(1) by blast
  moreover have "tg\<lparr>tg_net_pair_resource_version := tg_net_pair_resource_version tg\<rparr> = tg" by simp
  ultimately have "\<exists>e. delete_net_bat_tgen_clients env tg = Inl e" by metis
  then show ?thesis
    using d by (auto simp: delete_pairing_def stop_tgc_def update_pairing_def bindS_Inl_iff)
qed

text \<open>
  C35: When the first profile config map the controller sees does not parse, the next
  update of it, also one that repairs it, ends the process with a nil dereference: the
  handler reads the resource version of a configuration that was never set.
\<close>
theorem repairing_first_profile_panics:
  assumes "tg_config tg = None" and "load_config (te_yaml env) cm = Inl e"
    and "cm_name cm = net_bat_profile" "cm_name cm' = net_bat_profile"
  shows "bindS (handle_event env vw (AddEvent (KubeConfigMap cm)) tg)
    (handle_event env vw' (UpdateEvent (KubeConfigMap cm'))) = Inl NilDereference"
  using assms
  by (simp add: handle_event_def add_func_def update_func_def as_config_map_def add_profile_def
      update_profile_def net_bat_profile_def net_bat_pairing_def)

subsection \<open>Profile updates\<close>


subsection \<open>The order of the two config maps\<close>

text \<open>The modules take the profile: every load succeeds and no server panics.\<close>

definition profile_accepted :: "'w tgc_env \<Rightarrow> view \<Rightarrow> config_map \<Rightarrow> 'w tgc \<Rightarrow> bool" where
  "profile_accepted env vw cm tg \<longleftrightarrow>
     (\<exists>c addrs tg2 tg3. load_config (te_yaml env) cm = Inr c \<and> vw_addrs vw = Inr (Inr addrs) \<and>
        start_servers env (cfg_profile_map c) (vw_addr_order vw addrs)
          (vw_order vw (te_proto_servers env)) (tg\<lparr>tg_config := Some c\<rparr>) = Inr (tg2, True) \<and>
        load_modules (md_load_client (te_modules env)) (cfg_profile_map c)
          (vw_order vw (te_proto_clients env)) tg2 = (tg3, None))"

definition with_pairs :: "string \<Rightarrow> bat_pair list list \<Rightarrow> nat option \<Rightarrow> 'w tgc \<Rightarrow> 'w tgc" where
  "with_pairs v ar ps tg =
     tg\<lparr>tg_net_pair_resource_version := v, tg_arrays := ar, tg_net_bat_pairs := ps\<rparr>"

lemma with_pairs_simps [simp]:
  "tg_world (with_pairs v ar ps tg) = tg_world tg" "tg_config (with_pairs v ar ps tg) = tg_config tg"
  "tg_tasks (with_pairs v ar ps tg) = tg_tasks tg" "tg_arrays (with_pairs v ar ps tg) = ar"
  "tg_net_bat_pairs (with_pairs v ar ps tg) = ps"
  "tg_servers_map (with_pairs v ar ps tg) = tg_servers_map tg"
  "(with_pairs v ar ps tg)\<lparr>tg_world := w\<rparr> = with_pairs v ar ps (tg\<lparr>tg_world := w\<rparr>)"
  "(with_pairs v ar ps tg)\<lparr>tg_servers_map := sm\<rparr> = with_pairs v ar ps (tg\<lparr>tg_servers_map := sm\<rparr>)"
  "(with_pairs v ar ps tg)\<lparr>tg_config := c\<rparr> = with_pairs v ar ps (tg\<lparr>tg_config := c\<rparr>)"
  by (simp_all add: with_pairs_def)

lemma start_servers_with_pairs:
  "start_servers env pm addrs ks (with_pairs v ar ps tg) =
     bindS (start_servers env pm addrs ks tg) (\<lambda>(tg', b). Inr (with_pairs v ar ps tg', b))"
proof (induction ks arbitrary: tg)
  case Nil
  then show ?case by simp
next
  case (Cons k ks)
  obtain w e where l: "md_load_server (te_modules env) k pm (tg_world tg) = (w, e)" by fastforce
  then show ?case
    by (cases e; cases "foldS (create_server_on env k) addrs (w, [])")
      (auto simp: Cons.IH)
qed

lemma load_modules_with_pairs:
  "load_modules load pm ks (with_pairs v ar ps tg) =
     (let (tg', e) = load_modules load pm ks tg in (with_pairs v ar ps tg', e))"
  by (simp add: load_modules_def split: prod.splits)

lemma profile_accepted_with_pairs:
  assumes "profile_accepted env vw cm tg"
  obtains c w sm tg3 where "tg3 = tg\<lparr>tg_config := Some c, tg_world := w, tg_servers_map := sm\<rparr>"
    and "\<And>v ar ps. add_profile env vw cm (with_pairs v ar ps tg) =
      Inr (if ps \<noteq> None then create_net_bat_tgen_clients (with_pairs v ar ps tg3)
           else with_pairs v ar ps tg3)"
proof -
  obtain c addrs tg2 tg3 where c: "load_config (te_yaml env) cm = Inr c"
    and a: "vw_addrs vw = Inr (Inr addrs)"
    and s: "start_servers env (cfg_profile_map c) (vw_addr_order vw addrs)
        (vw_order vw (te_proto_servers env)) (tg\<lparr>tg_config := Some c\<rparr>) = Inr (tg2, True)"
    and l: "load_modules (md_load_client (te_modules env)) (cfg_profile_map c)
        (vw_order vw (te_proto_clients env)) tg2 = (tg3, None)"
    using assms by (auto simp: profile_accepted_def)
  obtain w2 sm where "tg2 = tg\<lparr>tg_config := Some c, tg_world := w2, tg_servers_map := sm\<rparr>"
    using start_servers_frame [OF s] by blast
  moreover obtain w where "tg3 = tg2\<lparr>tg_world := w\<rparr>" using load_modules_frame [OF l] by blast
  ultimately have tg3: "tg3 = tg\<lparr>tg_config := Some c, tg_world := w, tg_servers_map := sm\<rparr>"
    by simp
  have prof: "add_profile env vw cm (with_pairs v ar ps tg) =
      Inr (if ps \<noteq> None then create_net_bat_tgen_clients (with_pairs v ar ps tg3)
           else with_pairs v ar ps tg3)" for v ar ps
    by (simp add: add_profile_def c a start_servers_with_pairs s load_modules_with_pairs l)
  show ?thesis by (rule that [OF tg3 prof])
qed

text \<open>
  C15: While there is neither a profile nor a pairing, the order in which the two config maps
  are added does not matter, when the modules take the profile: adding the profile and then
  the pairing gives the same controller as adding the pairing and then the profile, with
  the same configuration, the same pairs, the same servers and one goroutine per pair.
\<close>
theorem config_maps_commute:
  assumes "tg_config tg = None" and "tg_net_bat_pairs tg = None"
    and "profile_accepted env vw cm tg"
  shows "bindS (add_profile env vw cm tg) (add_pairing env vw' cm') =
    bindS (add_pairing env vw' cm' tg) (add_profile env vw cm)"
proof -
  obtain c w sm tg3 where tg3: "tg3 = tg\<lparr>tg_config := Some c, tg_world := w, tg_servers_map := sm\<rparr>"
    and prof: "\<And>v ar ps. add_profile env vw cm (with_pairs v ar ps tg) =
      Inr (if ps \<noteq> None then create_net_bat_tgen_clients (with_pairs v ar ps tg3)
           else with_pairs v ar ps tg3)"
    by (rule profile_accepted_with_pairs [OF assms(3)]) (rule that, assumption+)
  have id: "with_pairs (tg_net_pair_resource_version tg) (tg_arrays tg) None tg = tg"
    "with_pairs (tg_net_pair_resource_version tg) (tg_arrays tg) None tg3 = tg3"
    using assms(2) by (simp_all add: with_pairs_def tg3)
  have first: "add_profile env vw cm tg = Inr tg3"
    using prof [of "tg_net_pair_resource_version tg" "tg_arrays tg" None] id by simp
  let ?h = "handle_add_net_bat_config_map (te_pairing env) (vw_interfaces vw') (vw_addrs vw') cm'
      (te_namespace env) (te_pod_name env)"
  let ?v = "cm_resource_version cm'"
  show ?thesis
  proof (cases ?h)
    case (Inl p)
    then show ?thesis
      using first by (simp add: add_pairing_def handle_net_bat_pairing_add_event_def)
  next
    case (Inr r)
    show ?thesis
    proof (cases r)
      case (Inl e)
      have "add_pairing env vw' cm' tg = Inr (with_pairs ?v (tg_arrays tg) None tg)"
        "add_pairing env vw' cm' tg3 = Inr (with_pairs ?v (tg_arrays tg) None tg3)"
        using Inr Inl assms(2)
        by (simp_all add: add_pairing_def handle_net_bat_pairing_add_event_def with_pairs_def tg3)
      then show ?thesis using first prof by simp
    next
      case ps: (Inr ps)
      let ?ar = "tg_arrays tg @ [ps]" and ?n = "Some (length (tg_arrays tg))"
      have "add_pairing env vw' cm' tg = Inr (with_pairs ?v ?ar ?n tg)"
        "add_pairing env vw' cm' tg3 = Inr (create_net_bat_tgen_clients (with_pairs ?v ?ar ?n tg3))"
        using Inr ps assms(1)
        by (simp_all add: add_pairing_def handle_net_bat_pairing_add_event_def with_pairs_def tg3)
      then show ?thesis using first prof by simp
    qed
  qed
qed

subsection \<open>Clients that are left behind\<close>

lemma readded_profile_keeps_clients:
  assumes t0: "tgc_typed n_clients n_servers env tg"
    and env: "te_modules env = udp_modules ul" "view_ok vw" "view_ok vw'"
    and a: "tg_net_bat_pairs tg = Some a" "tg_tasks tg = []"
    and run: "delete_profile env vw tg = Inr tg1" "add_profile env vw' cm tg1 = Inr tg2"
      "tg_tasks tg2 \<noteq> []"
  shows "tgc_typed n_clients n_servers env tg2"
    and "same_clients (tg_world tg) (tg_world tg2)"
    and "tg_arrays tg2 = tg_arrays tg"
    and "tg_tasks tg2 =
      map (\<lambda>i. \<lparr>tk_array = a, tk_index = i, tk_pc = AtCreate\<rparr>) [0..<length (tg_arrays tg ! a)]"
proof -
  obtain w1 where tg1: "tg1 = tg\<lparr>tg_world := w1, tg_config := None\<rparr>"
    using delete_profile_frame [OF run(1)] by blast
  have s1: "same_clients (tg_world tg) (tg_world tg1)"
    using run(1) udp_servers.stop_servers_along [OF env(1,2) _ t0]
    by (auto simp: delete_profile_def bindS_Inr_iff)
  have t1: "tgc_typed n_clients n_servers env tg1"
    using udp_runtime.stop_servers_typed(1) [OF env(1,2) _ t0] run(1)
    by (auto simp: delete_profile_def bindS_Inr_iff)
  have s2: "same_clients (tg_world tg1) (tg_world tg2)"
    by (rule udp_servers.add_profile_along [OF env(1) run(2)])
  show "tgc_typed n_clients n_servers env tg2"
    by (rule udp_runtime.add_profile_typed [OF env(1,3) t1 run(2)])
  show "same_clients (tg_world tg) (tg_world tg2)" using s1 s2 by (simp add: same_clients_def)
  show "tg_arrays tg2 = tg_arrays tg" and "tg_tasks tg2 =
      map (\<lambda>i. \<lparr>tk_array = a, tk_index = i, tk_pc = AtCreate\<rparr>) [0..<length (tg_arrays tg ! a)]"
    using add_profile_frame [OF run(2)] run(3) a tg1
    by (auto simp: create_net_bat_tgen_clients_def)
qed

text \<open>
  C26: Deleting the profile config map and adding it again leaves clients behind: the
  deletion stops no client, and the addition makes a new client for every pair, whose
  reference replaces the old one.  The old stream, running if it ran, is no longer known to
  the controller; it is left as it was, but for its table of pending packets: the pair's
  table is replaced by an empty one under its hands.
\<close>
theorem readded_profile_orphans_client:
  assumes reach: "tgc_reachable env udp_activity (udp_initial_world reg) tg"
    and env: "te_modules env = udp_modules ul" "choice_ok (te_pairing env)" "view_ok vw" "view_ok vw'"
    and pairs: "tg_net_bat_pairs tg = Some a" "i < length (tg_arrays tg ! a)" "tg_tasks tg = []"
    and old: "bp_client_connection (tg_arrays tg ! a ! i) = Some n"
    and run: "delete_profile env vw tg = Inr tg1" "add_profile env vw' cm tg1 = Inr tg2"
      "tg_tasks tg2 \<noteq> []" "task_step env i tg2 = Inr tg3"
  shows "\<exists>n'. bp_client_connection (tg_arrays tg3 ! a ! i) = Some n' \<and> n' \<noteq> n \<and>
    uw_clients (tg_world tg3) ! n = set_pending (\<lambda>_. Map.empty) (uw_clients (tg_world tg) ! n)"
proof -
  note t0 = udp_runtime.reachable_typed [OF reach env(1,2)]
  note keep = readded_profile_keeps_clients [OF t0 env(1,3,4) pairs(1,3) run(1-3)]
  note t2 = keep(1) and fr = keep(3,4)
  let ?t = "\<lparr>tk_array = a, tk_index = i, tk_pc = AtCreate\<rparr>"
  have ti: "tg_tasks tg2 ! i = ?t" "i < length (tg_tasks tg2)" using fr(2) pairs(2) by simp_all
  then obtain tg4 t4 where c: "task_create env ?t tg2 = Inr (tg4, t4)"
    and tg3: "tg_arrays tg3 = tg_arrays tg4" "tg_world tg3 = tg_world tg4"
    using run(4) by (auto simp: task_step_def bindS_Inr_iff)
  have typed: "task_typed (tg_arrays tg2) ?t"
    using t2 ti by (simp add: tgc_typed_def list_all_length) (metis ti)
  have p: "pair_typed (te_proto_clients env) (n_clients (tg_world tg)) (tg_arrays tg ! a ! i)"
    using tgc_typed_pairs [OF t0] pairs(1,2) by (simp add: pairs_of_def)
  have cl: "uw_clients (tg_world tg2) = uw_clients (tg_world tg)"
    "uw_pair_at (tg_world tg2) = uw_pair_at (tg_world tg)"
    using keep(2) by (simp_all add: same_clients_def)
  have lt: "n < n_clients (tg_world tg)" using p old by (simp add: pair_typed_def)
  have reg: "bp_traffic_profile (tg_arrays tg2 ! tk_array ?t ! tk_index ?t) \<in> set (te_proto_clients env)"
    using p old fr(1) by (simp add: pair_typed_def)
  have len: "a < length (tg_arrays tg)" using t0 pairs(1) by (simp add: tgc_typed_def)
  have at: "uw_pair_at (tg_world tg) n = (a, i)"
    using reachable_addressed [OF reach env(1,2)] len pairs(2) old by (simp add: addressed_def)
  note cu = task_create_udp [OF env(1) typed reg c]
  have "bp_client_connection (tg_arrays tg3 ! a ! i) = Some (n_clients (tg_world tg))"
    using cu(5) [of a i] len pairs(2) cl fr(1) tg3 by simp
  moreover have "uw_clients (tg_world tg3) ! n = set_pending (\<lambda>_. Map.empty) (uw_clients (tg_world tg) ! n)"
    using cu(1) cl at lt tg3
    by (auto simp: nth_append udp_clear_pending_def set_pending_def)
  ultimately show ?thesis using lt by blast
qed

end
