(* ===== verification/TgenLife.thy ===== *)
theory TgenLife
  imports TgenApp TgcProps
begin

section \<open>The life of the process\<close>

text \<open>
  From the running controller to the end of \<open>main\<close>: the goroutine that runs the informer
  (\<open>StartTGC\<close>), the goroutine that waits for a signal, and \<open>main\<close>, which then closes the
  informer's stop channel, waits up to three seconds for it to end, looking every 600
  milliseconds, and tears everything down (\<open>StopTGC\<close>).  The informer delivers events while it
  runs, and it returns only after its stop channel was closed; what it delivers and when is
  free.  When \<open>main\<close> returns the process ends, so nothing moves any more.

  Times are nanoseconds of a clock that never goes back; a sleep ends at its time or later.
\<close>

subsection \<open>State\<close>

text \<open>The informer's goroutine: before its first statement, in \<open>Run\<close>, after it, and gone.\<close>

datatype informer_pc = InfStarting | InfRunning | InfReturned | InfDone

text \<open>
  \<open>main\<close>: waiting for \<open>done\<close>; at the head of the wait loop, or asleep in it, with the loop's
  end; at the teardown, or finished, and whether the loop saw the informer stopped.
\<close>

datatype main_pc =
    MainWaiting
  | MainPolling int
  | MainSleeping int int
  | MainTearDown bool
  | MainDone bool

record 'w pod_life =
  lf_tgc :: "'w tgc"
  lf_informer :: informer_pc
  lf_is_running :: bool
  lf_stopper_closed :: bool
  lf_sigs :: bool \<comment> \<open>a signal waits in the channel, which holds one\<close>
  lf_forwarding :: bool \<comment> \<open>the goroutine that waits for a signal is there\<close>
  lf_done :: bool
  lf_main :: main_pc
  lf_now :: int
  lf_polls :: nat \<comment> \<open>how often the wait loop has looked\<close>

definition start_tgc :: "'w tgc \<Rightarrow> int \<Rightarrow> 'w pod_life" where
  "start_tgc tg now =
     \<lparr>lf_tgc = tg, lf_informer = InfStarting, lf_is_running = False, lf_stopper_closed = False,
      lf_sigs = False, lf_forwarding = True, lf_done = False, lf_main = MainWaiting, lf_now = now,
      lf_polls = 0\<rparr>"

definition stop_timeout :: int where "stop_timeout = 3000000000"
definition stop_poll_interval :: int where "stop_poll_interval = 600000000"

subsection \<open>Steps\<close>

text \<open>\<open>close(tg.stopper)\<close> and the end of the wait.\<close>

definition begin_stop :: "'w pod_life \<Rightarrow> 'w pod_life go" where
  "begin_stop s =
     (if lf_stopper_closed s then Inl CloseOfClosed
      else Inr (s\<lparr>lf_stopper_closed := True, lf_main := MainPolling (lf_now s + stop_timeout)\<rparr>))"

text \<open>The body of the loop up to the sleep, for the loop's end \<open>e\<close>.\<close>

definition poll_informer :: "int \<Rightarrow> 'w pod_life \<Rightarrow> 'w pod_life" where
  "poll_informer e s =
     (if \<not> lf_now s < e then s\<lparr>lf_main := MainTearDown False\<rparr>
      else if \<not> lf_is_running s then s\<lparr>lf_main := MainTearDown True, lf_polls := Suc (lf_polls s)\<rparr>
      else s\<lparr>lf_main := MainSleeping e (lf_now s + stop_poll_interval), lf_polls := Suc (lf_polls s)\<rparr>)"

inductive life_step ::
  "'w tgc_env \<Rightarrow> ('w \<Rightarrow> 'w \<Rightarrow> bool) \<Rightarrow> 'w pod_life \<Rightarrow> 'w pod_life go \<Rightarrow> bool"
  for env :: "'w tgc_env" and act :: "'w \<Rightarrow> 'w \<Rightarrow> bool" where
  informer_start: "lf_informer s = InfStarting \<Longrightarrow>
    life_step env act s (Inr (s\<lparr>lf_informer := InfRunning, lf_is_running := True\<rparr>))"
| informer_event: "lf_informer s = InfRunning \<Longrightarrow> ev \<noteq> StopEvent \<Longrightarrow> view_ok vw \<Longrightarrow>
    life_step env act s (bindS (handle_event env vw ev (lf_tgc s)) (\<lambda>tg. Inr (s\<lparr>lf_tgc := tg\<rparr>)))"
| informer_return: "lf_informer s = InfRunning \<Longrightarrow> lf_stopper_closed s \<Longrightarrow>
    life_step env act s (Inr (s\<lparr>lf_informer := InfReturned\<rparr>))"
| informer_done: "lf_informer s = InfReturned \<Longrightarrow>
    life_step env act s (Inr (s\<lparr>lf_informer := InfDone, lf_is_running := False\<rparr>))"
| client_task: "k < length (tg_tasks (lf_tgc s)) \<Longrightarrow>
    life_step env act s (bindS (task_step env k (lf_tgc s)) (\<lambda>tg. Inr (s\<lparr>lf_tgc := tg\<rparr>)))"
| activity: "act (tg_world (lf_tgc s)) w \<Longrightarrow>
    life_step env act s (Inr (s\<lparr>lf_tgc := (lf_tgc s)\<lparr>tg_world := w\<rparr>\<rparr>))"
| signal: "life_step env act s (Inr (s\<lparr>lf_sigs := True\<rparr>))"
| forward: "lf_sigs s \<Longrightarrow> lf_forwarding s \<Longrightarrow>
    life_step env act s (Inr (s\<lparr>lf_sigs := False, lf_forwarding := False, lf_done := True\<rparr>))"
| tick: "0 \<le> d \<Longrightarrow> life_step env act s (Inr (s\<lparr>lf_now := lf_now s + d\<rparr>))"
| stop: "lf_main s = MainWaiting \<Longrightarrow> lf_done s \<Longrightarrow> life_step env act s (begin_stop s)"
| poll: "lf_main s = MainPolling e \<Longrightarrow> life_step env act s (Inr (poll_informer e s))"
| wake: "lf_main s = MainSleeping e u \<Longrightarrow> u \<le> lf_now s \<Longrightarrow>
    life_step env act s (Inr (s\<lparr>lf_main := MainPolling e\<rparr>))"
| tear_down: "lf_main s = MainTearDown b \<Longrightarrow> view_ok vw \<Longrightarrow>
    life_step env act s (bindS (stop_tgc env vw (lf_tgc s))
      (\<lambda>tg. Inr (s\<lparr>lf_tgc := tg, lf_main := MainDone b\<rparr>)))"

text \<open>A run of the process; it ends when \<open>main\<close> returns.\<close>

inductive life_run ::
  "'w tgc_env \<Rightarrow> ('w \<Rightarrow> 'w \<Rightarrow> bool) \<Rightarrow> 'w pod_life \<Rightarrow> 'w pod_life \<Rightarrow> bool"
  for env :: "'w tgc_env" and act :: "'w \<Rightarrow> 'w \<Rightarrow> bool" and s0 :: "'w pod_life" where
  here: "life_run env act s0 s0"
| more: "life_run env act s0 s \<Longrightarrow> \<forall>b. lf_main s \<noteq> MainDone b \<Longrightarrow>
    life_step env act s (Inr s') \<Longrightarrow> life_run env act s0 s'"

lemma life_run_trans:
  assumes "life_run env act s1 s" and "life_run env act s0 s1"
  shows "life_run env act s0 s"
  using assms(1) by (induction rule: life_run.induct) (auto intro: assms(2) life_run.more)

subsection \<open>Invariants\<close>

text \<open>The wait's clock: each look at the informer after the first comes a sleep later.\<close>

definition life_inv :: "'w pod_life \<Rightarrow> bool" where
  "life_inv s \<longleftrightarrow>
     (lf_is_running s \<longleftrightarrow> lf_informer s \<in> {InfRunning, InfReturned}) \<and>
     (lf_informer s \<in> {InfReturned, InfDone} \<longrightarrow> lf_stopper_closed s) \<and>
     lf_polls s \<le> 5 \<and>
     (case lf_main s of
        MainWaiting \<Rightarrow> \<not> lf_stopper_closed s \<and> lf_polls s = 0
      | MainPolling e \<Rightarrow> e - stop_timeout + stop_poll_interval * int (lf_polls s) \<le> lf_now s
      | MainSleeping e u \<Rightarrow> e - stop_timeout + stop_poll_interval * int (lf_polls s) \<le> u \<and>
          u < e + stop_poll_interval
      | MainTearDown b \<Rightarrow> True
      | MainDone b \<Rightarrow> True)"

lemma bindS_step: "Inr y = bindS r (\<lambda>x. Inr (f x)) \<longleftrightarrow> (\<exists>x. r = Inr x \<and> y = f x)"
  by (cases r) auto

lemma life_inv_update [simp]:
  "life_inv (s\<lparr>lf_tgc := tg\<rparr>) = life_inv s" "life_inv (s\<lparr>lf_sigs := b\<rparr>) = life_inv s"
  "life_inv (s\<lparr>lf_forwarding := b\<rparr>) = life_inv s" "life_inv (s\<lparr>lf_done := b\<rparr>) = life_inv s"
  by (simp_all add: life_inv_def cong: main_pc.case_cong)

lemma life_inv_tick: "life_inv s \<Longrightarrow> 0 \<le> d \<Longrightarrow> life_inv (s\<lparr>lf_now := lf_now s + d\<rparr>)"
  by (cases "lf_main s") (auto simp: life_inv_def)

lemma life_inv_step:
  assumes "life_step env act s (Inr s')" and "life_inv s"
  shows "life_inv s'"
  using assms(1)
proof cases
  case (informer_event ev vw)
  then show ?thesis using assms(2) by (auto simp: bindS_step)
next
  case (client_task k)
  then show ?thesis using assms(2) by (auto simp: bindS_step)
next
  case (tear_down b vw)
  then obtain tg where "s' = s\<lparr>lf_tgc := tg, lf_main := MainDone b\<rparr>" by (auto simp: bindS_step)
  then show ?thesis using assms(2) by (simp add: life_inv_def)
next
  case stop
  then have "lf_main s = MainWaiting" "\<not> lf_stopper_closed s"
    using assms(2) by (simp_all add: life_inv_def)
  then show ?thesis
    using stop assms(2) by (simp add: life_inv_def begin_stop_def stop_timeout_def)
next
  case informer_return
  then show ?thesis using assms(2) by (cases "lf_main s") (auto simp: life_inv_def)
next
  case informer_done
  then show ?thesis using assms(2) by (cases "lf_main s") (auto simp: life_inv_def)
next
  case informer_start
  then show ?thesis using assms(2) by (cases "lf_main s") (auto simp: life_inv_def)
next
  case (wake e u)
  then show ?thesis using assms(2) by (simp add: life_inv_def)
next
  case (tick d)
  then show ?thesis using assms(2) life_inv_tick by simp
next
  case (poll e)
  then have inv: "lf_main s = MainPolling e" "s' = poll_informer e s" by simp_all
  show ?thesis
  proof (cases "lf_now s < e \<and> lf_is_running s")
    case True
    then have "stop_poll_interval * int (lf_polls s) < stop_timeout"
      using assms(2) inv by (simp add: life_inv_def)
    then have "lf_polls s \<le> 4" by (simp add: stop_poll_interval_def stop_timeout_def)
    then show ?thesis
      using True assms(2) inv
      by (simp add: life_inv_def poll_informer_def algebra_simps stop_poll_interval_def)
  next
    case False
    show ?thesis
    proof (cases "lf_now s < e")
      case True
      then have "stop_poll_interval * int (lf_polls s) < stop_timeout"
        using assms(2) inv by (simp add: life_inv_def)
      then have "lf_polls s \<le> 4" by (simp add: stop_poll_interval_def stop_timeout_def)
      then show ?thesis using True False assms(2) inv by (simp add: life_inv_def poll_informer_def)
    next
      case False
      then show ?thesis using assms(2) inv by (simp add: life_inv_def poll_informer_def)
    qed
  qed
qed (use assms(2) in simp_all)

lemma life_inv_run:
  assumes "life_run env act (start_tgc tg now) s"
  shows "life_inv s"
  using assms
proof (induction rule: life_run.induct)
  case here
  show ?case by (simp add: life_inv_def start_tgc_def)
next
  case (more s s')
  then show ?case using life_inv_step by blast
qed

text \<open>The controller in the process is a run of the controller.\<close>

lemma life_step_tgc:
  assumes "life_step env act s (Inr s')" and "tgc_reachable env act w0 (lf_tgc s)"
  shows "tgc_reachable env act w0 (lf_tgc s')"
  using assms(1)
proof cases
  case (informer_event ev vw)
  then obtain tg where "handle_event env vw ev (lf_tgc s) = Inr tg" "lf_tgc s' = tg"
    by (auto simp: bindS_step)
  then show ?thesis
    using tgc_reachable.step [OF assms(2)] tgc_step.event [OF informer_event(4), of env act "lf_tgc s" ev]
    by simp
next
  case (client_task k)
  then obtain tg where "task_step env k (lf_tgc s) = Inr tg" "lf_tgc s' = tg"
    by (auto simp: bindS_step)
  then show ?thesis
    using tgc_reachable.step [OF assms(2)] tgc_step.client_task [OF client_task(2), of env act] by simp
next
  case (activity w)
  then show ?thesis
    using tgc_reachable.step [OF assms(2)] tgc_step.activity [of act "lf_tgc s" w env] by simp
next
  case (tear_down b vw)
  then obtain tg where "stop_tgc env vw (lf_tgc s) = Inr tg" "lf_tgc s' = tg"
    by (auto simp: bindS_step)
  then show ?thesis
    using tgc_reachable.step [OF assms(2)] tgc_step.event [OF tear_down(3), of env act "lf_tgc s" StopEvent]
    by (simp add: handle_event_def)
qed (use assms(2) in \<open>auto simp: begin_stop_def poll_informer_def split: if_splits\<close>)

lemma life_run_tgc:
  assumes "life_run env act s0 s" and "tgc_reachable env act w0 (lf_tgc s0)"
  shows "tgc_reachable env act w0 (lf_tgc s)"
  using assms by (induction rule: life_run.induct) (auto intro: life_step_tgc)

subsection \<open>The wait\<close>


text \<open>When the informer had begun before the stop, seeing it stopped means that it has ended.\<close>

lemma quiet_run:
  assumes "life_run env act s0 s" and "life_inv s0" and "lf_main s0 = MainWaiting"
    and "lf_informer s0 \<noteq> InfStarting"
  shows "life_inv s \<and> lf_informer s \<noteq> InfStarting \<and>
    (lf_main s \<in> {MainTearDown True, MainDone True} \<longrightarrow> lf_informer s = InfDone)"
  using assms(1)
proof (induction rule: life_run.induct)
  case here
  then show ?case using assms(2-4) by simp
next
  case (more s s')
  have inv: "life_inv s'" using life_inv_step [OF more.hyps(3)] more.IH by blast
  from more.hyps(3) show ?case
  proof cases
    case (poll e)
    then show ?thesis
      using inv more.IH by (cases "lf_informer s") (auto simp: poll_informer_def life_inv_def)
  qed (use inv more.IH in \<open>auto simp: bindS_step begin_stop_def split: if_splits\<close>)
qed

text \<open>The run that ended goes through the teardown.\<close>

lemma run_tears_down:
  assumes "life_run env act s0 s" and "lf_main s0 = MainWaiting" and "lf_main s = MainDone b"
  shows "\<exists>s1 vw. life_run env act s0 s1 \<and> lf_main s1 = MainTearDown b \<and> view_ok vw \<and>
    stop_tgc env vw (lf_tgc s1) = Inr (lf_tgc s)"
  using assms(1,3)
proof (cases rule: life_run.cases)
  case here
  then show ?thesis using assms(2,3) by simp
next
  case (more s1)
  from more(3) show ?thesis
  proof cases
    case (tear_down b' vw)
    then obtain tg where "stop_tgc env vw (lf_tgc s1) = Inr tg" "s = s1\<lparr>lf_tgc := tg, lf_main := MainDone b'\<rparr>"
      by (auto simp: bindS_step)
    moreover from this have "b' = b" using assms(3) by simp
    ultimately show ?thesis using more(1) tear_down(2,3) by auto
  qed (use more(2) assms(3) in \<open>auto simp: bindS_step begin_stop_def poll_informer_def split: if_splits\<close>)
qed

subsection \<open>What the end leaves\<close>

text \<open>A server that was told to stop, or that never listened.\<close>

definition server_down :: "'r udp_world \<Rightarrow> nat \<Rightarrow> bool" where
  "server_down w n \<longleftrightarrow>
     sv_stop (sy_server (uw_servers w ! n)) \<or> sv_connection (sy_server (uw_servers w ! n)) = None"

lemma servers_torn_down:
  assumes "foldS (md_teardown_server (udp_modules ul)) rs w = Inr w'"
    and "list_all (\<lambda>n. n < n_servers w) rs"
  shows "n_servers w' = n_servers w \<and> (\<forall>n < n_servers w.
    server_down w n \<or> n \<in> set rs \<longrightarrow> server_down w' n)"
  using assms
proof (induction rs arbitrary: w)
  case Nil
  then show ?case by simp
next
  case (Cons r rs)
  then obtain w1 where w1: "md_teardown_server (udp_modules ul) r w = Inr w1"
    "foldS (md_teardown_server (udp_modules ul)) rs w1 = Inr w'"
    by (auto simp: bindS_Inr_iff)
  have r: "r < n_servers w" using Cons.prems(2) by simp
  have "n_servers w1 = n_servers w" "server_down w n \<or> n = r \<Longrightarrow> server_down w1 n" for n
    using w1(1) r
    by (cases "n = r"; auto simp: udp_modules_def udp_teardown_server_def Let_def teardown_server_begin_def
        server_down_def split: if_splits)+
  moreover from this have "list_all (\<lambda>n. n < n_servers w1) rs" using Cons.prems(2) by simp
  note Cons.IH [OF w1(2) this]
  ultimately show ?case by auto
qed

lemma server_maps_torn_down:
  assumes "foldS (\<lambda>(_, rs). foldS (md_teardown_server (udp_modules ul)) rs) sm w = Inr w'"
    and "list_all (\<lambda>(_, rs). list_all (\<lambda>n. n < n_servers w) rs) sm"
  shows "n_servers w' = n_servers w \<and> (\<forall>n < n_servers w.
    server_down w n \<or> (\<exists>(_, rs) \<in> set sm. n \<in> set rs) \<longrightarrow>
      server_down w' n)"
  using assms
proof (induction sm arbitrary: w)
  case Nil
  then show ?case by simp
next
  case (Cons e sm)
  obtain k rs where e: "e = (k, rs)" by fastforce
  with Cons.prems obtain w1 where w1: "foldS (md_teardown_server (udp_modules ul)) rs w = Inr w1"
    "foldS (\<lambda>(_, rs). foldS (md_teardown_server (udp_modules ul)) rs) sm w1 = Inr w'"
    by (auto simp: bindS_Inr_iff)
  have t: "n_servers w1 = n_servers w \<and> (\<forall>n < n_servers w.
      server_down w n \<or> n \<in> set rs \<longrightarrow> server_down w1 n)"
    by (rule servers_torn_down [OF w1(1)]) (use Cons.prems(2) e in simp)
  have "list_all (\<lambda>(_, rs). list_all (\<lambda>n. n < n_servers w1) rs) sm" using Cons.prems(2) t by simp
  from Cons.IH [OF w1(2) this] show ?case using t e by auto
qed

text \<open>What \<open>StopTGC\<close> leaves after its wait, in every state of the controller.\<close>

lemma stop_tgc_tears_down:
  assumes "tgc_reachable env udp_activity (udp_initial_world reg) tg"
    and "te_modules env = udp_modules ul" and "choice_ok (te_pairing env)" and "view_ok vw"
    and "stop_tgc env vw tg = Inr tg'"
  shows "tg_net_bat_pairs tg' = None"
    and "\<forall>p \<in> set (pairs_of tg). \<exists>n. bp_client_connection p = Some n \<and>
      phase_of (uw_clients (tg_world tg') ! n) \<in> {PhUnconnected, PhStopped}"
    and "\<forall>(k, rs) \<in> set (tg_servers_map tg). \<forall>n \<in> set rs. server_down (tg_world tg') n"
proof -
  obtain tg1 where d: "delete_net_bat_tgen_clients env tg = Inr tg1"
    and ss: "stop_servers env vw tg1 = Inr tg'"
    using assms(5) by (auto simp: stop_tgc_def bindS_Inr_iff)
  have same: "tg\<lparr>tg_net_pair_resource_version := tg_net_pair_resource_version tg\<rparr> = tg" by simp
  note gone = deleted_clients_stopped [OF assms(1-3), of "tg_net_pair_resource_version tg" tg1,
      unfolded same, OF d]
  note t1 = udp_runtime.reachable_typed [OF assms(1-3)]
  note t2 = udp_runtime.delete_clients_typed [OF t1 assms(2) d]
  have "same_clients (tg_world tg1) (tg_world tg')"
    by (rule udp_servers.stop_servers_along [OF assms(2,4) ss t2])
  then have clients: "uw_clients (tg_world tg') = uw_clients (tg_world tg1)"
    by (simp add: same_clients_def)
  obtain w where fw: "foldS (\<lambda>(_, rs). foldS (md_teardown_server (udp_modules ul)) rs)
      (vw_servers_order vw (tg_servers_map tg1)) (tg_world tg1) = Inr w"
    and w: "tg' = tg1\<lparr>tg_world := w\<rparr>"
    using ss assms(2) by (auto simp: stop_servers_def bindS_Inr_iff)
  show "tg_net_bat_pairs tg' = None" using gone by (simp add: w)
  show "\<forall>p \<in> set (pairs_of tg). \<exists>n. bp_client_connection p = Some n \<and>
      phase_of (uw_clients (tg_world tg') ! n) \<in> {PhUnconnected, PhStopped}"
  proof
    fix p assume "p \<in> set (pairs_of tg)"
    then obtain n where "bp_client_connection p = Some n" "phase_of (uw_clients (tg_world tg1) ! n) =
        (if phase_of (uw_clients (tg_world tg) ! n) = PhUnconnected then PhUnconnected else PhStopped)"
      using gone by blast
    then show "\<exists>n. bp_client_connection p = Some n \<and>
        phase_of (uw_clients (tg_world tg') ! n) \<in> {PhUnconnected, PhStopped}"
      by (simp add: clients)
  qed
  have sm: "tg_servers_map tg1 = tg_servers_map tg"
    using d teardown_pairs_frame
    by (fastforce simp: delete_net_bat_tgen_clients_def bindS_Inr_iff split: if_splits)
  have "list_all (\<lambda>(_, rs). list_all (\<lambda>n. n < n_servers (tg_world tg1)) rs)
      (vw_servers_order vw (tg_servers_map tg1))"
    using t2 view_ok_sets(3) [OF assms(4)] by (auto simp: tgc_typed_def list_all_iff)
  with fw have "\<forall>n < n_servers (tg_world tg1).
      (\<exists>(_, rs) \<in> set (tg_servers_map tg1). n \<in> set rs) \<longrightarrow> server_down w n"
    using server_maps_torn_down view_ok_sets(3) [OF assms(4)] by metis
  moreover have "n < n_servers (tg_world tg1)" if "(k, rs) \<in> set (tg_servers_map tg1)" "n \<in> set rs" for k rs n
    using t2 that by (auto simp: tgc_typed_def list_all_iff)
  ultimately show "\<forall>(k, rs) \<in> set (tg_servers_map tg). \<forall>n \<in> set rs. server_down (tg_world tg') n"
    unfolding sm [symmetric] by (simp add: w) blast
qed


text \<open>
  The wait looks at a flag that the informer's goroutine sets itself: in every process a
  signal that comes before that goroutine has run makes \<open>main\<close> take the informer for
  stopped, and the informer starts while everything is torn down.
\<close>
theorem early_stop_does_not_wait:
  "\<exists>s. life_run env act (start_tgc tg now) s \<and> lf_main s = MainTearDown True \<and>
    lf_informer s = InfRunning \<and> lf_tgc s = tg"
proof -
  let ?s0 = "start_tgc tg now"
  let ?s1 = "?s0\<lparr>lf_sigs := True\<rparr>"
  let ?s2 = "?s1\<lparr>lf_sigs := False, lf_forwarding := False, lf_done := True\<rparr>"
  let ?s3 = "?s2\<lparr>lf_stopper_closed := True, lf_main := MainPolling (now + stop_timeout)\<rparr>"
  let ?s4 = "?s3\<lparr>lf_main := MainTearDown True, lf_polls := 1\<rparr>"
  let ?s5 = "?s4\<lparr>lf_informer := InfRunning, lf_is_running := True\<rparr>"
  note defs = start_tgc_def begin_stop_def poll_informer_def stop_timeout_def
  have "life_run env act ?s0 ?s1"
    by (rule life_run.more [OF life_run.here _ life_step.signal]) (simp add: start_tgc_def)
  then have "life_run env act ?s0 ?s2"
    by (rule life_run.more [OF _ _ life_step.forward]) (simp_all add: start_tgc_def)
  then have "life_run env act ?s0 ?s3"
    using life_run.more [of env act ?s0 ?s2 ?s3] life_step.stop [of ?s2 env act] by (simp add: defs)
  then have "life_run env act ?s0 ?s4"
    using life_run.more [of env act ?s0 ?s3 ?s4] life_step.poll [of ?s3 "now + stop_timeout" env act]
    by (simp add: defs)
  then have "life_run env act ?s0 ?s5"
    by (rule life_run.more [OF _ _ life_step.informer_start]) (simp_all add: start_tgc_def)
  then show ?thesis by (intro exI [of _ ?s5]) (simp add: start_tgc_def)
qed

end
