(* ===== verification/TgcProgram.thy ===== *)
theory TgcProgram
  imports TgcStreams TgenProps
begin

section \<open>The program as a whole\<close>

text \<open>
  What holds of every stream and every server in every run of the whole program: the
  controller with any config map events, its client goroutines, and the goroutines of all
  streams and servers, interleaved in any way.  A stream is \<open>sole\<close> when its pair has never
  had another client; such a stream is never disturbed.
\<close>

subsection \<open>A pair's only client\<close>

definition sole :: "'r udp_world \<Rightarrow> nat \<Rightarrow> bool" where
  "sole w n \<longleftrightarrow> (\<forall>m < n_clients w. m \<noteq> n \<longrightarrow> uw_pair_at w m \<noteq> uw_pair_at w n)"

definition at_pair :: "nat \<times> nat \<Rightarrow> task \<Rightarrow> bool" where
  "at_pair at t \<longleftrightarrow> tk_pc t = AtSetup \<and> (tk_array t, tk_index t) = at"

definition setups_at :: "nat \<times> nat \<Rightarrow> 'w tgc \<Rightarrow> task list" where
  "setups_at at tg = filter (at_pair at) (tg_tasks tg)"

definition soles_ok :: "'r udp_world tgc \<Rightarrow> bool" where
  "soles_ok tg \<longleftrightarrow> (\<forall>n < n_clients (tg_world tg). sole (tg_world tg) n \<longrightarrow>
     \<not> uw_disturbed (tg_world tg) n \<and>
     length (setups_at (uw_pair_at (tg_world tg) n) tg) \<le> 1 \<and>
     (udp_ready (tg_world tg) n \<longrightarrow> setups_at (uw_pair_at (tg_world tg) n) tg = []))"

text \<open>Every client stands in a pair that has a client.\<close>

definition clients_known :: "'r udp_world tgc \<Rightarrow> bool" where
  "clients_known tg \<longleftrightarrow> (\<forall>n < n_clients (tg_world tg). case uw_pair_at (tg_world tg) n of (a, i) \<Rightarrow>
     a < length (tg_arrays tg) \<and> i < length (tg_arrays tg ! a) \<and>
     bp_client_connection (tg_arrays tg ! a ! i) \<noteq> None)"

lemma setups_at_setups: "setups_at at tg = filter (\<lambda>t. (tk_array t, tk_index t) = at) (setups tg)"
  by (auto simp: setups_at_def setups_def at_pair_def intro: filter_cong)

lemma filter_removed:
  assumes "k < length xs" and "length (filter P xs) \<le> 1 \<or> \<not> P (xs ! k)"
  shows "filter P (take k xs @ drop (Suc k) xs) = (if P (xs ! k) then [] else filter P xs)"
proof -
  have "filter P xs = filter P (take k xs) @ filter P [xs ! k] @ filter P (drop (Suc k) xs)"
    by (subst id_take_nth_drop [OF assms(1)]) simp
  then show ?thesis using assms(2) by (auto split: if_splits)
qed

lemma filter_entered:
  assumes "k < length xs" and "\<not> P (xs ! k)"
  shows "length (filter P (xs[k := u])) = length (filter P xs) + (if P u then 1 else 0)"
    and "\<not> P u \<Longrightarrow> filter P (xs[k := u]) = filter P xs"
proof -
  have "filter P xs = filter P (take k xs) @ filter P (drop (Suc k) xs)"
    by (subst id_take_nth_drop [OF assms(1)]) (simp add: assms(2))
  then show "length (filter P (xs[k := u])) = length (filter P xs) + (if P u then 1 else 0)"
    "\<not> P u \<Longrightarrow> filter P (xs[k := u]) = filter P xs"
    using assms(1) by (simp_all add: upd_conv_take_nth_drop)
qed

subsection \<open>Events change none of this\<close>

definition same_standing :: "'r udp_world \<Rightarrow> 'r udp_world \<Rightarrow> bool" where
  "same_standing w w' \<longleftrightarrow> n_clients w' = n_clients w \<and> uw_pair_at w' = uw_pair_at w \<and>
     uw_disturbed w' = uw_disturbed w \<and> (\<forall>n < n_clients w. udp_ready w' n \<longleftrightarrow> udp_ready w n)"

interpretation udp_events: event_simulation "udp_modules ul" "started_work ul" n_clients n_servers
    udp_ready same_standing for ul :: "'r udp_libs"
proof unfold_locales
  fix k a b c d f sz r and w w' :: "'r udp_world"
  assume m: "md_create_server (udp_modules ul) k a b c d f sz w = Inr (w', r)"
  then obtain r0 reg where "create_server (ul_codec ul) (ul_prom ul)
      (ul_server_net ul) (uw_server_config w) a b c d sz (uw_registry w) = Inr (r0, reg)"
    by (auto simp: udp_modules_def udp_create_server_def bindS_Inr_iff)
  with m show "same_standing w w'"
    by (cases r0) (auto simp: udp_modules_def udp_create_server_def same_standing_def)
next
  fix n and w w' :: "'r udp_world"
  assume n: "n < n_clients w" and t: "md_teardown_client (udp_modules ul) n w = Inr w'"
  then obtain sr where sr: "teardown_begin (ul_prom ul) (uw_clients w ! n, uw_registry w) = Inr sr"
    and w': "w' = put_stream n (teardown_finish (ul_prom ul) sr) w"
    by (auto simp: udp_modules_def udp_teardown_client_def bindS_Inr_iff)
  have "phase_of (fst sr) \<noteq> PhCreated \<and> phase_of (uw_clients w ! n) \<noteq> PhCreated"
    using teardown_phase(2) [OF sr]
    by (cases "phase_of (uw_clients w ! n)") (auto simp: phase_teardown_def)
  then show "same_standing w w'"
    using n w' by (auto simp: same_standing_def phase_created_iff nth_list_update)
qed (auto simp: udp_modules_def udp_load_server_def udp_load_client_def udp_teardown_server_def
    same_standing_def Let_def split: prod.splits)

lemma soles_ok_keep:
  assumes "soles_ok tg" and "n_clients (tg_world tg') = n_clients (tg_world tg)"
    and "uw_pair_at (tg_world tg') = uw_pair_at (tg_world tg)"
    and "\<And>n. n < n_clients (tg_world tg) \<Longrightarrow> udp_ready (tg_world tg') n \<longleftrightarrow> udp_ready (tg_world tg) n"
    and "\<And>at. setups_at at tg' = setups_at at tg"
    and "\<And>n. n < n_clients (tg_world tg) \<Longrightarrow> sole (tg_world tg) n \<Longrightarrow>
      uw_disturbed (tg_world tg') n \<Longrightarrow> uw_disturbed (tg_world tg) n"
  shows "soles_ok tg'"
proof -
  have "sole (tg_world tg') n = sole (tg_world tg) n" for n using assms(2,3) by (simp add: sole_def)
  then show ?thesis using assms unfolding soles_ok_def by metis
qed

lemma clients_known_keep:
  assumes "clients_known tg" and "arrays_grow tg tg'"
    and "n_clients (tg_world tg') = n_clients (tg_world tg)"
    and "uw_pair_at (tg_world tg') = uw_pair_at (tg_world tg)"
  shows "clients_known tg'"
  using assms unfolding clients_known_def arrays_grow_def
  by (fastforce simp: nth_append split: prod.splits)

subsection \<open>The steps of the goroutines and of the clients' creation\<close>

lemma put_shared_sole:
  assumes "n < n_clients w" and "m \<noteq> n" and "sole w m"
  shows "uw_disturbed (put_shared n sr w) m = uw_disturbed w m"
  using assms by (auto simp: put_shared_def Let_def sole_def)

lemma work_keeps_soles:
  assumes "udp_work ul w w'" and "m < n_clients w" and "sole w m" and "uw_disturbed w' m"
  shows "uw_disturbed w m"
  using assms(1)
proof cases
  case (client n k sy)
  then show ?thesis
    using assms(3,4) put_shared_sole [OF client(2) _ assms(3)] by (cases "m = n") simp_all
next
  case (server n sy)
  then show ?thesis using assms(4) by simp
qed

lemma activity_keeps_ready:
  assumes "udp_activity w w'" and "n < n_clients w"
  shows "udp_ready w' n \<longleftrightarrow> udp_ready w n"
proof -
  have "stream_activity (uw_clients w ! n) (uw_clients w' ! n)"
    using assms by (simp add: udp_activity_def list_all2_conv_all_nth)
  then show ?thesis using stream_activity_phase by (metis phase_created_iff)
qed

lemma at_create_setups:
  assumes "k < length (tg_tasks tg)" and "tk_pc (tg_tasks tg ! k) = AtCreate"
    and "tg_tasks tg' = take k (tg_tasks tg) @ drop (Suc k) (tg_tasks tg)"
  shows "setups_at at tg' = setups_at at tg"
proof -
  have np: "\<not> at_pair at (tg_tasks tg ! k)" using assms(2) by (simp add: at_pair_def)
  then show ?thesis using filter_removed [OF assms(1), of "at_pair at"] assms(3) by (simp add: setups_at_def)
qed

text \<open>The pair of a new client had no goroutine about to set up a client, if it had no client.\<close>

lemma no_client_no_setup:
  assumes "tgc_typed n_clients n_servers env tg" and "addressed tg"
    and "\<And>m. m < n_clients (tg_world tg) \<Longrightarrow> uw_pair_at (tg_world tg) m \<noteq> at"
  shows "setups_at at tg = []"
proof -
  have "\<not> at_pair at t" if "t \<in> set (tg_tasks tg)" for t
  proof
    assume p: "at_pair at t"
    have t: "task_typed (tg_arrays tg) t" using assms(1) that by (simp add: tgc_typed_def list_all_iff)
    then obtain n where n: "bp_client_connection (tg_arrays tg ! tk_array t ! tk_index t) = Some n"
      using p by (auto simp: at_pair_def task_typed_def)
    have lt: "tk_array t < length (tg_arrays tg)" "tk_index t < length (tg_arrays tg ! tk_array t)"
      using t by (simp_all add: task_typed_def)
    then have "pair_typed (te_proto_clients env) (n_clients (tg_world tg))
        (tg_arrays tg ! tk_array t ! tk_index t)"
      using assms(1) by (auto simp: tgc_typed_def list_all_length)
    then have "n < n_clients (tg_world tg)" using n by (simp add: pair_typed_def)
    moreover have "uw_pair_at (tg_world tg) n = at"
      using assms(2) lt n p by (simp add: addressed_def at_pair_def)
    ultimately show False using assms(3) by blast
  qed
  then show ?thesis by (simp add: setups_at_def filter_empty_conv)
qed


lemma task_setup_soles:
  assumes env: "te_modules env = udp_modules ul" and ty: "tgc_typed n_clients n_servers env tg"
    and ad: "addressed tg" and ok: "soles_ok tg" and k: "k < length (tg_tasks tg)"
    and pc: "tk_pc (tg_tasks tg ! k) = AtSetup" and st: "task_step env k tg = Inr tg'"
  shows "soles_ok tg' \<and> tg_arrays tg' = tg_arrays tg \<and>
    n_clients (tg_world tg') = n_clients (tg_world tg) \<and> uw_pair_at (tg_world tg') = uw_pair_at (tg_world tg)"
proof -
  let ?t = "tg_tasks tg ! k" and ?w = "tg_world tg" and ?w' = "tg_world tg'"
  let ?at = "(tk_array ?t, tk_index ?t)"
  obtain n where n: "bp_client_connection (tg_arrays tg ! tk_array ?t ! tk_index ?t) = Some n"
    using ty k pc by (auto simp: tgc_typed_def list_all_length task_typed_def)
  obtain w1 e where s: "udp_setup_client ul n ?w = Inr (w1, e)"
    using st pc n env by (auto simp: task_step_def task_setup_def bindS_Inr_iff udp_modules_def)
  have tg': "tg' = tg\<lparr>tg_world := (if e = None then udp_start_client n w1 else w1),
      tg_tasks := take k (tg_tasks tg) @ drop (Suc k) (tg_tasks tg)\<rparr>"
    using st pc n s env
    by (cases e) (simp_all add: task_step_def task_setup_def udp_modules_def)
  have lt: "tk_array ?t < length (tg_arrays tg)" "tk_index ?t < length (tg_arrays tg ! tk_array ?t)"
    using ty k by (simp_all add: tgc_typed_def list_all_length task_typed_def)
  then have "pair_typed (te_proto_clients env) (n_clients ?w) (tg_arrays tg ! tk_array ?t ! tk_index ?t)"
    using ty by (auto simp: tgc_typed_def list_all_length)
  then have nlt: "n < n_clients ?w" using n by (simp add: pair_typed_def)
  have at: "uw_pair_at ?w n = ?at" using ad lt n by (simp add: addressed_def)
  obtain s1 reg where su: "setup_connection (ul_prom ul) (ul_client_net ul)
      (uw_client_config ?w) (uw_clients ?w ! n, uw_registry ?w) = ((s1, reg), e)"
    and w1: "w1 = (put_shared n (s1, reg) ?w)\<lparr>uw_disturbed := (\<lambda>m.
      uw_disturbed (put_shared n (s1, reg) ?w) m \<or> (m = n \<and> udp_ready ?w n))\<rparr>"
    using s by (auto simp: udp_setup_client_def split: prod.splits)
  have same: "n_clients ?w' = n_clients ?w" "uw_pair_at ?w' = uw_pair_at ?w"
    using tg' w1 by (simp_all add: udp_start_client_def)
  have other: "uw_disturbed ?w' m = uw_disturbed ?w m \<and> udp_ready ?w' m = udp_ready ?w m \<and>
      setups_at (uw_pair_at ?w m) tg' = setups_at (uw_pair_at ?w m) tg"
    if m: "m < n_clients ?w" "sole ?w m" "m \<noteq> n" for m
  proof -
    have ne: "uw_pair_at ?w m \<noteq> ?at" using m nlt at by (auto simp: sole_def)
    then have "\<not> at_pair (uw_pair_at ?w m) ?t" by (auto simp: at_pair_def)
    then have "setups_at (uw_pair_at ?w m) tg' = setups_at (uw_pair_at ?w m) tg"
      using filter_removed [OF k, of "at_pair (uw_pair_at ?w m)"] tg' by (simp add: setups_at_def)
    moreover have "udp_ready ?w' m = udp_ready ?w m"
      using put_shared_life [OF m(1,3), of "(s1, reg)"] tg' w1
      by (simp add: same_life_def udp_start_client_def)
    ultimately show ?thesis
      using put_shared_sole [OF nlt m(3,2)] m(3) tg' w1 by (simp add: udp_start_client_def)
  qed
  have this_one: "\<not> uw_disturbed ?w' n \<and> setups_at ?at tg' = []" if "sole ?w n"
  proof -
    have p: "at_pair ?at ?t" using pc by (simp add: at_pair_def)
    have "length (setups_at ?at tg) \<le> 1" "setups_at ?at tg = [] \<or> \<not> udp_ready ?w n"
      "\<not> uw_disturbed ?w n"
      using ok that nlt at by (auto simp: soles_ok_def)
    moreover have "setups_at ?at tg \<noteq> []"
      using k p by (auto simp: setups_at_def filter_empty_conv)
    ultimately show ?thesis
      using filter_removed [OF k, of "at_pair ?at"] p tg' w1
      by (simp add: setups_at_def udp_start_client_def)
  qed
  have "sole ?w' m = sole ?w m" for m using same by (simp add: sole_def)
  then have "soles_ok tg'"
    using ok other this_one same at unfolding soles_ok_def by (metis list.size(3) zero_le)
  then show ?thesis using same tg' by simp
qed

lemma task_create_soles:
  assumes env: "te_modules env = udp_modules ul" and ty: "tgc_typed n_clients n_servers env tg"
    and ad: "addressed tg" and ok: "soles_ok tg" and kn: "clients_known tg"
    and k: "k < length (tg_tasks tg)" and pc: "tk_pc (tg_tasks tg ! k) = AtCreate"
    and st: "task_step env k tg = Inr tg'"
  shows "soles_ok tg' \<and> clients_known tg'"
proof -
  let ?t = "tg_tasks tg ! k" and ?w = "tg_world tg" and ?w' = "tg_world tg'"
  let ?a = "tk_array ?t" and ?i = "tk_index ?t" and ?n = "n_clients (tg_world tg)"
  have tt: "task_typed (tg_arrays tg) ?t" using ty k by (simp add: tgc_typed_def list_all_length)
  then have ai: "?a < length (tg_arrays tg)" "?i < length (tg_arrays tg ! ?a)"
    by (simp_all add: task_typed_def)
  obtain tg1 t1 where c: "task_create env ?t tg = Inr (tg1, t1)"
    and tg': "tg' = tg1\<lparr>tg_tasks := (case t1 of None \<Rightarrow> take k (tg_tasks tg) @ drop (Suc k) (tg_tasks tg)
      | Some u \<Rightarrow> (tg_tasks tg)[k := u])\<rparr>"
    using st pc by (auto simp: task_step_def Let_def bindS_Inr_iff)
  show ?thesis
  proof (cases "bp_traffic_profile (tg_arrays tg ! ?a ! ?i) \<in> set (te_proto_clients env)")
    case False
    then have r: "tg1 = clear_pending env (?a, ?i) tg" "t1 = None"
      using c set_pair_nth(2) [OF ai ai] by (auto simp: task_create_def clear_pending_def Let_def)
    have w': "?w' = udp_clear_pending (?a, ?i) ?w" using r tg' env by (simp add: clear_pending_def udp_modules_def)
    have arr: "length (tg_arrays tg') = length (tg_arrays tg)"
      "length (tg_arrays tg' ! b) = length (tg_arrays tg ! b)"
      "b < length (tg_arrays tg) \<Longrightarrow> j < length (tg_arrays tg ! b) \<Longrightarrow>
        bp_client_connection (tg_arrays tg' ! b ! j) = bp_client_connection (tg_arrays tg ! b ! j)" for b j
      using r tg' set_pair_nth [OF ai] by (simp_all add: clear_pending_def)
    have "uw_pair_at ?w m \<noteq> (?a, ?i)" if m: "m < ?n" for m
    proof
      assume "uw_pair_at ?w m = (?a, ?i)"
      then have "bp_client_connection (tg_arrays tg ! ?a ! ?i) \<noteq> None"
        using kn m by (auto simp: clients_known_def)
      moreover have "pair_typed (te_proto_clients env) ?n (tg_arrays tg ! ?a ! ?i)"
        using ty ai by (auto simp: tgc_typed_def list_all_length)
      ultimately show False using False by (auto simp: pair_typed_def)
    qed
    then have "soles_ok tg'"
      by (intro soles_ok_keep [OF ok] at_create_setups [OF k pc])
        (auto simp: tg' r env clear_pending_def udp_modules_def udp_clear_pending_def)
    moreover have "clients_known tg'"
      using kn arr by (auto simp: clients_known_def w' udp_clear_pending_def split: prod.splits)
    ultimately show ?thesis by simp
  next
    case True
    note cu = task_create_udp [OF env tt True c]
    obtain s where s: "st_traffic_not_started s = None"
      "uw_clients ?w' = uw_clients (udp_clear_pending (?a, ?i) ?w) @ [s]"
      using cu(1) tg' by auto
    have len: "n_clients ?w' = Suc ?n" using s(2) by (simp add: udp_clear_pending_def)
    have at: "uw_pair_at ?w' = (uw_pair_at ?w)(?n := (?a, ?i))" using cu(2) tg' by simp
    have tasks: "tg_tasks tg' = (tg_tasks tg)[k := ?t\<lparr>tk_pc := AtSetup\<rparr>]" using cu(7) tg' by simp
    have np: "\<not> at_pair b ?t" for b using pc by (simp add: at_pair_def)
    have "soles_ok tg'"
      unfolding soles_ok_def len
    proof (intro allI impI)
      fix m assume m: "m < Suc ?n" and sole: "sole ?w' m"
      show "\<not> uw_disturbed ?w' m \<and> length (setups_at (uw_pair_at ?w' m) tg') \<le> 1 \<and>
          (udp_ready ?w' m \<longrightarrow> setups_at (uw_pair_at ?w' m) tg' = [])"
      proof (cases "m = ?n")
        case True
        then have "uw_pair_at ?w m' \<noteq> (?a, ?i)" if "m' < ?n" for m'
          using sole that len at by (fastforce simp: sole_def)
        then have "setups_at (?a, ?i) tg = []" by (rule no_client_no_setup [OF ty ad])
        then have "length (setups_at (?a, ?i) tg') \<le> 1"
          using filter_entered(1) [OF k, of "at_pair (?a, ?i)" "?t\<lparr>tk_pc := AtSetup\<rparr>"] np tasks
          by (simp add: setups_at_def)
        moreover have "\<not> udp_ready ?w' m"
          using s True by (simp add: nth_append udp_clear_pending_def)
        ultimately show ?thesis using True at cu(6) tg' by simp
      next
        case False
        then have lt: "m < ?n" using m by simp
        then have ne: "uw_pair_at ?w m \<noteq> (?a, ?i)"
          using sole len at by (force simp: sole_def)
        have "sole ?w m"
          unfolding sole_def
        proof (intro allI impI)
          fix j assume "j < ?n" "j \<noteq> m"
          then show "uw_pair_at ?w j \<noteq> uw_pair_at ?w m"
            using sole len at lt by (auto simp: sole_def dest: spec [of _ j])
        qed
        moreover have "setups_at (uw_pair_at ?w m) tg' = setups_at (uw_pair_at ?w m) tg"
          using filter_entered(2) [OF k, of "at_pair (uw_pair_at ?w m)" "?t\<lparr>tk_pc := AtSetup\<rparr>"] np ne tasks
          by (auto simp: setups_at_def at_pair_def)
        moreover have "uw_clients ?w' ! m = uw_clients ?w ! m"
          using s(2) lt ne by (simp add: nth_append udp_clear_pending_def)
        ultimately show ?thesis
          using ok lt ne False at cu(6) tg' by (simp add: soles_ok_def)
      qed
    qed
    moreover have "clients_known tg'"
      unfolding clients_known_def len
    proof (intro allI impI)
      fix m assume m: "m < Suc ?n"
      obtain b j where bj: "uw_pair_at ?w' m = (b, j)" by fastforce
      then have "b < length (tg_arrays tg) \<and> j < length (tg_arrays tg ! b) \<and>
          (m \<noteq> ?n \<longrightarrow> bp_client_connection (tg_arrays tg ! b ! j) \<noteq> None) \<and> (m = ?n \<longrightarrow> (b, j) = (?a, ?i))"
        using m ai kn [unfolded clients_known_def, rule_format, of m] at
        by (cases "m = ?n") auto
      then show "case uw_pair_at ?w' m of (a, i) \<Rightarrow> a < length (tg_arrays tg') \<and>
          i < length (tg_arrays tg' ! a) \<and> bp_client_connection (tg_arrays tg' ! a ! i) \<noteq> None"
        using bj cu(3,4,5) tg' by auto
    qed
    ultimately show ?thesis by simp
  qed
qed


lemma reachable_soles:
  assumes "tgc_reachable env (started_work ul) (udp_initial_world reg) tg"
    and env: "te_modules env = udp_modules ul" "choice_ok (te_pairing env)"
  shows "soles_ok tg \<and> clients_known tg"
  using assms(1)
proof (induction rule: tgc_reachable.induct)
  case start
  show ?case by (simp add: soles_ok_def clients_known_def new_pod_tg_controller_def udp_initial_world_def)
next
  case (step tg tg')
  note ty = udp_goroutine_runtime.reachable_typed [OF step.hyps(1) env]
  note ad = reachable_addressed [OF program_activity [OF step.hyps(1)] env]
  note ok = step.IH [THEN conjunct1] and kn = step.IH [THEN conjunct2]
  from step.hyps(2) show ?case
  proof (cases rule: tgc_step.cases)
    case (event vw ev)
    then have h: "handle_event env vw ev tg = Inr tg'" by simp
    have w: "same_standing (tg_world tg) (tg_world tg')"
      by (rule udp_events.handle_event_along [OF env(1) event(2) ty h])
    then have "soles_ok tg'"
      by (intro soles_ok_keep [OF ok])
        (simp_all add: same_standing_def setups_at_setups handle_event_setups [OF h])
    moreover have "clients_known tg'"
      by (rule clients_known_keep [OF kn handle_event_grows [OF h env(2)]])
        (use w in \<open>simp_all add: same_standing_def\<close>)
    ultimately show ?thesis by simp
  next
    case (client_task k)
    then have st: "task_step env k tg = Inr tg'" and k: "k < length (tg_tasks tg)" by simp_all
    show ?thesis
    proof (cases "tk_pc (tg_tasks tg ! k)")
      case AtCreate
      then show ?thesis by (intro task_create_soles [OF env(1) ty ad ok kn k _ st])
    next
      case AtSetup
      note s = task_setup_soles [OF env(1) ty ad ok k AtSetup st]
      then show ?thesis using kn by (simp add: clients_known_def)
    qed
  next
    case (activity w)
    then have tg': "tg' = tg\<lparr>tg_world := w\<rparr>" and s: "started_work ul (tg_world tg) w" by simp_all
    note a = started_work_activity [OF s]
    then have same: "n_clients w = n_clients (tg_world tg)" "uw_pair_at w = uw_pair_at (tg_world tg)"
      by (auto simp: udp_activity_def dest: list_all2_lengthD)
    have "soles_ok tg'"
      by (rule soles_ok_keep [OF ok])
        (use s a same work_keeps_soles activity_keeps_ready [OF a] in
          \<open>auto simp: tg' setups_at_def started_work_def\<close>)
    moreover have "clients_known tg'"
      by (rule clients_known_keep [OF kn]) (simp_all add: tg' same arrays_grow_same)
    ultimately show ?thesis by simp
  qed
qed

subsection \<open>Every part behaves as it does alone\<close>


lemma program_stream_alone:
  assumes "tgc_reachable env (udp_work ul) (udp_initial_world reg) tg"
    and "te_modules env = udp_modules ul" and "choice_ok (te_pairing env)"
    and "n < n_clients (tg_world tg)" "g \<in> set (uw_procs (tg_world tg) n)" "sole (tg_world tg) n"
  shows "client_reachable (ul_codec ul) (ul_prom ul) (stream_sys (tg_world tg) n g)"
proof -
  note p = program_goroutines_ok [OF assms(1-3)]
  have "\<not> uw_disturbed (tg_world tg) n"
    using reachable_soles [OF conjunct1 [OF p] assms(2,3)] assms(4,6) by (simp add: soles_ok_def)
  then have "stream_life ul (tg_world tg) n"
    using p assms(4) by (simp add: goroutines_ok_def streams_ok_def)
  then show ?thesis using assms(5) by (auto simp: stream_life_def)
qed


text \<open>
  C6: In every run of the whole program every packet of a stream that is the only client
  its pair has had is accounted for: each sequence number used is a packet sent, one that
  failed or the one in the sender's hands, each packet sent is received, dropped or
  pending, none twice; and on every server the active-streams gauge is the number of
  clients on record.
\<close>
theorem program_accounts_for_all_packets:
  assumes "tgc_reachable env (udp_work ul) (udp_initial_world reg) tg"
    and "te_modules env = udp_modules ul" and "choice_ok (te_pairing env)"
    and "add_panics_on_negative (ul_prom ul)"
  shows "(\<forall>n < n_clients (tg_world tg). \<forall>g \<in> set (uw_procs (tg_world tg) n). sole (tg_world tg) n \<longrightarrow>
      (let s = uw_clients (tg_world tg) ! n; settled = st_packet_received_val s
          + st_packet_dropped_val s + int (card (dom (pending s)))
       in st_packet_sent_val s + st_packet_send_failed_val s + in_flight (sd_pc (gr_sender g))
            = sint (st_packet_sequence s) \<and>
          st_packet_sent_val s \<le> settled \<and> settled \<le> sint (st_packet_sequence s))) \<and>
    (\<forall>sy \<in> set (uw_servers (tg_world tg)). mt_total (sv_active_client_streams (sy_server sy)) =
      int (length (sv_active_clients (sy_server sy))))"
proof -
  note p = program_goroutines_ok [OF assms(1-3)]
  have "mt_total (sv_active_client_streams (sy_server sy)) = int (length (sv_active_clients (sy_server sy)))"
    if sy: "sy \<in> set (uw_servers (tg_world tg))" for sy
  proof -
    obtain s0 where "clients_wf s0" "sv_wait s0 = 2" "server_reachable (ul_codec ul) (ul_prom ul) s0 sy"
      using p sy by (auto simp: goroutines_ok_def list_all_iff server_ok_def)
    from server_reachable_inv [OF this(3) assms(4) this(1,2)] show ?thesis
      by (simp add: server_inv_def clients_wf_def)
  qed
  moreover have "st_packet_sent_val s + st_packet_send_failed_val s + in_flight (sd_pc (gr_sender g))
        = sint (st_packet_sequence s) \<and> st_packet_sent_val s \<le> accounted s \<and>
      accounted s \<le> sint (st_packet_sequence s)"
    if "n < n_clients (tg_world tg)" "g \<in> set (uw_procs (tg_world tg) n)" "sole (tg_world tg) n"
      "s = uw_clients (tg_world tg) ! n" for n g s
    using client_inv_accounts [OF client_reachable_inv [OF program_stream_alone [OF assms(1-3) that(1-3)] assms(4)]]
      that(4) by (simp add: stream_sys_def)
  ultimately show ?thesis by (simp add: Let_def accounted_def)
qed

end
