(* ===== verification/TgcWitnesses.thy ===== *)
theory TgcWitnesses
  imports TgcProps TgcProgram Samples
begin

section \<open>A controller for the witnesses\<close>

text \<open>
  A pod with the sample pairing configuration of \<open>PairingProps\<close> and the libraries of
  \<open>Samples\<close> and \<open>TgenSamples\<close>: the states after the profile, the pairing, and each step of
  the one client goroutine, and the witnesses of the controller's properties on them.
\<close>

subsection \<open>Its states\<close>

definition sample_libs :: "desc list udp_libs" where
  "sample_libs =
     \<lparr>ul_codec = bit_codec, ul_prom = list_prom, ul_client_net = sample_net,
      ul_server_net = \<lparr>sn_lookup = (\<lambda>host port. Inr host), sn_listen = Inr, sn_set_read_buffer = (\<lambda>_. None)\<rparr>\<rparr>"

definition sample_yaml :: "string \<Rightarrow> profile result" where
  "sample_yaml s =
     (if s = ''{'' then Inl (GoError ''yaml'')
      else if s = ''suspend'' then Inr [''common'' \<mapsto> [''suspend-traffic'' \<mapsto> ''true'']]
      else Inr Map.empty)"

definition sample_env :: "string list \<Rightarrow> desc list udp_world tgc_env" where
  "sample_env protos =
     \<lparr>te_modules = udp_modules sample_libs, te_proto_servers = [''udp''], te_proto_clients = protos,
      te_yaml = sample_yaml, te_pairing = sample_pairing_env, te_pod_name = ''a'',
      te_node_name = ''n'', te_namespace = ''ns'', te_read_buffer_size = 1000\<rparr>"

definition sample_view :: "if_map \<Rightarrow> view" where
  "sample_view addrs =
     \<lparr>vw_interfaces = Inr (Inr []), vw_addrs = Inr (Inr addrs), vw_order = id, vw_addr_order = id,
      vw_servers_order = id\<rparr>"

definition sample_profile_cm :: "string \<Rightarrow> string \<Rightarrow> config_map" where
  "sample_profile_cm v s =
     \<lparr>cm_name = net_bat_profile, cm_data = [''net-bat-profiles.cfg'' \<mapsto> s], cm_resource_version = v\<rparr>"

definition sample_pairing_cm :: "string \<Rightarrow> config_map" where
  "sample_pairing_cm v =
     \<lparr>cm_name = net_bat_pairing, cm_data = [''net-bat-pairing.cfg'' \<mapsto> sample_pairing_text],
      cm_resource_version = v\<rparr>"

abbreviation tgc0 :: "desc list udp_world tgc" where
  "tgc0 \<equiv> new_pod_tg_controller (udp_initial_world [])"

definition sample_config :: util_config where
  "sample_config = \<lparr>cfg_resource_version = ''1'', cfg_suspend_traffic = False,
    cfg_profile_map = Some Map.empty\<rparr>"

definition tgc1 :: "desc list udp_world tgc" where
  "tgc1 = tgc0\<lparr>tg_config := Some sample_config, tg_servers_map := [(''udp'', [])]\<rparr>"

definition tgc2 :: "desc list udp_world tgc" where
  "tgc2 = tgc1\<lparr>tg_net_pair_resource_version := ''7'', tg_net_bat_pairs := Some 0,
     tg_arrays := [[sample_result ''z'']],
     tg_tasks := [\<lparr>tk_array = 0, tk_index = 0, tk_pc = AtCreate\<rparr>]\<rparr>"

text \<open>The libraries are what the controller's properties assume.\<close>

lemma sample_env_simps [simp]:
  "te_modules (sample_env ps) = udp_modules sample_libs" "te_proto_servers (sample_env ps) = [''udp'']"
  "te_proto_clients (sample_env ps) = ps" "te_yaml (sample_env ps) = sample_yaml"
  "te_pairing (sample_env ps) = sample_pairing_env" "te_pod_name (sample_env ps) = ''a''"
  "te_node_name (sample_env ps) = ''n''" "te_namespace (sample_env ps) = ''ns''"
  "te_read_buffer_size (sample_env ps) = 1000"
  by (simp_all add: sample_env_def)

lemma sample_view_simps [simp]:
  "vw_interfaces (sample_view m) = Inr (Inr [])" "vw_addrs (sample_view m) = Inr (Inr m)"
  "vw_order (sample_view m) = id" "vw_addr_order (sample_view m) = id"
  "vw_servers_order (sample_view m) = id" "view_ok (sample_view m)"
  by (simp_all add: sample_view_def view_ok_def)

lemma tgen_load_empty [simp]: "tgen_load_profile (Some Map.empty) c = (c, None)"
  by (simp add: tgen_load_profile_def load_suspend_def)

lemma tapp_load_empty [simp]: "tapp_load_profile (Some Map.empty) c = (c, None)"
  by (simp add: tapp_load_profile_def)

lemma sample_load:
  "load_config sample_yaml (sample_profile_cm ''1'' []) = Inr sample_config"
  by (simp add: load_config_def reload_config_def sample_yaml_def sample_profile_cm_def
      load_suspend_def sample_config_def)

lemma sample_accepted:
  "start_servers (sample_env ps) (Some Map.empty) [] [''udp''] (tg\<lparr>tg_config := Some c\<rparr>) =
     Inr (tg\<lparr>tg_config := Some c, tg_servers_map := AList.update ''udp'' [] (tg_servers_map tg)\<rparr>, True)"
  "load_modules (md_load_client (udp_modules sample_libs)) (Some Map.empty) ps tg = (tg, None)"
proof -
  show "start_servers (sample_env ps) (Some Map.empty) [] [''udp''] (tg\<lparr>tg_config := Some c\<rparr>) =
     Inr (tg\<lparr>tg_config := Some c, tg_servers_map := AList.update ''udp'' [] (tg_servers_map tg)\<rparr>, True)"
    by (simp add: udp_modules_def udp_load_server_def)
  have "seq_steps (map (\<lambda>protocol. udp_load_client protocol (Some Map.empty)) ps) w = (w, None)"
    for w :: "desc list udp_world"
    by (induction ps) (simp_all add: udp_load_client_def)
  then show "load_modules (md_load_client (udp_modules sample_libs)) (Some Map.empty) ps tg = (tg, None)"
    by (simp add: load_modules_def udp_modules_def)
qed

lemma tgc1_step:
  "add_profile (sample_env ps) (sample_view []) (sample_profile_cm ''1'' []) tgc0 = Inr tgc1"
  using sample_accepted(1) [where ps = ps and tg = tgc0 and c = sample_config]
    sample_accepted(2) [where ps = ps]
  by (simp add: add_profile_def sample_load sample_config_def tgc1_def new_pod_tg_controller_def)

lemma sample_handled:
  "handle_add_net_bat_config_map sample_pairing_env (Inr (Inr [])) (Inr (Inr [(''eth0'', ''10.0.0.1'')]))
     (sample_pairing_cm v) ''ns'' ''a'' = Inr (Inr [sample_result ''z''])"
proof -
  have "\<lparr>pc_namespace = ''ns'', pc_pod_name = ''a'', pc_net_ifs = net_if_names [],
      pc_addrs = map_of [(''eth0'', ''10.0.0.1'')]\<rparr> = sample_ctx"
    by (simp add: sample_ctx_def net_if_names_def)
  then show ?thesis
    by (simp add: handle_add_net_bat_config_map_def pairing_text_def sample_pairing_cm_def
        get_available_net_bat_pairings_def sample_pairings)
qed

lemma tgc2_step:
  "add_pairing (sample_env ps) (sample_view [(''eth0'', ''10.0.0.1'')]) (sample_pairing_cm ''7'') tgc1 =
     Inr tgc2"
  using sample_handled [of "''7''"]
  by (simp add: add_pairing_def handle_net_bat_pairing_add_event_def tgc1_def tgc2_def
      new_pod_tg_controller_def create_net_bat_tgen_clients_def sample_pairing_cm_def)

abbreviation sample_profile_event :: tgc_event where
  "sample_profile_event \<equiv> AddEvent (KubeConfigMap (sample_profile_cm ''1'' []))"

abbreviation sample_pairing_event :: tgc_event where
  "sample_pairing_event \<equiv> AddEvent (KubeConfigMap (sample_pairing_cm ''7''))"

lemma sample_events:
  "handle_event (sample_env ps) (sample_view []) sample_profile_event tgc0 = Inr tgc1"
  "handle_event (sample_env ps) (sample_view [(''eth0'', ''10.0.0.1'')]) sample_pairing_event tgc1 = Inr tgc2"
  using tgc1_step tgc2_step
  by (simp_all add: handle_event_def add_func_def as_config_map_def sample_profile_cm_def
      sample_pairing_cm_def net_bat_profile_def net_bat_pairing_def)

lemma tgc2_reachable:
  "tgc_reachable (sample_env ps) act (udp_initial_world []) tgc2"
proof -
  have 1: "tgc_reachable (sample_env ps) act (udp_initial_world []) tgc1"
    using sample_events(1) [of ps] tgc_reachable.step [OF tgc_reachable.start]
      tgc_step.event [of "sample_view []" "sample_env ps" act tgc0 sample_profile_event] by simp
  show ?thesis
    using sample_events(2) [of ps] tgc_reachable.step [OF 1]
      tgc_step.event [of "sample_view [(''eth0'', ''10.0.0.1'')]" "sample_env ps" act tgc1 sample_pairing_event]
    by simp
qed

text \<open>The goroutine creates its client, then sets it up, whatever the setup returns.\<close>

definition tgc3 :: "desc list udp_world tgc" where
  "tgc3 = (case task_step (sample_env [''udp'']) 0 tgc2 of Inr tg \<Rightarrow> tg)"

definition tgc4 :: "desc list udp_world tgc" where
  "tgc4 = (case task_step (sample_env [''udp'']) 0 tgc3 of Inr tg \<Rightarrow> tg)"

lemma sample_result_simps [simp]:
  "bp_traffic_profile (sample_result d) = ''udp''" "bp_client_connection (sample_result d) = None"
  by (simp_all add: sample_result_def remote_pair_def)

lemma sample_result_ip: "src_ip (bp_source (sample_result d)) = ''10.0.0.1''"
  "rem_name (bp_destination (sample_result d)) = d"
  by (simp_all add: sample_result_def remote_pair_def sample_src_def)

lemma sample_create:
  "\<exists>s. st_pair s = shared_destination at w p \<and> \<not> st_stop s \<and> st_traffic_not_started s = None \<and>
     udp_create_client sample_libs k at p 1000 w =
       Inr (w\<lparr>uw_clients := uw_clients w @ [s], uw_pair_at := (uw_pair_at w)(n_clients w := at),
              uw_procs := (uw_procs w)(n_clients w := []),
              uw_disturbed := (uw_disturbed w)(n_clients w := False)\<rparr>, Inr (n_clients w))"
proof -
  obtain s where n: "new_stream bit_codec (shared_destination at w p) 1000 = Inr s"
    using header_length_fixed [OF bit_codec_fixed_length] by (simp add: new_stream_def)
  moreover from n have "st_pair s = shared_destination at w p \<and> \<not> st_stop s \<and> st_traffic_not_started s = None"
    by (auto simp: new_stream_def split: sum.splits go_error.splits)
  ultimately show ?thesis
    by (auto simp: udp_create_client_def create_client_def sample_libs_def Let_def)
qed

lemma tgc3_step:
  "task_step (sample_env [''udp'']) 0 tgc2 = Inr tgc3"
  "tg_tasks tgc3 = [\<lparr>tk_array = 0, tk_index = 0, tk_pc = AtSetup\<rparr>]"
  "tg_arrays tgc3 = [[(sample_result ''z'')\<lparr>bp_pending := Map.empty, bp_client_connection := Some 0\<rparr>]]"
  "tg_net_bat_pairs tgc3 = Some 0" "tg_servers_map tgc3 = [(''udp'', [])]"
  "\<exists>s. uw_clients (tg_world tgc3) = [s] \<and> src_ip (bp_source (st_pair s)) = ''10.0.0.1'' \<and>
     rem_name (bp_destination (st_pair s)) = ''z'' \<and> \<not> st_stop s \<and> st_traffic_not_started s = None"
  "uw_registry (tg_world tgc3) = []" "uw_procs (tg_world tgc3) 0 = []"
  "\<not> uw_disturbed (tg_world tgc3) 0"
proof -
  let ?p = "(sample_result ''z'')\<lparr>bp_pending := Map.empty\<rparr>"
  let ?w = "udp_clear_pending (0, 0) (udp_initial_world [])"
  obtain s w where s: "udp_create_client sample_libs ''udp'' (0, 0) ?p 1000 ?w = Inr (w, Inr 0)"
    and pair: "st_pair s = ?p" "\<not> st_stop s" "st_traffic_not_started s = None"
    and w: "w = ?w\<lparr>uw_clients := [s], uw_pair_at := (uw_pair_at ?w)(0 := (0, 0)),
        uw_procs := (uw_procs ?w)(0 := []), uw_disturbed := (uw_disturbed ?w)(0 := False)\<rparr>"
    using sample_create [where k = "''udp''" and at = "(0, 0)" and p = ?p and w = ?w]
    by (auto simp: udp_initial_world_def udp_clear_pending_def shared_destination_def write_pairs_def)
  have "task_step (sample_env [''udp'']) 0 tgc2 = Inr (tgc2\<lparr>tg_world := w,
      tg_arrays := [[?p\<lparr>bp_client_connection := Some 0\<rparr>]],
      tg_tasks := [\<lparr>tk_array = 0, tk_index = 0, tk_pc = AtSetup\<rparr>]\<rparr>)"
    using s
    by (simp add: task_step_def task_create_def clear_pending_def tgc2_def tgc1_def
        new_pod_tg_controller_def set_pair_def udp_modules_def)
  then show "task_step (sample_env [''udp'']) 0 tgc2 = Inr tgc3"
    "tg_tasks tgc3 = [\<lparr>tk_array = 0, tk_index = 0, tk_pc = AtSetup\<rparr>]"
    "tg_arrays tgc3 = [[(sample_result ''z'')\<lparr>bp_pending := Map.empty, bp_client_connection := Some 0\<rparr>]]"
    "tg_net_bat_pairs tgc3 = Some 0" "tg_servers_map tgc3 = [(''udp'', [])]"
    "\<exists>s. uw_clients (tg_world tgc3) = [s] \<and> src_ip (bp_source (st_pair s)) = ''10.0.0.1'' \<and>
       rem_name (bp_destination (st_pair s)) = ''z'' \<and> \<not> st_stop s \<and> st_traffic_not_started s = None"
    "uw_registry (tg_world tgc3) = []" "uw_procs (tg_world tgc3) 0 = []"
    "\<not> uw_disturbed (tg_world tgc3) 0"
    using pair w
    by (simp_all add: tgc3_def tgc2_def tgc1_def sample_result_ip udp_initial_world_def
        udp_clear_pending_def write_pairs_def)
qed

text \<open>On the sample network the setup of the pair's stream connects it.\<close>

lemma sample_setup_connects:
  assumes "src_ip (bp_source (st_pair s)) = ''10.0.0.1''"
    and "rem_name (bp_destination (st_pair s)) = ''z''" and "\<not> st_stop s"
    and "setup_connection list_prom sample_net conf (s, []) = ((s', reg), e)"
  shows "phase_of s' = PhConnected \<and> e = None"
proof -
  let ?m = "new_counter prom_namespace (bp_traffic_profile (st_pair s)) ''traffic_not_started''
      ''traffic not started'' (stream_labels conf (st_pair s))"
  let ?s1 = "s\<lparr>st_metric_labels := stream_labels conf (st_pair s), st_traffic_not_started := Some ?m\<rparr>"
  have r: "prom_register list_prom [] ?m = Inr [desc_of ?m]"
    "names [desc_of ?m] \<subseteq> {''traffic_not_started''}"
    using list_prom_register [of ?m "[]"] by (simp_all add: new_counter_def names_def)
  obtain s2 where c: "connect_stream sample_net conf ?s1 = (s2, None)" "st_connection s2 \<noteq> None"
    by (rule sample_connect [of ?s1 conf]) (use assms(1,2) in simp_all)
  obtain sr where "register_stream_metrics list_prom
      (s2\<lparr>st_metric_labels := clear_server_labels (st_metric_labels s2)\<rparr>, [desc_of ?m]) = (sr, None)"
    by (rule register_stream_metrics_list
        [of "(s2\<lparr>st_metric_labels := clear_server_labels (st_metric_labels s2)\<rparr>, [desc_of ?m])"])
      (use r(2) in simp)
  then have m: "register_stream_metrics list_prom
      (s2\<lparr>st_metric_labels := clear_server_labels (st_metric_labels s2)\<rparr>, [desc_of ?m]) = ((fst sr, snd sr), None)"
    by simp
  have "s' = fst sr \<and> e = None"
    using assms(4) r c m by (auto simp: setup_connection_def Let_def split: option.splits)
  then show ?thesis
    using register_stream_metrics_life [OF m] c(2) setup_fields [OF assms(4)] assms(3)
    by (simp add: same_life_def phase_of_def)
qed

lemma tgc4_step:
  "task_step (sample_env [''udp'']) 0 tgc3 = Inr tgc4" "tg_tasks tgc4 = []"
  "tg_arrays tgc4 = tg_arrays tgc3" "tg_net_bat_pairs tgc4 = Some 0"
  "tg_servers_map tgc4 = [(''udp'', [])]"
  "phase_of (uw_clients (tg_world tgc4) ! 0) = PhConnected"
  "n_clients (tg_world tgc4) = 1" "uw_procs (tg_world tgc4) 0 = [new_goroutines]"
  "\<not> uw_disturbed (tg_world tgc4) 0"
proof -
  obtain s where c: "uw_clients (tg_world tgc3) = [s]" "src_ip (bp_source (st_pair s)) = ''10.0.0.1''"
    "rem_name (bp_destination (st_pair s)) = ''z''" "\<not> st_stop s" "st_traffic_not_started s = None"
    using tgc3_step(6) by fastforce
  obtain s' reg e where su: "setup_connection list_prom sample_net
      (uw_client_config (tg_world tgc3)) (s, []) = ((s', reg), e)"
    by (metis prod.collapse)
  note ok = sample_setup_connects [OF c(2-4) su]
  let ?w3 = "tg_world tgc3"
  define w where "w = (put_shared 0 (s', reg) ?w3)\<lparr>uw_disturbed := (\<lambda>m.
      uw_disturbed (put_shared 0 (s', reg) ?w3) m \<or> (m = 0 \<and> st_traffic_not_started (uw_clients ?w3 ! 0) \<noteq> None))\<rparr>"
  have "udp_setup_client sample_libs 0 ?w3 = Inr (w, None)"
    using c(1) su tgc3_step(7) ok by (simp add: udp_setup_client_def sample_libs_def w_def)
  then have step: "task_step (sample_env [''udp'']) 0 tgc3 =
      Inr (tgc3\<lparr>tg_world := udp_start_client 0 w, tg_tasks := []\<rparr>)"
    using tgc3_step by (simp add: task_step_def task_setup_def udp_modules_def)
  then have tgc4: "tgc4 = tgc3\<lparr>tg_world := udp_start_client 0 w, tg_tasks := []\<rparr>"
    by (simp add: tgc4_def)
  show "task_step (sample_env [''udp'']) 0 tgc3 = Inr tgc4" "tg_tasks tgc4 = []"
    "tg_arrays tgc4 = tg_arrays tgc3" "tg_net_bat_pairs tgc4 = Some 0"
    "tg_servers_map tgc4 = [(''udp'', [])]"
    using tgc3_step(4,5) by (simp_all add: tgc4) (simp add: step tgc4)
  have "uw_clients w ! 0 = s'" "n_clients w = 1" "uw_procs w 0 = []" "\<not> uw_disturbed w 0"
    using c tgc3_step(8,9) by (simp_all add: w_def)
  then show "phase_of (uw_clients (tg_world tgc4) ! 0) = PhConnected"
    "n_clients (tg_world tgc4) = 1" "uw_procs (tg_world tgc4) 0 = [new_goroutines]"
    "\<not> uw_disturbed (tg_world tgc4) 0"
    using ok by (simp_all add: tgc4 udp_start_client_def)
qed

lemma tgc4_reachable:
  "tgc_reachable (sample_env [''udp'']) act (udp_initial_world []) tgc3"
  "tgc_reachable (sample_env [''udp'']) act (udp_initial_world []) tgc4"
proof -
  have "tgc_step (sample_env [''udp'']) act tgc2 (Inr tgc3)"
    using tgc_step.client_task [of 0 tgc2 "sample_env [''udp'']" act] tgc3_step(1)
    by (simp add: tgc2_def)
  with tgc2_reachable show 3: "tgc_reachable (sample_env [''udp'']) act (udp_initial_world []) tgc3"
    by (rule tgc_reachable.step)
  have "tgc_step (sample_env [''udp'']) act tgc3 (Inr tgc4)"
    using tgc_step.client_task [of 0 tgc3 "sample_env [''udp'']" act] tgc4_step(1) tgc3_step(2)
    by simp
  with 3 show "tgc_reachable (sample_env [''udp'']) act (udp_initial_world []) tgc4"
    by (rule tgc_reachable.step)
qed

subsection \<open>Witnesses\<close>

theorem controller_state_is_well_typed_witness:
  "tgc_typed n_clients n_servers (sample_env [''udp'']) tgc4"
  by (rule controller_state_is_well_typed [OF tgc4_reachable(2)]) (simp_all add: sample_choice_ok)



theorem unregistered_profile_panics_later_witness:
  "\<exists>e. stop_tgc (sample_env [''http'']) (sample_view []) tgc2 = Inl e"
  using unregistered_profile_panics_later [OF tgc2_reachable, of "[''http'']" sample_libs "sample_result ''z''"]
  by (simp add: sample_choice_ok pairs_of_def tgc2_def)

theorem repairing_first_profile_panics_witness:
  "bindS (handle_event (sample_env [''udp'']) (sample_view [])
      (AddEvent (KubeConfigMap (sample_profile_cm ''1'' ''{''))) tgc0)
    (handle_event (sample_env [''udp'']) (sample_view [])
      (UpdateEvent (KubeConfigMap (sample_profile_cm ''2'' [])))) = Inl NilDereference"
proof (rule repairing_first_profile_panics)
  show "load_config (te_yaml (sample_env [''udp''])) (sample_profile_cm ''1'' ''{'') =
      Inl (GoError (''error parsing the config map data '' @ net_bat_profile))"
    by (simp add: load_config_def reload_config_def sample_yaml_def sample_profile_cm_def)
qed (simp_all add: new_pod_tg_controller_def sample_profile_cm_def)


theorem config_maps_commute_witness:
  "bindS (add_profile (sample_env [''udp'']) (sample_view []) (sample_profile_cm ''1'' []) tgc0)
      (add_pairing (sample_env [''udp'']) (sample_view [(''eth0'', ''10.0.0.1'')]) (sample_pairing_cm ''7'')) =
   bindS (add_pairing (sample_env [''udp'']) (sample_view [(''eth0'', ''10.0.0.1'')])
      (sample_pairing_cm ''7'') tgc0)
    (add_profile (sample_env [''udp'']) (sample_view []) (sample_profile_cm ''1'' []))"
proof (rule config_maps_commute)
  show "profile_accepted (sample_env [''udp'']) (sample_view []) (sample_profile_cm ''1'' []) tgc0"
    using sample_load sample_accepted(1) [where ps = "[''udp'']" and tg = tgc0 and c = sample_config]
      sample_accepted(2) [where ps = "[''udp'']"]
    by (fastforce simp: profile_accepted_def sample_config_def)
qed (simp_all add: new_pod_tg_controller_def)

theorem readded_profile_orphans_client_witness:
  "\<exists>tg1 tg2 tg3 n'. delete_profile (sample_env [''udp'']) (sample_view []) tgc4 = Inr tg1 \<and>
    add_profile (sample_env [''udp'']) (sample_view []) (sample_profile_cm ''1'' []) tg1 = Inr tg2 \<and>
    task_step (sample_env [''udp'']) 0 tg2 = Inr tg3 \<and>
    bp_client_connection (tg_arrays tg3 ! 0 ! 0) = Some n' \<and> n' \<noteq> 0 \<and>
    phase_of (uw_clients (tg_world tg3) ! 0) = PhConnected"
proof -
  let ?e = "sample_env [''udp'']" and ?v = "sample_view []"
  let ?tg1 = "tgc4\<lparr>tg_config := None\<rparr>"
  let ?t = "\<lparr>tk_array = 0, tk_index = 0, tk_pc = AtCreate\<rparr>"
  let ?tg2 = "tgc4\<lparr>tg_config := Some sample_config, tg_tasks := [?t]\<rparr>"
  let ?p = "(sample_result ''z'')\<lparr>bp_client_connection := Some 0, bp_pending := Map.empty\<rparr>"
  have 1: "delete_profile ?e ?v tgc4 = Inr ?tg1"
    using tgc4_step(5) by (simp add: delete_profile_def stop_servers_def)
  have "tgc4\<lparr>tg_config := Some sample_config, tg_servers_map := [(''udp'', [])]\<rparr> =
      tgc4\<lparr>tg_config := Some sample_config\<rparr>"
    using tgc4_step(5) by simp
  then have 2: "add_profile ?e ?v (sample_profile_cm ''1'' []) ?tg1 = Inr ?tg2"
    using sample_accepted(1) [where ps = "[''udp'']" and tg = ?tg1 and c = sample_config]
      sample_accepted(2) [where ps = "[''udp'']"] tgc4_step tgc3_step(3)
    by (simp add: add_profile_def sample_load sample_config_def create_net_bat_tgen_clients_def)
  have "\<exists>tg3. task_step ?e 0 ?tg2 = Inr tg3"
    using tgc4_step(3) tgc3_step(3)
      sample_create [where k = "''udp''" and at = "(0, 0)" and p = ?p
        and w = "udp_clear_pending (0, 0) (tg_world tgc4)"]
    by (auto simp: task_step_def task_create_def clear_pending_def set_pair_def udp_modules_def Let_def)
  then obtain tg3 where 3: "task_step ?e 0 ?tg2 = Inr tg3" by blast
  have "\<exists>n'. bp_client_connection (tg_arrays tg3 ! 0 ! 0) = Some n' \<and> n' \<noteq> 0 \<and>
      uw_clients (tg_world tg3) ! 0 = set_pending (\<lambda>_. Map.empty) (uw_clients (tg_world tgc4) ! 0)"
    by (rule readded_profile_orphans_client [OF tgc4_reachable(2) _ _ _ _ _ _ _ _ 1 2 _ 3])
      (use tgc4_step tgc3_step(3) in \<open>simp_all add: sample_choice_ok\<close>)
  moreover have "phase_of (set_pending f s) = phase_of s" for f s
    by (simp add: phase_of_def set_pending_def)
  ultimately show ?thesis using 1 2 3 tgc4_step(6) by metis
qed

text \<open>The one stream of that controller runs, and is the only client of its pair.\<close>

lemma tgc4_sole: "sole (tg_world tgc4) 0"
  using tgc4_step(7) by (simp add: sole_def)


theorem program_accounts_for_all_packets_witness:
  "st_packet_sent_val (uw_clients (tg_world tgc4) ! 0) + st_packet_send_failed_val (uw_clients (tg_world tgc4) ! 0)
     = sint (st_packet_sequence (uw_clients (tg_world tgc4) ! 0))"
proof -
  have "in_flight (sd_pc (gr_sender new_goroutines)) = 0"
    by (simp add: new_goroutines_def new_sender_def in_flight_def)
  then show ?thesis
    using program_accounts_for_all_packets [OF tgc4_reachable(2), of sample_libs] tgc4_step(7,8) tgc4_sole
    by (simp add: sample_choice_ok sample_libs_def list_prom_add Let_def)
qed

end
