(* ===== verification/LifeWitnesses.thy ===== *)
theory LifeWitnesses
  imports TgenLife TgcWitnesses
begin

section \<open>A process for the witnesses\<close>

text \<open>
  A process that takes the sample profile and pairing of \<open>TgcWitnesses\<close>, sets its one client
  up, and is then stopped by a signal; its informer ends while \<open>main\<close> sleeps in the wait.
\<close>

abbreviation life0 :: "desc list udp_world pod_life" where
  "life0 \<equiv> start_tgc tgc0 0"

definition life_at :: "desc list udp_world tgc \<Rightarrow> desc list udp_world pod_life" where
  "life_at tg = life0\<lparr>lf_informer := InfRunning, lf_is_running := True, lf_tgc := tg\<rparr>"

lemma life_at_simps [simp]:
  "lf_tgc (life_at tg) = tg" "lf_informer (life_at tg) = InfRunning" "lf_is_running (life_at tg)"
  "\<not> lf_stopper_closed (life_at tg)" "lf_main (life_at tg) = MainWaiting" "lf_now (life_at tg) = 0"
  "lf_forwarding (life_at tg)" "lf_polls (life_at tg) = 0"
  "(life_at tg)\<lparr>lf_tgc := tg'\<rparr> = life_at tg'"
  by (simp_all add: life_at_def start_tgc_def)

lemma life_at_more:
  "life_run env act s (life_at tg) \<Longrightarrow> life_step env act (life_at tg) (Inr (life_at tg')) \<Longrightarrow>
     life_run env act s (life_at tg')"
  by (rule life_run.more) simp_all

text \<open>The controller's sample run, in the process.\<close>

lemma sample_life: "life_run (sample_env [''udp'']) act life0 (life_at tgc4)"
proof -
  let ?e = "sample_env [''udp'']"
  have "life_run ?e act life0 (life0\<lparr>lf_informer := InfRunning, lf_is_running := True\<rparr>)"
    by (rule life_run.more [OF life_run.here _ life_step.informer_start]) (simp_all add: start_tgc_def)
  moreover have "life0\<lparr>lf_informer := InfRunning, lf_is_running := True\<rparr> = life_at tgc0"
    by (simp add: life_at_def start_tgc_def)
  ultimately have 0: "life_run ?e act life0 (life_at tgc0)" by simp
  have 1: "life_run ?e act life0 (life_at tgc1)"
    using life_at_more [OF 0, of tgc1] sample_events(1) [of "[''udp'']"]
      life_step.informer_event [of "life_at tgc0" sample_profile_event "sample_view []" ?e act] by simp
  have 2: "life_run ?e act life0 (life_at tgc2)"
    using life_at_more [OF 1, of tgc2] sample_events(2) [of "[''udp'']"]
      life_step.informer_event [of "life_at tgc1" sample_pairing_event
        "sample_view [(''eth0'', ''10.0.0.1'')]" ?e act] by simp
  have 3: "life_run ?e act life0 (life_at tgc3)"
    using life_at_more [OF 2, of tgc3] tgc3_step(1) life_step.client_task [of 0 "life_at tgc2" ?e act]
    by (simp add: tgc2_def)
  show ?thesis
    using life_at_more [OF 3, of tgc4] tgc4_step(1) tgc3_step(2)
      life_step.client_task [of 0 "life_at tgc3" ?e act] by simp
qed

text \<open>A signal; \<open>main\<close> closes the channel, looks once, and sleeps.\<close>

definition sleeping :: "desc list udp_world pod_life" where
  "sleeping = (life_at tgc4)\<lparr>lf_forwarding := False, lf_done := True, lf_stopper_closed := True,
     lf_main := MainSleeping stop_timeout stop_poll_interval, lf_polls := 1\<rparr>"

lemma sample_sleeps: "life_run (sample_env [''udp'']) act (life_at tgc4) sleeping"
proof -
  let ?e = "sample_env [''udp'']" and ?s0 = "life_at tgc4"
  let ?s1 = "?s0\<lparr>lf_sigs := True\<rparr>"
  let ?s2 = "?s1\<lparr>lf_sigs := False, lf_forwarding := False, lf_done := True\<rparr>"
  let ?s3 = "?s2\<lparr>lf_stopper_closed := True, lf_main := MainPolling stop_timeout\<rparr>"
  have "life_run ?e act ?s0 ?s1"
    by (rule life_run.more [OF life_run.here _ life_step.signal]) simp
  then have 2: "life_run ?e act ?s0 ?s2"
    by (rule life_run.more [OF _ _ life_step.forward]) simp_all
  have 3: "life_run ?e act ?s0 ?s3"
    using life_run.more [OF 2, of ?s3] life_step.stop [of ?s2 ?e act] by (simp add: begin_stop_def)
  have "poll_informer stop_timeout ?s3 = sleeping"
    by (simp add: poll_informer_def sleeping_def stop_timeout_def life_at_def start_tgc_def)
  then show ?thesis
    using life_run.more [OF 3, of sleeping] life_step.poll [of ?s3 stop_timeout ?e act] by simp
qed


text \<open>The informer ends, \<open>main\<close> wakes up, sees it, and tears down.\<close>

lemma sample_stop:
  obtains tg where "stop_tgc (sample_env [''udp'']) (sample_view []) tgc4 = Inr tg"
proof -
  let ?v = "tg_net_pair_resource_version tgc4"
  have "\<not> (\<exists>e. delete_net_bat_tgen_clients (sample_env [''udp''])
      (tgc4\<lparr>tg_net_pair_resource_version := ?v\<rparr>) = Inl e)"
    by (subst delete_exact [OF tgc4_reachable(2), where ul = sample_libs])
      (simp_all add: sample_choice_ok pairs_of_def tgc4_step tgc3_step(3))
  moreover have "tgc4\<lparr>tg_net_pair_resource_version := ?v\<rparr> = tgc4" by simp
  ultimately obtain tg1 where d: "delete_net_bat_tgen_clients (sample_env [''udp'']) tgc4 = Inr tg1"
    by (metis sum.exhaust)
  then have "tg_servers_map tg1 = [(''udp'', [])]"
    using tgc4_step(5) teardown_pairs_frame
    by (fastforce simp: delete_net_bat_tgen_clients_def bindS_Inr_iff split: if_splits)
  then show thesis using d that by (simp add: stop_tgc_def stop_servers_def)
qed

definition torn_down :: "desc list udp_world pod_life" where
  "torn_down = sleeping\<lparr>lf_informer := InfDone, lf_is_running := False,
     lf_now := stop_poll_interval, lf_polls := 2, lf_main := MainDone True,
     lf_tgc := (case stop_tgc (sample_env [''udp'']) (sample_view []) tgc4 of Inr tg \<Rightarrow> tg)\<rparr>"

lemma sample_ends: "life_run (sample_env [''udp'']) act sleeping torn_down"
proof -
  let ?e = "sample_env [''udp'']"
  let ?s1 = "sleeping\<lparr>lf_informer := InfReturned\<rparr>"
  let ?s2 = "?s1\<lparr>lf_informer := InfDone, lf_is_running := False\<rparr>"
  let ?s3 = "?s2\<lparr>lf_now := lf_now ?s2 + stop_poll_interval\<rparr>"
  let ?s4 = "?s3\<lparr>lf_main := MainPolling stop_timeout\<rparr>"
  let ?s5 = "?s4\<lparr>lf_main := MainTearDown True, lf_polls := 2\<rparr>"
  obtain tg where tg: "stop_tgc ?e (sample_view []) tgc4 = Inr tg" by (rule sample_stop)
  have f: "lf_informer sleeping = InfRunning" "lf_stopper_closed sleeping" "lf_tgc sleeping = tgc4"
    "lf_main sleeping = MainSleeping stop_timeout stop_poll_interval" "lf_now sleeping = 0"
    "lf_polls sleeping = 1"
    by (simp_all add: sleeping_def)
  have "life_run ?e act sleeping ?s1"
    by (rule life_run.more [OF life_run.here _ life_step.informer_return]) (simp_all add: f)
  then have "life_run ?e act sleeping ?s2"
    by (rule life_run.more [OF _ _ life_step.informer_done]) (simp_all add: f)
  then have "life_run ?e act sleeping ?s3"
    by (rule life_run.more [OF _ _ life_step.tick]) (simp_all add: f stop_poll_interval_def)
  then have 4: "life_run ?e act sleeping ?s4"
    by (rule life_run.more [OF _ _ life_step.wake [of ?s3 stop_timeout stop_poll_interval]])
      (simp_all add: f)
  have "poll_informer stop_timeout ?s4 = ?s5"
    by (simp add: poll_informer_def f stop_timeout_def stop_poll_interval_def)
  then have 5: "life_run ?e act sleeping ?s5"
    using life_run.more [OF 4, of ?s5] life_step.poll [of ?s4 stop_timeout ?e act] by simp
  have "torn_down = ?s5\<lparr>lf_tgc := tg, lf_main := MainDone True\<rparr>"
    by (simp add: torn_down_def tg f)
  then show ?thesis
    using life_run.more [OF 5, of torn_down] life_step.tear_down [of ?s5 True "sample_view []" ?e act] tg
    by (simp add: f)
qed


end
