(* ===== verification/TgenAddresses.thy ===== *)
theory TgenAddresses
  imports TgenSamples
begin

section \<open>The addresses the program dials\<close>

text \<open>
  The client and the responder build the address they resolve as text, from the text of an
  IP address or a name.  An IP address in it is what is looked up, with brackets round an
  IPv6 one.  The redials leave the brackets out.
\<close>

lemma ipv6_colon: "is_ipv6 ip \<Longrightarrow> CHR '':'' \<in> set ip"
proof -
  assume "is_ipv6 ip"
  then have "filter (\<lambda>c. c = CHR '':'') ip \<noteq> []" by (auto simp: is_ipv6_def count_char_def)
  then show ?thesis by (auto simp: filter_empty_conv)
qed

lemma ip_address_resolves:
  assumes "parse_ip ip \<noteq> None"
  shows "cn_resolve net (destination_address ip) = cn_lookup net ip (go_itoa udp_server_port)"
    and "srv_ip_address sv = ip \<Longrightarrow>
      sn_resolve snet (server_address sv) = sn_lookup snet ip (go_itoa (srv_port sv))"
    and "ip \<noteq> [] \<Longrightarrow>
      \<exists>a. get_resolvable_address ip = Inr a \<and> cn_resolve net a = cn_lookup net ip ''0''"
proof -
  have plain: "\<not> is_ipv6 ip \<Longrightarrow> plain_host ip"
    using assms ip_version_total ipv4_plain_host by blast
  show "cn_resolve net (destination_address ip) = cn_lookup net ip (go_itoa udp_server_port)"
    using plain resolve_plain [of ip "cn_lookup net"] resolve_bracketed [OF assms, of "cn_lookup net"]
    by (simp add: destination_address_def cn_resolve_def)
  show "sn_resolve snet (server_address sv) = sn_lookup snet ip (go_itoa (srv_port sv))"
    if "srv_ip_address sv = ip"
    using that plain resolve_plain [of ip "sn_lookup snet"] resolve_bracketed [OF assms, of "sn_lookup snet"]
    by (simp add: server_address_def sn_resolve_def)
  show "\<exists>a. get_resolvable_address ip = Inr a \<and> cn_resolve net a = cn_lookup net ip ''0''"
    if "ip \<noteq> []"
    using that plain resolvable_address_resolves [of ip _ "cn_lookup net"]
    by (cases "get_resolvable_address ip")
      (auto simp: cn_resolve_def get_resolvable_address_def split: if_splits)
qed

text \<open>
  C23: Whatever the name service does, a destination that is an IP address is looked up under
  that address and the responder's port when the stream is set up, and so is the address
  the responder listens on; a redial does the same for an IPv4 destination, and for a name
  without colon and brackets, but for an IPv6 destination it always fails on the text of
  the address, before anything is looked up, and leaves the stream as it is.
\<close>

theorem ipv6_is_set_up_but_never_redialled:
  assumes "rem_name (bp_destination (st_pair s)) = n"
    and "is_ipv6 n \<or> is_ipv4 n \<or> plain_host n"
  shows "(is_ipv6 n \<or> is_ipv4 n \<longrightarrow>
      (\<forall>sv snet. srv_ip_address sv = n \<longrightarrow>
        sn_resolve snet (server_address sv) = sn_lookup snet n (go_itoa (srv_port sv)))) \<and>
    cn_resolve net (destination_address n) = cn_lookup net n (go_itoa udp_server_port) \<and>
    (if is_ipv6 n
     then redial_destination net conf force s =
       (s, Some (addr_error (n @ '':'' @ go_itoa udp_server_port) ''too many colons in address''))
     else cn_resolve net (n @ '':'' @ go_itoa udp_server_port) =
       cn_lookup net n (go_itoa udp_server_port))"
proof -
  have ip: "is_ipv6 n \<or> is_ipv4 n \<Longrightarrow> parse_ip n \<noteq> None" using ip_version_total by blast
  have plain: "\<not> is_ipv6 n \<Longrightarrow> plain_host n" using assms(2) ipv4_plain_host by blast
  have "cn_resolve net (n @ '':'' @ go_itoa udp_server_port) = Inl (addr_error
      (n @ '':'' @ go_itoa udp_server_port) ''too many colons in address'')" if v6: "is_ipv6 n"
    using split_too_many_colons [of n "go_itoa udp_server_port"] ipv6_colon [OF v6] ip v6
      parse_ip_no_bracket [of n] go_itoa_plain
    by (simp add: cn_resolve_def resolve_udp_addr_def)
  moreover have "cn_resolve net (destination_address n) = cn_lookup net n (go_itoa udp_server_port)"
    using ip_address_resolves(1) [of n net] ip resolve_plain [OF plain, of "cn_lookup net"]
    by (cases "is_ipv6 n") (auto simp: destination_address_def cn_resolve_def)
  moreover have "\<not> is_ipv6 n \<Longrightarrow> cn_resolve net (n @ '':'' @ go_itoa udp_server_port) =
      cn_lookup net n (go_itoa udp_server_port)"
    using resolve_plain [OF plain, of "cn_lookup net"] by (simp add: cn_resolve_def)
  ultimately show ?thesis
    using ip_address_resolves(2) [of n] ip assms(1) by (simp add: redial_destination_def)
qed

definition sample_v6 :: stream where
  "sample_v6 = set_destination (\<lambda>d. d\<lparr>rem_name := ''::2''\<rparr>) sample_new"

theorem ipv6_is_set_up_but_never_redialled_witness:
  "cn_resolve sample_net (destination_address ''::2'') = cn_lookup sample_net ''::2'' (go_itoa udp_server_port) \<and>
   snd (redial_destination sample_net sample_conf True sample_v6) =
     Some (addr_error (''::2'' @ '':'' @ go_itoa udp_server_port) ''too many colons in address'')"
proof -
  have "rem_name (bp_destination (st_pair sample_v6)) = ''::2''"
    by (simp add: sample_v6_def set_destination_def)
  moreover have "ipv6_groups 8 (Some 0) [] ''2'' = Some (Some 0, [0, 2])"
    using ipv6_groups.simps(2) [of 7 "Some 0" "[]" "''2''"] by (simp add: xtoi_def hex_val_def)
  then have "is_ipv6 ''::2''"
    by (simp add: is_ipv6_def count_char_def parse_ip_def parse_ipv6_def expand_ellipsis_def)
  ultimately show ?thesis
    using ipv6_is_set_up_but_never_redialled
      [of sample_v6 "''::2''" sample_net sample_conf True] by simp
qed

text \<open>So the start-up phase of a stream to an IPv6 service sends one test packet.\<close>

lemma ipv6_start_up_ends:
  assumes "is_ipv6 (rem_name (bp_destination (st_pair s)))"
  shows "dummy_packet net conf None k (d, s) = (d\<lparr>sd_pc := SndHead\<rparr>, s)"
proof -
  let ?n = "rem_name (bp_destination (st_pair s))"
  have "parse_ip ?n \<noteq> None" using assms ip_version_total by blast
  then have "resolve_udp_addr (cn_lookup net) (?n @ '':'' @ go_itoa udp_server_port) = Inl (addr_error
      (?n @ '':'' @ go_itoa udp_server_port) ''too many colons in address'')"
    using split_too_many_colons [of ?n "go_itoa udp_server_port"] ipv6_colon [OF assms]
      parse_ip_no_bracket [of ?n] go_itoa_plain
    by (simp add: resolve_udp_addr_def)
  then show ?thesis by (simp add: dummy_packet_def redial_destination_def cn_resolve_def)
qed

end
