(* ===== verification/Spec2Isabelle.thy ===== *)
theory Spec2Isabelle
  imports EndToEnd InterfaceProps PairingText LifeWitnesses TgenAddresses
begin

text \<open>
  GoBAT, a background traffic generator for Kubernetes clusters: a verification development
  of its Go sources.

  \<^bold>\<open>The program.\<close>  One process runs in each pod.  Its controller (\<open>pkg/tgc/tgc.go\<close>) watches
  two config maps: \<open>net-bat-profile\<close> with the settings of the traffic and
  \<open>net-bat-pairing\<close> with the pairs of a source pod and a destination.  From the first it
  starts one UDP responder per network interface (\<open>pkg/tapp/udp.go\<close>); from the second it
  picks the pairs meant for this pod and starts one UDP client stream for each
  (\<open>pkg/tgen/udp.go\<close>).  A stream sends numbered packets, receives the responder's answers,
  drops what timed out and exports Prometheus counters; a responder answers every packet
  and counts missing and late ones.  \<open>pkg/util\<close> has the structs, the configuration, the
  scan of the pod's interfaces and the metric helpers; \<open>cmd/tgenapp/main.go\<close> ties it up.

  \<^bold>\<open>The language.\<close>  \<open>GoBase\<close> models panics (left side of \<open>go\<close>), errors (left side of
  \<open>result\<close>), \<open>int\<close> and \<open>int64\<close> as \<open>64 word\<close> with their wrap-around, checked slices and
  divisions; \<open>GoStrings\<close> the functions of \<open>strings\<close> and \<open>strconv\<close> the sources call;
  \<open>GoMaps\<close> Go maps as association lists with distinct keys; \<open>Workers\<close> wait groups and
  the locale \<open>worker_group\<close>, the contract under which a teardown that sets a flag and
  waits returns.  \<open>GoJson\<close> is what \<open>encoding/json\<close> reads and writes: a scanner of tokens, a
  stack machine of values, the decoding and escaping of strings; \<open>GoBase64\<close> the standard
  base64 encoding; \<open>GoGzip\<close> \<open>compress/gzip\<close> with its blocks, Huffman codes and check sum;
  \<open>GoNet\<close> \<open>net.ParseIP\<close> and the splitting of host and port that \<open>net.ResolveUDPAddr\<close> begins
  with.  They have their round trips as lemmas.

  \<^bold>\<open>Theories and sources.\<close>
  \<^item> \<open>Util\<close>: \<open>pkg/util/util.go\<close>, structs, messages, time, addresses, \<open>GetNetInterfaces\<close>,
    metric constructors; the bound beyond which \<open>SecToMicroSec\<close> wraps.
  \<^item> \<open>Interfaces\<close>, \<open>InterfaceProps\<close>: \<open>GetInterfaces\<close> and \<open>getEnv\<close> of the same file.  No
    PCI address of the environment is lost, the annotated interfaces keep their order and
    names, the environment is read back while it is shorter than the scanner's buffer, and
    the default interface can be taken for a device.
  \<^item> \<open>UtilConfig\<close>: \<open>pkg/util/config.go\<close> and the locale \<open>profile_loader\<close>, the contract of
    \<open>LoadBatProfileConfig\<close>, interpreted for the client module in \<open>TgenConfig\<close>.
  \<^item> \<open>Tapp\<close>, \<open>TappSpec\<close>, \<open>TappReply\<close>, \<open>TappSystem\<close>: \<open>pkg/tapp/udp.go\<close>.  The operations of
    \<open>udpServer\<close>; the abstract accounting the critical section implements and what missing
    minus late means; the reply and the packet that panics; the two goroutines, their
    invariant and the end of the shutdown.
  \<^item> \<open>TgenConfig\<close>, \<open>TgenStream\<close>, \<open>TgenLoops\<close>, \<open>TgenSystem\<close>: \<open>pkg/tgen/udp.go\<close>, the settings,
    the stream with setup, metrics, redial and teardown, the three goroutines as steps of
    program counters, and their interleaving.  \<open>TgenAccounts\<close> has the invariant of a stream
    and \<open>TgenProps\<close> what follows from it; \<open>TgenShutdown\<close> the end of every schedule after
    the stop flag; \<open>TgenWire\<close> what is written; \<open>TgenReplies\<close> what is done with a datagram;
    \<open>TgenTimeouts\<close> what a scan drops, and the stream a failed redial leaves.
  \<^item> \<open>TgenAddresses\<close>: the addresses that the setup, the redials and the responder build from
    text, and what is looked up under them.
  \<^item> \<open>EndToEnd\<close>: a packet from the sender through the responder to the reader.
  \<^item> \<open>SourceJson\<close>: the JSON form of \<open>Source\<close>, by the tags of \<open>pkg/util/util.go\<close>, as the
    controller reads it and the streams write it into their labels.
  \<^item> \<open>TgcPairing\<close>, \<open>PairingProps\<close>, \<open>PairingText\<close>: \<open>handleAddNetBatConfigMap\<close>,
    \<open>getAvailableNetBatPairings\<close> and \<open>trimSlice\<close> of \<open>pkg/tgc/tgc.go\<close>.  One pair per source
    text, what is known of each pair, the lines on which the reader panics; a written line
    is read as what it says, a compressed configuration as its text, and the \<open>source\<close> label
    stands for the source.
  \<^item> \<open>Tgc\<close>: \<open>podTGC\<close>, the three handlers of \<open>StartTGC\<close> with every branch, the clients'
    goroutines, servers, restart, deletion, \<open>StopTGC\<close>; the step relation \<open>tgc_step\<close>.
    \<open>TgcRuntime\<close> states the contract of what is behind the module interfaces as the
    locales \<open>client_runtime\<close>, \<open>server_simulation\<close>, \<open>event_simulation\<close> and
    \<open>client_simulation\<close>, each from the one before, and proves what holds over any such
    modules; \<open>TgcFrames\<close> says what each handler can change of the controller.
  \<^item> \<open>TgcWorld\<close>, \<open>TgcUdp\<close>, \<open>TgcStreams\<close>, \<open>TgcProgram\<close>: the whole program.  \<open>TgcWorld\<close> puts the
    UDP modules of \<open>Tapp\<close> and \<open>TgenStream\<close> behind the interfaces, with their goroutines: one
    step of the world is one step of one goroutine of one stream or server.  The pairs are
    aliased as in the code: streams made for the same pair write its pending map, its
    address and its destination through the same pointer, so the write of one reaches all.
    \<open>TgcUdp\<close> interprets the locales on this world, \<open>TgcStreams\<close> shows that a goroutine's step
    in it is a step of the stream or server alone, and \<open>TgcProgram\<close> that every server, and
    every stream nothing else has written into, is in a state it reaches alone, and what
    that gives for the packets.
  \<^item> \<open>TgcProps\<close>: the controller's properties: good references, the refinement of the clients'
    life cycle, what deleting the pairing stops and when it panics, what a profile update
    leaves running, the order of the config maps, and the clients that are left behind.
    \<open>TgcWitnesses\<close> applies them, and those of the program, to concrete runs.
  \<^item> \<open>TgenApp\<close>, \<open>TgenLife\<close>, \<open>LifeWitnesses\<close>: \<open>cmd/tgenapp/main.go\<close>, with the informer's
    goroutine and \<open>StopTGC\<close> of \<open>pkg/tgc/tgc.go\<close>.  \<open>main\<close> up to the running controller, then
    the life of the process: events while the informer runs, the signal, the timed wait for
    the informer, the teardown.  The wait is bounded, and what \<open>main\<close> leaves is stopped.
  \<^item> \<open>Samples\<close>, \<open>TgenSamples\<close>: concrete libraries and streams for the witnesses.
\<close>

text \<open>
  \<^bold>\<open>Parameters.\<close>  Code that is not in the repository is an argument of the definitions that
  use it: MessagePack (\<open>codec\<close>; where needed: it round-trips and messages have a fixed
  length), the metric registry (\<open>prom\<close>; where needed: adding a negative number to a counter
  panics), sockets and name service (\<open>client_net\<close>, \<open>server_net\<close>), the YAML
  reader, the annotation readers of app-netutil (\<open>netutil\<close>), and what client-go and the HTTP
  server return to \<open>main\<close>.  Clocks, random draws, received datagrams and the results of socket
  calls are inputs of the steps.  The order in which a Go map is visited is an
  argument too, of which only that it visits every entry once is used (\<open>choice_ok\<close>,
  \<open>view_ok\<close>).  Every such hypothesis is met by concrete values in the witnesses.

  \<^bold>\<open>Steps.\<close>  A stream's goroutine steps from one point where another can be observed to the
  next: what runs under the mutex is one step, the unprotected counter updates are steps of
  their own.  A handler of the controller runs under its mutex and is one step; a goroutine
  of \<open>createNetBatTgenClients\<close> takes two (until it has stored its client, and the setup),
  which may fall between any two events.  At the level of the controller
  \<open>TearDownConnection\<close> is one step; that its wait ends is the shutdown property of the
  stream, so far as the reader's read returns.  The properties of the controller over
  \<open>udp_activity\<close>, where the streams change in any way that keeps their life cycle, hold in
  the whole program, whose steps are such changes (\<open>program_activity\<close>).  The body of
  \<open>StopTGC\<close> after its wait is one step too, although it does not take the mutex.  The steps
  follow the program order of each goroutine; the reorderings the Go memory model allows to
  racy accesses are not modelled.

  \<^bold>\<open>Bounds.\<close>  The rank that bounds a stopping stream counts the packets left in the running
  burst, at most \<open>2 ^ 64\<close> with six steps each, since the burst loop does not look at the
  stop flag.  \<open>bufio.Scanner\<close> stops at a line of 65536 bytes, \<open>encoding/json\<close> at a depth of 10000.
  \<open>StopTGC\<close> looks at most five times, since three seconds hold five sleeps of 600
  milliseconds.  No other fuel is used: the loops over data recurse on the data, or on what is
  left of the input (\<open>GoGzip\<close>), and the endless loops of the goroutines are steps.

  \<^bold>\<open>Not modelled.\<close>  Sleeps and blocking of the goroutines (any schedule is allowed; only the
  wait of \<open>StopTGC\<close> has a clock), logging, \<open>closeFile\<close> (\<open>util.go\<close>, a close whose error is
  logged), the parsing of the flags (\<open>main.go\<close>), and what client-go does: the informer may
  deliver any sequence of events between its start and its return, which comes only after
  its stop channel was closed.
\<close>

end
